theory Spec2Isabelle
  imports Complex_Main "HOL-Library.AList"
begin

section \<open>JavaScript values\<close>

text \<open>
  The exporter is JavaScript. Row cells, label values, gauge values and arguments are
  dynamically typed, so they are modelled by one datatype of values. Numbers are
  idealised as reals, with the not-a-number value kept apart; nothing below depends on
  rounding. Plain objects are association lists of properties.
\<close>

datatype jsval =
    JUndefined
  | JNull
  | JBool bool
  | JNum real
  | JNaN
  | JStr string
  | JObj "(string \<times> jsval) list"

datatype error =
    TypeError string
  | ReferenceError string
  | LabelError string
  | ConnectError string
  | QueryError string
  | OtherError string

text \<open>
  Parts of the runtime that the repository uses but does not contain are parameters of
  the model: \<open>productVersionParse\<close> comes from \<open>./utils\<close>, the two number conversions are
  those of the language, and the last two fields say which non-finite or textual values
  the installed metrics library lets \<open>Gauge.set\<close> store (releases differ on exactly
  these: numeric strings and NaN).
\<close>

record lib =
  productVersionParse :: "jsval \<Rightarrow> error + jsval"
  number_to_string :: "real \<Rightarrow> string"
  string_to_number :: "string \<Rightarrow> jsval"
  accepts_string :: "string \<Rightarrow> bool"
  accepts_nan :: bool

text \<open>Property access \<open>v.k\<close>: a TypeError on undefined and null, undefined for a
  property that is not there. On a string only \<open>length\<close> is modelled as present; the
  methods of String.prototype are not among the names the catalogue reads.\<close>

fun get_prop :: "jsval \<Rightarrow> string \<Rightarrow> error + jsval" where
  "get_prop JUndefined k = Inl (TypeError (''Cannot read properties of undefined (reading '' @ k @ '')''))"
| "get_prop JNull k = Inl (TypeError (''Cannot read properties of null (reading '' @ k @ '')''))"
| "get_prop (JObj ps) k = Inr (case map_of ps k of Some v \<Rightarrow> v | None \<Rightarrow> JUndefined)"
| "get_prop (JStr s) k = Inr (if k = ''length'' then JNum (real (length s)) else JUndefined)"
| "get_prop (JBool b) k = Inr JUndefined"
| "get_prop (JNum n) k = Inr JUndefined"
| "get_prop JNaN k = Inr JUndefined"

text \<open>String conversion, numeric conversion (unary \<open>+\<close>) and the binary \<open>+\<close>
  operator, which concatenates as soon as one operand is a string or an object.\<close>

fun to_string :: "lib \<Rightarrow> jsval \<Rightarrow> string" where
  "to_string l JUndefined = ''undefined''"
| "to_string l JNull = ''null''"
| "to_string l (JBool b) = (if b then ''true'' else ''false'')"
| "to_string l (JNum n) = number_to_string l n"
| "to_string l JNaN = ''NaN''"
| "to_string l (JStr s) = s"
| "to_string l (JObj ps) = ''[object Object]''"

fun to_number :: "lib \<Rightarrow> jsval \<Rightarrow> jsval" where
  "to_number l JUndefined = JNaN"
| "to_number l JNull = JNum 0"
| "to_number l (JBool b) = JNum (if b then 1 else 0)"
| "to_number l (JNum n) = JNum n"
| "to_number l JNaN = JNaN"
| "to_number l (JStr s) = string_to_number l s"
| "to_number l (JObj ps) = JNaN"

fun is_textual :: "jsval \<Rightarrow> bool" where
  "is_textual (JStr s) = True"
| "is_textual (JObj ps) = True"
| "is_textual v = False"

fun num_add :: "jsval \<Rightarrow> jsval \<Rightarrow> jsval" where
  "num_add (JNum a) (JNum b) = JNum (a + b)"
| "num_add a b = JNaN"

definition js_plus :: "lib \<Rightarrow> jsval \<Rightarrow> jsval \<Rightarrow> jsval" where
  "js_plus l a b =
     (if is_textual a \<or> is_textual b then JStr (to_string l a @ to_string l b)
      else num_add (to_number l a) (to_number l b))"

section \<open>Rows\<close>

text \<open>With \<open>arrayRowMode\<close> a recordset is an array of rows and a row an array of cells.
  Reading past the end of a row gives undefined; reading a cell of a row that is not
  there throws.\<close>

type_synonym row = "jsval list"
type_synonym rows = "row list"

definition cell :: "row \<Rightarrow> nat \<Rightarrow> jsval" where
  "cell r k = (if k < length r then r ! k else JUndefined)"

section \<open>The metric space\<close>

text \<open>
  A gauge of the metrics library has a name, a help text and its declared label names.
  The samples of all gauges form the metric space: an association list from
  (gauge name, label set) to the last value set, in order of first insertion, which is
  the order in which the library keeps and renders them.

  \<open>Gauge.set\<close> belongs to the library, not to the repository. What is modelled is its
  contract: it throws when the value is not a number, throws when a label is supplied
  that the gauge did not declare, and otherwise overwrites the sample of exactly that
  label set.
\<close>

record gauge =
  gname :: string
  help_text :: string
  labelNames :: "string list"

type_synonym labels = "(string \<times> jsval) list"
type_synonym metric_space = "((string \<times> labels) \<times> jsval) list"

fun valid_value :: "lib \<Rightarrow> jsval \<Rightarrow> bool" where
  "valid_value l (JNum n) = True"
| "valid_value l JNaN = accepts_nan l"
| "valid_value l (JStr s) = accepts_string l s"
| "valid_value l v = False"

definition valid_labels :: "gauge \<Rightarrow> labels \<Rightarrow> bool" where
  "valid_labels g ls = list_all (\<lambda>k. k \<in> set (labelNames g)) (map fst ls)"

text \<open>Effects of a mapping function: it runs on the metric space and either returns
  or throws; what it wrote before throwing stays written.\<close>

type_synonym 'a eff = "metric_space \<Rightarrow> (error + 'a) \<times> metric_space"

definition return_eff :: "'a \<Rightarrow> 'a eff" where
  "return_eff x = (\<lambda>s. (Inr x, s))"

definition throw :: "error \<Rightarrow> 'a eff" where
  "throw e = (\<lambda>s. (Inl e, s))"

definition bind_eff :: "'a eff \<Rightarrow> ('a \<Rightarrow> 'b eff) \<Rightarrow> 'b eff" where
  "bind_eff m f = (\<lambda>s. case m s of (Inl e, s') \<Rightarrow> (Inl e, s') | (Inr x, s') \<Rightarrow> f x s')"

definition lift :: "error + 'a \<Rightarrow> 'a eff" where
  "lift r = (case r of Inl e \<Rightarrow> throw e | Inr x \<Rightarrow> return_eff x)"

fun block :: "unit eff list \<Rightarrow> unit eff" where
  "block [] = return_eff ()"
| "block (m # ms) = bind_eff m (\<lambda>_. block ms)"

text \<open>\<open>for (let i = 0; i < rows.length; i++) { const row = rows[i]; ... }\<close>\<close>

definition for_rows :: "rows \<Rightarrow> (row \<Rightarrow> unit eff) \<Rightarrow> unit eff" where
  "for_rows rs body = block (map body rs)"

text \<open>\<open>rows[i][j]\<close>\<close>

definition cell_at :: "rows \<Rightarrow> nat \<Rightarrow> nat \<Rightarrow> jsval eff" where
  "cell_at rs i j =
     (if i < length rs then return_eff (cell (rs ! i) j)
      else throw (TypeError ''Cannot read properties of undefined''))"

definition gauge_set :: "lib \<Rightarrow> gauge \<Rightarrow> labels \<Rightarrow> jsval \<Rightarrow> unit eff" where
  "gauge_set l g ls v =
     (if \<not> valid_value l v then throw (TypeError ''Value is not a valid number'')
      else if \<not> valid_labels g ls then throw (LabelError ''Added label is not included in initial labelset'')
      else (\<lambda>s. (Inr (), AList.update (gname g, ls) v s)))"

text \<open>\<open>metrics.key.set(labels, value)\<close>\<close>

definition metric_set :: "lib \<Rightarrow> (string \<times> gauge) list \<Rightarrow> string \<Rightarrow> labels \<Rightarrow> jsval \<Rightarrow> unit eff" where
  "metric_set l metrics key ls v =
     (case map_of metrics key of
        None \<Rightarrow> throw (TypeError ''Cannot read properties of undefined (reading set)'')
      | Some g \<Rightarrow> gauge_set l g ls v)"

section \<open>The catalogue of collectors\<close>

text \<open>
  A collector pairs its gauges with a query and a mapping function. The mapping
  functions are written with up to four parameters; \<open>measure\<close> supplies three
  arguments, so a fourth parameter is always undefined.
\<close>

type_synonym mapfn = "rows \<Rightarrow> (string \<times> gauge) list \<Rightarrow> jsval \<Rightarrow> jsval \<Rightarrow> unit eff"

record collector =
  c_metrics :: "(string \<times> gauge) list"
  c_query :: string
  c_collect :: mapfn

subsection \<open>Gauges and queries\<close>

text \<open>The query texts are kept with their white space collapsed.\<close>

definition mssql_up_metrics :: "(string \<times> gauge) list" where
  "mssql_up_metrics =
    [(''mssql_up'', \<lparr>gname = ''mssql_up'',
        help_text = ''UP Status'',
        labelNames = [''host'']\<rparr>)]"

definition mssql_up_query :: string where
  "mssql_up_query =
     ''SELECT 1''"

definition mssql_product_version_metrics :: "(string \<times> gauge) list" where
  "mssql_product_version_metrics =
    [(''mssql_product_version'', \<lparr>gname = ''mssql_product_version'',
        help_text = ''Instance version (Major.Minor)'',
        labelNames = [''host'']\<rparr>)]"

definition mssql_product_version_query :: string where
  "mssql_product_version_query =
     ''SELECT CONVERT(VARCHAR(128), SERVERPROPERTY ('productversion')) AS '' @
     ''ProductVersion, SERVERPROPERTY('ProductVersion') AS ProductVersion''"

definition mssql_instance_local_time_metrics :: "(string \<times> gauge) list" where
  "mssql_instance_local_time_metrics =
    [(''mssql_instance_local_time'', \<lparr>gname = ''mssql_instance_local_time'',
        help_text = ''Number of seconds since epoch on local instance'',
        labelNames = [''host'']\<rparr>)]"

definition mssql_instance_local_time_query :: string where
  "mssql_instance_local_time_query =
     ''SELECT DATEDIFF(second, '19700101', GETUTCDATE())''"

definition mssql_connections_metrics :: "(string \<times> gauge) list" where
  "mssql_connections_metrics =
    [(''mssql_connections'', \<lparr>gname = ''mssql_connections'',
        help_text = ''Number of active connections'',
        labelNames = [''host'', ''database'', ''state'']\<rparr>)]"

definition mssql_connections_query :: string where
  "mssql_connections_query =
     ''SELECT DB_NAME(sP.dbid) , COUNT(sP.spid) FROM sys.sysprocesses sP GROUP BY '' @
     ''DB_NAME(sP.dbid)''"

definition mssql_client_connections_metrics :: "(string \<times> gauge) list" where
  "mssql_client_connections_metrics =
    [(''mssql_client_connections'', \<lparr>gname = ''mssql_client_connections'',
        help_text = ''Number of active client connections'',
        labelNames = [''host'', ''client'', ''database'']\<rparr>)]"

definition mssql_client_connections_query :: string where
  "mssql_client_connections_query =
     ''SELECT host_name, DB_NAME(dbid) dbname, COUNT(*) session_count FROM '' @
     ''sys.dm_exec_sessions a LEFT JOIN sysprocesses b on a.session_id = b.spid WHERE '' @
     ''is_user_process = 1 GROUP BY host_name, dbid''"

definition mssql_deadlocks_metrics :: "(string \<times> gauge) list" where
  "mssql_deadlocks_metrics =
    [(''mssql_deadlocks_per_second'', \<lparr>gname = ''mssql_deadlocks'',
        help_text = ''Number of lock requests per second that resulted in a deadlock since last restart'',
        labelNames = [''host'']\<rparr>)]"

definition mssql_deadlocks_query :: string where
  "mssql_deadlocks_query =
     ''SELECT cntr_value FROM sys.dm_os_performance_counters WHERE counter_name = '' @
     '''Number of Deadlocks/sec' AND instance_name = '_Total'' @ [CHR 0x27]"

definition mssql_user_errors_metrics :: "(string \<times> gauge) list" where
  "mssql_user_errors_metrics =
    [(''mssql_user_errors'', \<lparr>gname = ''mssql_user_errors'',
        help_text = ''Number of user errors/sec since last restart'',
        labelNames = [''host'']\<rparr>)]"

definition mssql_user_errors_query :: string where
  "mssql_user_errors_query =
     ''SELECT cntr_value FROM sys.dm_os_performance_counters WHERE counter_name = '' @
     '''Errors/sec' AND instance_name = 'User Errors'' @ [CHR 0x27]"

definition mssql_kill_connection_errors_metrics :: "(string \<times> gauge) list" where
  "mssql_kill_connection_errors_metrics =
    [(''mssql_kill_connection_errors'', \<lparr>gname = ''mssql_kill_connection_errors'',
        help_text = ''Number of kill connection errors/sec since last restart'',
        labelNames = [''host'']\<rparr>)]"

definition mssql_kill_connection_errors_query :: string where
  "mssql_kill_connection_errors_query =
     ''SELECT cntr_value FROM sys.dm_os_performance_counters WHERE counter_name = '' @
     '''Errors/sec' AND instance_name = 'Kill Connection Errors'' @ [CHR 0x27]"

definition mssql_database_state_metrics :: "(string \<times> gauge) list" where
  "mssql_database_state_metrics =
    [(''mssql_database_state'', \<lparr>gname = ''mssql_database_state'',
        help_text = ''Databases states: 0=ONLINE 1=RESTORING 2=RECOVERING 3=RECOVERY_PENDING 4=SUSPECT 5=EMERGENCY 6=OFFLINE 7=COPYING 10=OFFLINE_SECONDARY'',
        labelNames = [''host'', ''database'']\<rparr>)]"

definition mssql_database_state_query :: string where
  "mssql_database_state_query =
     ''SELECT name, state FROM master.sys.databases''"

definition mssql_log_growths_metrics :: "(string \<times> gauge) list" where
  "mssql_log_growths_metrics =
    [(''mssql_log_growths'', \<lparr>gname = ''mssql_log_growths'',
        help_text = ''Total number of times the transaction log for the database has been expanded last restart'',
        labelNames = [''host'', ''database'']\<rparr>)]"

definition mssql_log_growths_query :: string where
  "mssql_log_growths_query =
     ''SELECT rtrim(instance_name), cntr_value FROM sys.dm_os_performance_counters '' @
     ''WHERE counter_name = 'Log Growths' and instance_name <> '_Total'' @ [CHR 0x27]"

definition mssql_database_filesize_metrics :: "(string \<times> gauge) list" where
  "mssql_database_filesize_metrics =
    [(''mssql_database_filesize'', \<lparr>gname = ''mssql_database_filesize'',
        help_text = ''Physical sizes of files used by database in KB, their names and types (0=rows, 1=log, 2=filestream,3=n/a 4=fulltext(before v2008 of MSSQL))'',
        labelNames = [''host'', ''database'', ''logicalname'', ''type'', ''filename'']\<rparr>)]"

definition mssql_database_filesize_query :: string where
  "mssql_database_filesize_query =
     ''SELECT DB_NAME(database_id) AS database_name, name AS logical_name, type, '' @
     ''physical_name, (size * CAST(8 AS BIGINT)) size_kb FROM sys.master_files''"

definition mssql_buffer_manager_metrics :: "(string \<times> gauge) list" where
  "mssql_buffer_manager_metrics =
    [(''mssql_page_read_total'', \<lparr>gname = ''mssql_page_read_total'',
        help_text = ''Page reads/sec'',
        labelNames = [''host'']\<rparr>),
     (''mssql_page_write_total'', \<lparr>gname = ''mssql_page_write_total'',
        help_text = ''Page writes/sec'',
        labelNames = [''host'']\<rparr>),
     (''mssql_page_life_expectancy'', \<lparr>gname = ''mssql_page_life_expectancy'',
        help_text = ''Indicates the minimum number of seconds a page will stay in the buffer pool on this node without references. The traditional advice from Microsoft used to be that the PLE should remain above 300 seconds'',
        labelNames = [''host'']\<rparr>),
     (''mssql_lazy_write_total'', \<lparr>gname = ''mssql_lazy_write_total'',
        help_text = ''Lazy writes/sec'',
        labelNames = [''host'']\<rparr>),
     (''mssql_page_checkpoint_total'', \<lparr>gname = ''mssql_page_checkpoint_total'',
        help_text = ''Checkpoint pages/sec'',
        labelNames = [''host'']\<rparr>)]"

definition mssql_buffer_manager_query :: string where
  "mssql_buffer_manager_query =
     ''SELECT * FROM (SELECT rtrim(counter_name) as counter_name, cntr_value FROM '' @
     ''sys.dm_os_performance_counters WHERE counter_name in ('Page reads/sec', 'Page '' @
     ''writes/sec', 'Page life expectancy', 'Lazy writes/sec', 'Checkpoint pages/sec') '' @
     ''AND object_name = 'SQLServer:Buffer Manager') d PIVOT ( MAX(cntr_value) FOR '' @
     ''counter_name IN ([Page reads/sec], [Page writes/sec], [Page life expectancy], '' @
     ''[Lazy writes/sec], [Checkpoint pages/sec]) ) piv''"

definition mssql_io_stall_metrics :: "(string \<times> gauge) list" where
  "mssql_io_stall_metrics =
    [(''mssql_io_stall'', \<lparr>gname = ''mssql_io_stall'',
        help_text = ''Wait time (ms) of stall since last restart'',
        labelNames = [''host'', ''database'', ''type'']\<rparr>),
     (''mssql_io_stall_total'', \<lparr>gname = ''mssql_io_stall_total'',
        help_text = ''Wait time (ms) of stall since last restart'',
        labelNames = [''host'', ''database'']\<rparr>)]"

definition mssql_io_stall_query :: string where
  "mssql_io_stall_query =
     ''SELECT cast(DB_Name(a.database_id) as varchar) as name, sum(io_stall_read_ms) as '' @
     ''io_stall_read_ms, sum(io_stall_write_ms) as io_stall_write_ms, sum(io_stall) as '' @
     ''io_stall, sum(io_stall_queued_read_ms) as io_stall_queued_read_ms, '' @
     ''sum(io_stall_queued_write_ms) as io_stall_queued_write_ms, sum(io_stall_read_ms) '' @
     ''/ sum(num_of_reads) as io_stall_read_ms_avg, sum(io_stall_write_ms) / '' @
     ''sum(num_of_writes) as io_stall_write_ms_avg FROM '' @
     ''sys.dm_io_virtual_file_stats(null, null) a INNER JOIN sys.master_files b ON '' @
     ''a.database_id = b.database_id AND a.file_id = b.file_id WHERE b.[type] = 0 /* '' @
     ''only rows file */ GROUP BY a.database_id''"

definition mssql_batch_requests_metrics :: "(string \<times> gauge) list" where
  "mssql_batch_requests_metrics =
    [(''mssql_batch_requests'', \<lparr>gname = ''mssql_batch_requests'',
        help_text = ''Number of Transact-SQL command batches received per second. This statistic is affected by all constraints (such as I/O, number of users, cachesize, complexity of requests, and so on). High batch requests mean good throughput'',
        labelNames = [''host'']\<rparr>)]"

definition mssql_batch_requests_query :: string where
  "mssql_batch_requests_query =
     ''SELECT TOP 1 cntr_value FROM sys.dm_os_performance_counters WHERE counter_name = '' @
     '''Batch Requests/sec'' @ [CHR 0x27]"

definition mssql_transactions_metrics :: "(string \<times> gauge) list" where
  "mssql_transactions_metrics =
    [(''mssql_transactions'', \<lparr>gname = ''mssql_transactions'',
        help_text = ''Number of transactions started for the database per second. Transactions/sec does not count XTP-only transactions (transactions started by a natively compiled stored procedure.)'',
        labelNames = [''host'', ''database'']\<rparr>)]"

definition mssql_transactions_query :: string where
  "mssql_transactions_query =
     ''SELECT rtrim(instance_name), cntr_value FROM sys.dm_os_performance_counters '' @
     ''WHERE counter_name = 'Transactions/sec' AND instance_name <> '_Total'' @ [CHR 0x27]"

definition mssql_os_process_memory_metrics :: "(string \<times> gauge) list" where
  "mssql_os_process_memory_metrics =
    [(''mssql_page_fault_count'', \<lparr>gname = ''mssql_page_fault_count'',
        help_text = ''Number of page faults since last restart'',
        labelNames = [''host'']\<rparr>),
     (''mssql_memory_utilization_percentage'', \<lparr>gname = ''mssql_memory_utilization_percentage'',
        help_text = ''Percentage of memory utilization'',
        labelNames = [''host'']\<rparr>)]"

definition mssql_os_process_memory_query :: string where
  "mssql_os_process_memory_query =
     ''SELECT page_fault_count, memory_utilization_percentage FROM '' @
     ''sys.dm_os_process_memory''"

definition mssql_os_sys_memory_metrics :: "(string \<times> gauge) list" where
  "mssql_os_sys_memory_metrics =
    [(''mssql_total_physical_memory_kb'', \<lparr>gname = ''mssql_total_physical_memory_kb'',
        help_text = ''Total physical memory in KB'',
        labelNames = [''host'']\<rparr>),
     (''mssql_available_physical_memory_kb'', \<lparr>gname = ''mssql_available_physical_memory_kb'',
        help_text = ''Available physical memory in KB'',
        labelNames = [''host'']\<rparr>),
     (''mssql_total_page_file_kb'', \<lparr>gname = ''mssql_total_page_file_kb'',
        help_text = ''Total page file in KB'',
        labelNames = [''host'']\<rparr>),
     (''mssql_available_page_file_kb'', \<lparr>gname = ''mssql_available_page_file_kb'',
        help_text = ''Available page file in KB'',
        labelNames = [''host'']\<rparr>)]"

definition mssql_os_sys_memory_query :: string where
  "mssql_os_sys_memory_query =
     ''SELECT total_physical_memory_kb, available_physical_memory_kb, '' @
     ''total_page_file_kb, available_page_file_kb FROM sys.dm_os_sys_memory''"

definition mssql_db_memory_metrics :: "(string \<times> gauge) list" where
  "mssql_db_memory_metrics =
    [(''mssql_db_memory'', \<lparr>gname = ''mssql_db_memory'',
        help_text = ''RAM used by database'',
        labelNames = [''host'', ''database'']\<rparr>)]"

definition mssql_db_memory_query :: string where
  "mssql_db_memory_query =
     ''SELECT ISNULL(DB_NAME(database_id), 'null') As [database_name], COUNT(1) * 8 AS '' @
     ''memory_usage FROM sys.dm_os_buffer_descriptors GROUP BY database_id ORDER BY '' @
     ''COUNT(*) DESC''"

definition mssql_volume_stats_metrics :: "(string \<times> gauge) list" where
  "mssql_volume_stats_metrics =
    [(''mssql_volume_total_bytes'', \<lparr>gname = ''mssql_volume_total_bytes'',
        help_text = ''Total size in bytes of the volume'',
        labelNames = [''host'', ''volume_mount_point'']\<rparr>),
     (''mssql_volume_available_bytes'', \<lparr>gname = ''mssql_volume_available_bytes'',
        help_text = ''Available free space on the volume'',
        labelNames = [''host'', ''volume_mount_point'']\<rparr>),
     (''mssql_volume_available_percentage'', \<lparr>gname = ''mssql_volume_available_percentage'',
        help_text = ''Available free space on the volume ( % )'',
        labelNames = [''host'', ''volume_mount_point'']\<rparr>)]"

definition mssql_volume_stats_query :: string where
  "mssql_volume_stats_query =
     ''SELECT distinct(volume_mount_point), total_bytes, avg(available_bytes), '' @
     ''cast(avg(available_bytes) as decimal) / cast(total_bytes as decimal) * 100 FROM '' @
     ''sys.master_files AS f CROSS APPLY sys.dm_os_volume_stats(f.database_id, '' @
     ''f.file_id) GROUP by volume_mount_point, total_bytes''"

definition mssql_most_exec_query_metrics :: "(string \<times> gauge) list" where
  "mssql_most_exec_query_metrics =
    [(''mssql_total_execution_count'', \<lparr>gname = ''mssql_total_execution_count'',
        help_text = ''Total Execution Count'',
        labelNames = [''database'', ''query_id'', ''query_text_id'', ''query_sql_text'']\<rparr>)]"

definition mssql_most_exec_query_query :: string where
  "mssql_most_exec_query_query =
     ''SELECT TOP 100 q.query_id, qt.query_text_id, qt.query_sql_text, '' @
     ''SUM(rs.count_executions) AS total_execution_count FROM '' @
     ''sys.query_store_query_text AS qt JOIN sys.query_store_query AS q ON '' @
     ''qt.query_text_id = q.query_text_id JOIN sys.query_store_plan AS p ON q.query_id '' @
     ''= p.query_id JOIN sys.query_store_runtime_stats AS rs ON p.plan_id = rs.plan_id '' @
     ''WHERE rs.avg_duration > 1000000 GROUP BY q.query_id, qt.query_text_id, '' @
     ''qt.query_sql_text ORDER BY total_execution_count DESC''"

definition mssql_most_avg_time_query_metrics :: "(string \<times> gauge) list" where
  "mssql_most_avg_time_query_metrics =
    [(''mssql_avg_duration'', \<lparr>gname = ''mssql_avg_duration_us'',
        help_text = ''Average Query Duration in micro seconds'',
        labelNames = [''database'', ''query_sql_text'', ''query_id'']\<rparr>)]"

definition mssql_most_avg_time_query_query :: string where
  "mssql_most_avg_time_query_query =
     ''SELECT TOP 100 avg(rs.avg_duration) AS avg_duration, max(qt.query_sql_text) AS '' @
     ''query_sql_text, q.query_id, GETUTCDATE() AS CurrentUTCTime, '' @
     ''max(rs.last_execution_time) AS last_execution_time FROM '' @
     ''sys.query_store_query_text AS qt JOIN sys.query_store_query AS q ON '' @
     ''qt.query_text_id = q.query_text_id JOIN sys.query_store_plan AS p ON q.query_id '' @
     ''= p.query_id JOIN sys.query_store_runtime_stats AS rs ON p.plan_id = rs.plan_id '' @
     ''WHERE rs.last_execution_time > DATEADD(hour, -1, GETUTCDATE()) and '' @
     ''rs.avg_duration > 1000000 GROUP BY q.query_id ORDER BY avg(rs.avg_duration) DESC''"

definition mssql_most_avg_io_query_metrics :: "(string \<times> gauge) list" where
  "mssql_most_avg_io_query_metrics =
    [(''mssql_avg_physical_io_reads'', \<lparr>gname = ''mssql_avg_physical_io_reads'',
        help_text = ''Average Physical IO Reads'',
        labelNames = [''database'', ''query_sql_text'', ''query_id'']\<rparr>),
     (''mssql_avg_rowcount'', \<lparr>gname = ''mssql_avg_rowcount'',
        help_text = ''Average Row Count'',
        labelNames = [''database'', ''query_sql_text'', ''query_id'']\<rparr>),
     (''mssql_count_executions'', \<lparr>gname = ''mssql_count_executions'',
        help_text = ''Cont Executions'',
        labelNames = [''database'', ''query_sql_text'', ''query_id'']\<rparr>)]"

definition mssql_most_avg_io_query_query :: string where
  "mssql_most_avg_io_query_query =
     ''SELECT TOP 10 avg(rs.avg_physical_io_reads) as avg_physical_io_reads, '' @
     ''max(qt.query_sql_text) as query_sql_text, q.query_id, avg(rs.avg_rowcount) as '' @
     ''avg_rowcount, sum(rs.count_executions) as count_executions FROM '' @
     ''sys.query_store_query_text AS qt JOIN sys.query_store_query AS q ON '' @
     ''qt.query_text_id = q.query_text_id JOIN sys.query_store_plan AS p ON q.query_id '' @
     ''= p.query_id JOIN sys.query_store_runtime_stats AS rs ON p.plan_id = rs.plan_id '' @
     ''JOIN sys.query_store_runtime_stats_interval AS rsi ON '' @
     ''rsi.runtime_stats_interval_id = rs.runtime_stats_interval_id WHERE '' @
     ''rsi.start_time >= DATEADD(hour, -1, GETUTCDATE()) and rs.avg_duration > 1000000 '' @
     ''GROUP BY q.query_id ORDER BY avg(rs.avg_physical_io_reads) DESC''"

definition mssql_most_wait_query_metrics :: "(string \<times> gauge) list" where
  "mssql_most_wait_query_metrics =
    [(''mssql_sum_total_wait_ms'', \<lparr>gname = ''mssql_sum_total_wait_ms'',
        help_text = ''Total Wait ms'',
        labelNames = [''database'', ''query_sql_text'', ''query_text_id'', ''query_id'']\<rparr>)]"

definition mssql_most_wait_query_query :: string where
  "mssql_most_wait_query_query =
     ''SELECT qt.query_sql_text, qt.query_text_id, st.sum_total_wait_ms, q.query_id '' @
     ''FROM sys.query_store_query q JOIN sys.query_store_query_text qt ON '' @
     ''q.query_text_id = qt.query_text_id JOIN ( SELECT TOP 50 p.query_id, '' @
     ''sum(total_query_wait_time_ms) AS sum_total_wait_ms FROM '' @
     ''sys.query_store_wait_stats ws JOIN sys.query_store_plan p ON ws.plan_id = '' @
     ''p.plan_id JOIN sys.query_store_query q ON p.query_id = q.query_id JOIN '' @
     ''sys.query_store_query_text qt ON q.query_text_id = qt.query_text_id JOIN '' @
     ''sys.query_store_runtime_stats AS rs ON p.plan_id = rs.plan_id WHERE '' @
     ''rs.avg_duration > 1000000 GROUP BY p.query_id ORDER BY sum_total_wait_ms DESC) '' @
     ''as st ON st.query_id = q.query_id''"

subsection \<open>Mapping functions\<close>

definition mssql_up_collect :: "lib \<Rightarrow> mapfn" where
  "mssql_up_collect l rows metrics host unused =
     bind_eff (cell_at rows 0 0) (\<lambda>mssql_up.
       metric_set l metrics ''mssql_up'' [(''host'', host)] mssql_up)"

definition mssql_product_version_collect :: "lib \<Rightarrow> mapfn" where
  "mssql_product_version_collect l rows metrics host unused =
     bind_eff (cell_at rows 0 0) (\<lambda>c.
     bind_eff (lift (productVersionParse l c)) (\<lambda>v.
     bind_eff (lift (get_prop v ''major'')) (\<lambda>major.
     bind_eff (lift (get_prop v ''minor'')) (\<lambda>minor.
       let mssql_product_version = js_plus l (js_plus l major (JStr ''.'')) minor in
       metric_set l metrics ''mssql_product_version'' [(''host'', host)] mssql_product_version))))"

definition mssql_instance_local_time_collect :: "lib \<Rightarrow> mapfn" where
  "mssql_instance_local_time_collect l rows metrics host unused =
     bind_eff (cell_at rows 0 0) (\<lambda>mssql_instance_local_time.
       metric_set l metrics ''mssql_instance_local_time'' [(''host'', host)] mssql_instance_local_time)"

definition mssql_connections_collect :: "lib \<Rightarrow> mapfn" where
  "mssql_connections_collect l rows metrics host unused =
     for_rows rows (\<lambda>row.
       let database = cell row 0; mssql_connections = cell row 1 in
       metric_set l metrics ''mssql_connections''
         [(''host'', host), (''database'', database), (''state'', JStr ''current'')] mssql_connections)"

definition mssql_client_connections_collect :: "lib \<Rightarrow> mapfn" where
  "mssql_client_connections_collect l rows metrics host unused =
     for_rows rows (\<lambda>row.
       let client = cell row 0; database = cell row 1; mssql_client_connections = cell row 2 in
       metric_set l metrics ''mssql_client_connections''
         [(''host'', host), (''client'', client), (''database'', database)] mssql_client_connections)"

definition mssql_deadlocks_collect :: "lib \<Rightarrow> mapfn" where
  "mssql_deadlocks_collect l rows metrics host unused =
     bind_eff (cell_at rows 0 0) (\<lambda>mssql_deadlocks.
       metric_set l metrics ''mssql_deadlocks_per_second'' [(''host'', host)] mssql_deadlocks)"

definition mssql_user_errors_collect :: "lib \<Rightarrow> mapfn" where
  "mssql_user_errors_collect l rows metrics host unused =
     bind_eff (cell_at rows 0 0) (\<lambda>mssql_user_errors.
       metric_set l metrics ''mssql_user_errors'' [(''host'', host)] mssql_user_errors)"

definition mssql_kill_connection_errors_collect :: "lib \<Rightarrow> mapfn" where
  "mssql_kill_connection_errors_collect l rows metrics host unused =
     bind_eff (cell_at rows 0 0) (\<lambda>mssql_kill_connection_errors.
       metric_set l metrics ''mssql_kill_connection_errors'' [(''host'', host)] mssql_kill_connection_errors)"

definition mssql_database_state_collect :: "lib \<Rightarrow> mapfn" where
  "mssql_database_state_collect l rows metrics host unused =
     for_rows rows (\<lambda>row.
       let database = cell row 0; mssql_database_state = cell row 1 in
       metric_set l metrics ''mssql_database_state''
         [(''host'', host), (''database'', database)] mssql_database_state)"

definition mssql_log_growths_collect :: "lib \<Rightarrow> mapfn" where
  "mssql_log_growths_collect l rows metrics host unused =
     for_rows rows (\<lambda>row.
       let database = cell row 0; mssql_log_growths = cell row 1 in
       metric_set l metrics ''mssql_log_growths''
         [(''host'', host), (''database'', database)] mssql_log_growths)"

definition mssql_database_filesize_collect :: "lib \<Rightarrow> mapfn" where
  "mssql_database_filesize_collect l rows metrics host unused =
     for_rows rows (\<lambda>row.
       let database = cell row 0; logicalname = cell row 1; type = cell row 2;
           filename = cell row 3; mssql_database_filesize = cell row 4 in
       metric_set l metrics ''mssql_database_filesize''
         [(''host'', host), (''database'', database), (''logicalname'', logicalname),
          (''type'', type), (''filename'', filename)] mssql_database_filesize)"

definition mssql_buffer_manager_collect :: "lib \<Rightarrow> mapfn" where
  "mssql_buffer_manager_collect l rows metrics host unused =
     bind_eff (cell_at rows 0 0) (\<lambda>page_read.
     bind_eff (cell_at rows 0 1) (\<lambda>page_write.
     bind_eff (cell_at rows 0 2) (\<lambda>page_life_expectancy.
     bind_eff (cell_at rows 0 3) (\<lambda>lazy_write_total.
     bind_eff (cell_at rows 0 4) (\<lambda>page_checkpoint_total.
       block
        [metric_set l metrics ''mssql_page_read_total'' [(''host'', host)] page_read,
         metric_set l metrics ''mssql_page_write_total'' [(''host'', host)] page_write,
         metric_set l metrics ''mssql_page_life_expectancy'' [(''host'', host)] page_life_expectancy,
         metric_set l metrics ''mssql_page_checkpoint_total'' [(''host'', host)] page_checkpoint_total,
         metric_set l metrics ''mssql_lazy_write_total'' [(''host'', host)] lazy_write_total])))))"

definition mssql_io_stall_collect :: "lib \<Rightarrow> mapfn" where
  "mssql_io_stall_collect l rows metrics host unused =
     for_rows rows (\<lambda>row.
       let database = cell row 0; read = cell row 1; write = cell row 2; stall = cell row 3;
           queued_read = cell row 4; queued_write = cell row 5;
           avg_read = cell row 6; avg_write = cell row 7 in
       block
        [metric_set l metrics ''mssql_io_stall_total'' [(''host'', host), (''database'', database)] stall,
         metric_set l metrics ''mssql_io_stall''
           [(''host'', host), (''database'', database), (''type'', JStr ''read'')] read,
         metric_set l metrics ''mssql_io_stall''
           [(''host'', host), (''database'', database), (''type'', JStr ''write'')] write,
         metric_set l metrics ''mssql_io_stall''
           [(''host'', host), (''database'', database), (''type'', JStr ''queued_read'')] queued_read,
         metric_set l metrics ''mssql_io_stall''
           [(''host'', host), (''database'', database), (''type'', JStr ''queued_write'')] queued_write,
         metric_set l metrics ''mssql_io_stall''
           [(''host'', host), (''database'', database), (''type'', JStr ''avg_read'')] avg_read,
         metric_set l metrics ''mssql_io_stall''
           [(''host'', host), (''database'', database), (''type'', JStr ''avg_write'')] avg_write])"

definition mssql_batch_requests_collect :: "lib \<Rightarrow> mapfn" where
  "mssql_batch_requests_collect l rows metrics host unused =
     for_rows rows (\<lambda>row.
       let mssql_batch_requests = cell row 0 in
       metric_set l metrics ''mssql_batch_requests'' [(''host'', host)] mssql_batch_requests)"

definition mssql_transactions_collect :: "lib \<Rightarrow> mapfn" where
  "mssql_transactions_collect l rows metrics host unused =
     for_rows rows (\<lambda>row.
       let database = cell row 0; transactions = cell row 1 in
       metric_set l metrics ''mssql_transactions''
         [(''host'', host), (''database'', database)] transactions)"

definition mssql_os_process_memory_collect :: "lib \<Rightarrow> mapfn" where
  "mssql_os_process_memory_collect l rows metrics host unused =
     bind_eff (cell_at rows 0 0) (\<lambda>page_fault_count.
     bind_eff (cell_at rows 0 1) (\<lambda>memory_utilization_percentage.
       block
        [metric_set l metrics ''mssql_page_fault_count'' [(''host'', host)] page_fault_count,
         metric_set l metrics ''mssql_memory_utilization_percentage'' [(''host'', host)]
           memory_utilization_percentage]))"

definition mssql_os_sys_memory_collect :: "lib \<Rightarrow> mapfn" where
  "mssql_os_sys_memory_collect l rows metrics host unused =
     bind_eff (cell_at rows 0 0) (\<lambda>mssql_total_physical_memory_kb.
     bind_eff (cell_at rows 0 1) (\<lambda>mssql_available_physical_memory_kb.
     bind_eff (cell_at rows 0 2) (\<lambda>mssql_total_page_file_kb.
     bind_eff (cell_at rows 0 3) (\<lambda>mssql_available_page_file_kb.
       block
        [metric_set l metrics ''mssql_total_physical_memory_kb'' [(''host'', host)]
           mssql_total_physical_memory_kb,
         metric_set l metrics ''mssql_available_physical_memory_kb'' [(''host'', host)]
           mssql_available_physical_memory_kb,
         metric_set l metrics ''mssql_total_page_file_kb'' [(''host'', host)]
           mssql_total_page_file_kb,
         metric_set l metrics ''mssql_available_page_file_kb'' [(''host'', host)]
           mssql_available_page_file_kb]))))"

definition mssql_db_memory_collect :: "lib \<Rightarrow> mapfn" where
  "mssql_db_memory_collect l rows metrics host unused =
     for_rows rows (\<lambda>row.
       let database = cell row 0; memory_usage = cell row 1 in
       metric_set l metrics ''mssql_db_memory''
         [(''host'', host), (''database'', database)] memory_usage)"

definition mssql_volume_stats_collect :: "lib \<Rightarrow> mapfn" where
  "mssql_volume_stats_collect l rows metrics host unused =
     for_rows rows (\<lambda>row.
       let volume_mount_point = cell row 0;
           total_bytes = to_number l (cell row 1);
           available_bytes = to_number l (cell row 2);
           available_percentage = to_number l (cell row 3) in
       block
        [metric_set l metrics ''mssql_volume_total_bytes''
           [(''host'', host), (''volume_mount_point'', volume_mount_point)] total_bytes,
         metric_set l metrics ''mssql_volume_available_bytes''
           [(''host'', host), (''volume_mount_point'', volume_mount_point)] available_bytes,
         metric_set l metrics ''mssql_volume_available_percentage''
           [(''host'', host), (''volume_mount_point'', volume_mount_point)] available_percentage])"

text \<open>The query-store mapping functions declare \<open>(rows, metrics, config, host)\<close>.\<close>

definition mssql_most_exec_query_collect :: "lib \<Rightarrow> mapfn" where
  "mssql_most_exec_query_collect l rows metrics config host =
     bind_eff (lift (get_prop config ''connect'')) (\<lambda>connect.
     bind_eff (lift (get_prop connect ''options'')) (\<lambda>options.
     bind_eff (lift (get_prop options ''database'')) (\<lambda>dbname.
       for_rows rows (\<lambda>row.
         let mssql_query_id = cell row 0; mssql_query_text_id = cell row 1;
             mssql_query_sql_text = cell row 2; mssql_total_execution_count = cell row 3 in
         metric_set l metrics ''mssql_total_execution_count''
           [(''host'', host), (''database'', dbname), (''query_id'', mssql_query_id),
            (''query_text_id'', mssql_query_text_id), (''query_sql_text'', mssql_query_sql_text)]
           mssql_total_execution_count))))"

definition mssql_most_avg_time_query_collect :: "lib \<Rightarrow> mapfn" where
  "mssql_most_avg_time_query_collect l rows metrics config host =
     bind_eff (lift (get_prop config ''connect'')) (\<lambda>connect.
     bind_eff (lift (get_prop connect ''options'')) (\<lambda>options.
     bind_eff (lift (get_prop options ''database'')) (\<lambda>dbname.
       for_rows rows (\<lambda>row.
         let mssql_avg_duration = cell row 0; mssql_query_sql_text = cell row 1;
             mssql_query_id = cell row 2 in
         metric_set l metrics ''mssql_avg_duration''
           [(''host'', host), (''database'', dbname), (''query_sql_text'', mssql_query_sql_text),
            (''query_id'', mssql_query_id)]
           mssql_avg_duration))))"

definition mssql_most_avg_io_query_collect :: "lib \<Rightarrow> mapfn" where
  "mssql_most_avg_io_query_collect l rows metrics config host =
     bind_eff (lift (get_prop config ''connect'')) (\<lambda>connect.
     bind_eff (lift (get_prop connect ''options'')) (\<lambda>options.
     bind_eff (lift (get_prop options ''database'')) (\<lambda>dbname.
       for_rows rows (\<lambda>row.
         let mssql_avg_physical_io_reads = cell row 0; mssql_query_sql_text = cell row 1;
             mssql_query_id = cell row 2; mssql_avg_rowcount = cell row 3;
             mssql_count_executions = cell row 4 in
         block
          [metric_set l metrics ''mssql_avg_physical_io_reads''
             [(''host'', host), (''database'', dbname), (''query_sql_text'', mssql_query_sql_text),
              (''query_id'', mssql_query_id)]
             mssql_avg_physical_io_reads,
           metric_set l metrics ''mssql_avg_rowcount''
             [(''host'', host), (''database'', dbname), (''query_sql_text'', mssql_query_sql_text),
              (''query_id'', mssql_query_id)]
             mssql_avg_rowcount,
           metric_set l metrics ''mssql_count_executions''
             [(''host'', host), (''database'', dbname), (''query_sql_text'', mssql_query_sql_text),
              (''query_id'', mssql_query_id)]
             mssql_count_executions]))))"

definition mssql_most_wait_query_collect :: "lib \<Rightarrow> mapfn" where
  "mssql_most_wait_query_collect l rows metrics config host =
     bind_eff (lift (get_prop config ''connect'')) (\<lambda>connect.
     bind_eff (lift (get_prop connect ''options'')) (\<lambda>options.
     bind_eff (lift (get_prop options ''database'')) (\<lambda>dbname.
       for_rows rows (\<lambda>row.
         let mssql_query_sql_text = cell row 0; mssql_query_text_id = cell row 1;
             mssql_sum_total_wait_ms = cell row 2; mssql_query_id = cell row 3 in
         metric_set l metrics ''mssql_sum_total_wait_ms''
           [(''host'', host), (''database'', dbname), (''query_sql_text'', mssql_query_sql_text),
            (''query_text_id'', mssql_query_text_id), (''query_id'', mssql_query_id)]
           mssql_sum_total_wait_ms))))"

subsection \<open>The collectors and the catalogue \<open>getMetrics\<close> returns\<close>

definition mssql_up :: "lib \<Rightarrow> collector" where
  "mssql_up l = \<lparr>c_metrics = mssql_up_metrics, c_query = mssql_up_query, c_collect = mssql_up_collect l\<rparr>"

definition mssql_product_version :: "lib \<Rightarrow> collector" where
  "mssql_product_version l = \<lparr>c_metrics = mssql_product_version_metrics, c_query = mssql_product_version_query, c_collect = mssql_product_version_collect l\<rparr>"

definition mssql_instance_local_time :: "lib \<Rightarrow> collector" where
  "mssql_instance_local_time l = \<lparr>c_metrics = mssql_instance_local_time_metrics, c_query = mssql_instance_local_time_query, c_collect = mssql_instance_local_time_collect l\<rparr>"

definition mssql_connections :: "lib \<Rightarrow> collector" where
  "mssql_connections l = \<lparr>c_metrics = mssql_connections_metrics, c_query = mssql_connections_query, c_collect = mssql_connections_collect l\<rparr>"

definition mssql_client_connections :: "lib \<Rightarrow> collector" where
  "mssql_client_connections l = \<lparr>c_metrics = mssql_client_connections_metrics, c_query = mssql_client_connections_query, c_collect = mssql_client_connections_collect l\<rparr>"

definition mssql_deadlocks :: "lib \<Rightarrow> collector" where
  "mssql_deadlocks l = \<lparr>c_metrics = mssql_deadlocks_metrics, c_query = mssql_deadlocks_query, c_collect = mssql_deadlocks_collect l\<rparr>"

definition mssql_user_errors :: "lib \<Rightarrow> collector" where
  "mssql_user_errors l = \<lparr>c_metrics = mssql_user_errors_metrics, c_query = mssql_user_errors_query, c_collect = mssql_user_errors_collect l\<rparr>"

definition mssql_kill_connection_errors :: "lib \<Rightarrow> collector" where
  "mssql_kill_connection_errors l = \<lparr>c_metrics = mssql_kill_connection_errors_metrics, c_query = mssql_kill_connection_errors_query, c_collect = mssql_kill_connection_errors_collect l\<rparr>"

definition mssql_database_state :: "lib \<Rightarrow> collector" where
  "mssql_database_state l = \<lparr>c_metrics = mssql_database_state_metrics, c_query = mssql_database_state_query, c_collect = mssql_database_state_collect l\<rparr>"

definition mssql_log_growths :: "lib \<Rightarrow> collector" where
  "mssql_log_growths l = \<lparr>c_metrics = mssql_log_growths_metrics, c_query = mssql_log_growths_query, c_collect = mssql_log_growths_collect l\<rparr>"

definition mssql_database_filesize :: "lib \<Rightarrow> collector" where
  "mssql_database_filesize l = \<lparr>c_metrics = mssql_database_filesize_metrics, c_query = mssql_database_filesize_query, c_collect = mssql_database_filesize_collect l\<rparr>"

definition mssql_buffer_manager :: "lib \<Rightarrow> collector" where
  "mssql_buffer_manager l = \<lparr>c_metrics = mssql_buffer_manager_metrics, c_query = mssql_buffer_manager_query, c_collect = mssql_buffer_manager_collect l\<rparr>"

definition mssql_io_stall :: "lib \<Rightarrow> collector" where
  "mssql_io_stall l = \<lparr>c_metrics = mssql_io_stall_metrics, c_query = mssql_io_stall_query, c_collect = mssql_io_stall_collect l\<rparr>"

definition mssql_batch_requests :: "lib \<Rightarrow> collector" where
  "mssql_batch_requests l = \<lparr>c_metrics = mssql_batch_requests_metrics, c_query = mssql_batch_requests_query, c_collect = mssql_batch_requests_collect l\<rparr>"

definition mssql_transactions :: "lib \<Rightarrow> collector" where
  "mssql_transactions l = \<lparr>c_metrics = mssql_transactions_metrics, c_query = mssql_transactions_query, c_collect = mssql_transactions_collect l\<rparr>"

definition mssql_os_process_memory :: "lib \<Rightarrow> collector" where
  "mssql_os_process_memory l = \<lparr>c_metrics = mssql_os_process_memory_metrics, c_query = mssql_os_process_memory_query, c_collect = mssql_os_process_memory_collect l\<rparr>"

definition mssql_os_sys_memory :: "lib \<Rightarrow> collector" where
  "mssql_os_sys_memory l = \<lparr>c_metrics = mssql_os_sys_memory_metrics, c_query = mssql_os_sys_memory_query, c_collect = mssql_os_sys_memory_collect l\<rparr>"

definition mssql_db_memory :: "lib \<Rightarrow> collector" where
  "mssql_db_memory l = \<lparr>c_metrics = mssql_db_memory_metrics, c_query = mssql_db_memory_query, c_collect = mssql_db_memory_collect l\<rparr>"

definition mssql_volume_stats :: "lib \<Rightarrow> collector" where
  "mssql_volume_stats l = \<lparr>c_metrics = mssql_volume_stats_metrics, c_query = mssql_volume_stats_query, c_collect = mssql_volume_stats_collect l\<rparr>"

definition mssql_most_exec_query :: "lib \<Rightarrow> collector" where
  "mssql_most_exec_query l = \<lparr>c_metrics = mssql_most_exec_query_metrics, c_query = mssql_most_exec_query_query, c_collect = mssql_most_exec_query_collect l\<rparr>"

definition mssql_most_avg_time_query :: "lib \<Rightarrow> collector" where
  "mssql_most_avg_time_query l = \<lparr>c_metrics = mssql_most_avg_time_query_metrics, c_query = mssql_most_avg_time_query_query, c_collect = mssql_most_avg_time_query_collect l\<rparr>"

definition mssql_most_avg_io_query :: "lib \<Rightarrow> collector" where
  "mssql_most_avg_io_query l = \<lparr>c_metrics = mssql_most_avg_io_query_metrics, c_query = mssql_most_avg_io_query_query, c_collect = mssql_most_avg_io_query_collect l\<rparr>"

definition mssql_most_wait_query :: "lib \<Rightarrow> collector" where
  "mssql_most_wait_query l = \<lparr>c_metrics = mssql_most_wait_query_metrics, c_query = mssql_most_wait_query_query, c_collect = mssql_most_wait_query_collect l\<rparr>"

text \<open>The object returned by \<open>getMetrics\<close>, as the list of its entries in property order
  (the order \<open>Object.entries\<close> walks). \<open>mssql_most_wait_query\<close> is defined but not returned.\<close>

definition getMetrics :: "lib \<Rightarrow> (string \<times> collector) list" where
  "getMetrics l =
    [(''mssql_up'', mssql_up l),
     (''mssql_product_version'', mssql_product_version l),
     (''mssql_instance_local_time'', mssql_instance_local_time l),
     (''mssql_connections'', mssql_connections l),
     (''mssql_client_connections'', mssql_client_connections l),
     (''mssql_deadlocks'', mssql_deadlocks l),
     (''mssql_user_errors'', mssql_user_errors l),
     (''mssql_kill_connection_errors'', mssql_kill_connection_errors l),
     (''mssql_database_state'', mssql_database_state l),
     (''mssql_log_growths'', mssql_log_growths l),
     (''mssql_database_filesize'', mssql_database_filesize l),
     (''mssql_buffer_manager'', mssql_buffer_manager l),
     (''mssql_io_stall'', mssql_io_stall l),
     (''mssql_batch_requests'', mssql_batch_requests l),
     (''mssql_transactions'', mssql_transactions l),
     (''mssql_os_process_memory'', mssql_os_process_memory l),
     (''mssql_os_sys_memory'', mssql_os_sys_memory l),
     (''mssql_db_memory'', mssql_db_memory l),
     (''mssql_volume_stats'', mssql_volume_stats l),
     (''mssql_most_exec_query'', mssql_most_exec_query l),
     (''mssql_most_avg_io_query'', mssql_most_avg_io_query l),
     (''mssql_most_avg_time_query'', mssql_most_avg_time_query l)]"
section \<open>The orchestrator\<close>

text \<open>
  A target is one parsed connection string; the exporter reads only its \<open>server\<close>. A
  connection pool remembers the configuration it was opened with. The process state a
  scrape touches is the metric space and what was written with \<open>console.error\<close>.
\<close>

record target =
  server :: string

record connection =
  config :: target

datatype logline =
    ErrorProcessing string string rows error
  | NoResults string string
  | ErrorExecuting string string error

record world =
  registry :: metric_space
  console :: "logline list"

subsection \<open>\<open>measure\<close>\<close>

text \<open>\<open>index.js\<close> is present in two revisions; \<open>measure_v2\<close> is \<open>measure\<close> of the later one,
  which runs the collectors of a target concurrently, and \<open>measure_v1\<close> that of the earlier one.\<close>

text \<open>
  \<open>measure\<close> wraps \<open>query(...).then(f).catch(g)\<close> in a promise that settles only through
  \<open>resolve()\<close>. The two callbacks are modelled apart: each returns the error it threw
  (if any), whether it called \<open>resolve\<close>, and the state it left behind. \<open>measure\<close> is given
  the outcome of the query and returns whether its promise resolved.
\<close>

definition measure_then_v2 :: "connection \<Rightarrow> collector \<Rightarrow> string \<Rightarrow> rows \<Rightarrow> world \<Rightarrow> error option \<times> bool \<times> world" where
  "measure_then_v2 connection collector name recordset w =
     (if length recordset > 0 then
        (case c_collect collector recordset (c_metrics collector) (JStr (server (config connection))) JUndefined
                (registry w) of
           (Inr u, reg) \<Rightarrow> (None, True, w\<lparr>registry := reg\<rparr>)
         | (Inl error, reg) \<Rightarrow>
             (None, True,
              w\<lparr>registry := reg,
                console := console w @ [ErrorProcessing name (c_query collector) recordset error]\<rparr>))
      else (None, True, w\<lparr>console := console w @ [NoResults name (c_query collector)]\<rparr>))"

definition measure_catch :: "collector \<Rightarrow> string \<Rightarrow> error \<Rightarrow> world \<Rightarrow> error option \<times> bool \<times> world" where
  "measure_catch collector name error w =
     (None, True, w\<lparr>console := console w @ [ErrorExecuting name (c_query collector) error]\<rparr>)"

text \<open>A rejected query skips \<open>f\<close> and runs \<open>g\<close>; an error thrown by \<open>f\<close> runs \<open>g\<close> too.\<close>

definition settle ::
  "(rows \<Rightarrow> world \<Rightarrow> error option \<times> bool \<times> world) \<Rightarrow> (error \<Rightarrow> world \<Rightarrow> error option \<times> bool \<times> world) \<Rightarrow>
   error + rows \<Rightarrow> world \<Rightarrow> bool \<times> world" where
  "settle f g outcome w =
     (case outcome of
        Inl error \<Rightarrow> (case g error w of (thrown, resolved, w') \<Rightarrow> (resolved, w'))
      | Inr recordset \<Rightarrow>
          (case f recordset w of
             (None, resolved, w') \<Rightarrow> (resolved, w')
           | (Some error, resolved, w') \<Rightarrow>
               (case g error w' of (thrown, resolved', w'') \<Rightarrow> (resolved \<or> resolved', w''))))"

definition measure_v2 :: "connection \<Rightarrow> collector \<Rightarrow> string \<Rightarrow> error + rows \<Rightarrow> world \<Rightarrow> bool \<times> world" where
  "measure_v2 connection collector name outcome w =
     settle (measure_then_v2 connection collector name) (measure_catch collector name) outcome w"

text \<open>
  The earlier, sequential revision of \<open>measure\<close>. Its empty-recordset branch passes the
  variable \<open>error\<close> to \<open>console.error\<close>, and no such variable is in scope there:
  evaluating the argument throws before anything is logged and before \<open>resolve\<close>.
\<close>

definition measure_then_v1 :: "connection \<Rightarrow> collector \<Rightarrow> string \<Rightarrow> rows \<Rightarrow> world \<Rightarrow> error option \<times> bool \<times> world" where
  "measure_then_v1 connection collector name recordset w =
     (if length recordset > 0 then
        (case c_collect collector recordset (c_metrics collector) (JStr (server (config connection))) JUndefined
                (registry w) of
           (Inr u, reg) \<Rightarrow> (None, True, w\<lparr>registry := reg\<rparr>)
         | (Inl error, reg) \<Rightarrow>
             (None, True,
              w\<lparr>registry := reg,
                console := console w @ [ErrorProcessing name (c_query collector) recordset error]\<rparr>))
      else (Some (ReferenceError ''error is not defined''), False, w))"

definition measure_v1 :: "connection \<Rightarrow> collector \<Rightarrow> string \<Rightarrow> error + rows \<Rightarrow> world \<Rightarrow> bool \<times> world" where
  "measure_v1 connection collector name outcome w =
     settle (measure_then_v1 connection collector name) (measure_catch collector name) outcome w"

subsection \<open>The \<open>/metrics\<close> handler\<close>

text \<open>
  What lies outside the process during one scrape: the outcome of \<open>pool.connect()\<close> for
  the i-th configured target (\<open>None\<close> when it succeeds) and the outcome of the query that
  \<open>measure\<close> sends for a named collector on that target's connection. The handler closes
  over the configured targets, the catalogue \<open>entries\<close>, and the metrics library.
\<close>

record scrape =
  library :: lib
  connectStrings :: "target list"
  entries :: "(string \<times> collector) list"
  connect_result :: "nat \<Rightarrow> error option"
  query_result :: "nat \<Rightarrow> string \<Rightarrow> error + rows"
  render :: "metric_space \<Rightarrow> string"

definition connect :: "scrape \<Rightarrow> nat \<Rightarrow> error + connection" where
  "connect sc i =
     (case connect_result sc i of
        Some e \<Rightarrow> Inl e
      | None \<Rightarrow> Inr \<lparr>config = connectStrings sc ! i\<rparr>)"

text \<open>The catch block of the handler:
  \<open>const mssqlUp = entries.mssql_up.metrics.mssql_up; mssqlUp.set({ host: connectionString.server }, 0)\<close>\<close>

definition up_down :: "scrape \<Rightarrow> target \<Rightarrow> unit eff" where
  "up_down sc connectionString =
     (case map_of (entries sc) ''mssql_up'' of
        None \<Rightarrow> throw (TypeError ''Cannot read properties of undefined (reading metrics)'')
      | Some e \<Rightarrow>
          metric_set (library sc) (c_metrics e) ''mssql_up''
            [(''host'', JStr (server connectionString))] (JNum 0))"

text \<open>
  The handler awaits each \<open>connect\<close> inside its loop, and \<open>collect\<close> sends every
  collector's query at once and waits for all of them, so between two awaits the
  runtime may deliver any outstanding result. One scrape is therefore a sequence of
  events, each handled without interruption:
  \<^item> \<open>Connect i\<close>: the loop is at target \<open>i\<close> and its \<open>connect\<close> settles. On success
    \<open>collect\<close> starts one \<open>measure\<close> per catalogue entry, which sends its query, and the
    task is pushed; on failure the catch block runs. The loop moves on, unless the catch
    block itself throws: then the handler has failed and neither connects nor sends again.
  \<^item> \<open>Complete i name\<close>: the query of collector \<open>name\<close> on target \<open>i\<close> settles and the
    callbacks of its \<open>measure\<close> run.
  \<^item> \<open>Close i\<close>: every \<open>measure\<close> of target \<open>i\<close> has resolved, so \<open>Promise.all\<close> in
    \<open>collect\<close> resolves and the \<open>finally\<close> callback closes the connection.
  \<^item> \<open>Send\<close>: the loop has ended and every pushed task has settled; the response is sent.
  An event that cannot happen in the current state has no successor state.
\<close>

datatype event = Connect nat | Complete nat string | Close nat | Send

datatype obs = Attempted nat | Issued nat string | Settled nat string | Closed nat | Sent

record state =
  world :: world
  pc :: nat
  inflight :: "(nat \<times> string) list"
  unresolved :: "(nat \<times> string) list"
  opened :: "nat list"
  failed :: "error option"
  response :: "string option"
  trace :: "obs list"

definition init :: "world \<Rightarrow> state" where
  "init w = \<lparr>world = w, pc = 0, inflight = [], unresolved = [], opened = [],
             failed = None, response = None, trace = []\<rparr>"

text \<open>\<open>collect(connection, entries)\<close> up to its \<open>await\<close>: the queries sent, in catalogue order.\<close>

definition collect :: "nat \<Rightarrow> (string \<times> collector) list \<Rightarrow> (nat \<times> string) list" where
  "collect i es = map (\<lambda>(metricName, metric). (i, metricName)) es"

fun step :: "scrape \<Rightarrow> event \<Rightarrow> state \<Rightarrow> state option" where
  "step sc (Connect i) s =
     (if failed s = None \<and> response s = None \<and> i = pc s \<and> i < length (connectStrings sc) then
        (case connect sc i of
           Inr connection \<Rightarrow>
             Some (s\<lparr>pc := Suc i,
                     inflight := inflight s @ collect i (entries sc),
                     unresolved := unresolved s @ collect i (entries sc),
                     opened := opened s @ [i],
                     trace := trace s @ Attempted i # map (\<lambda>(j, name). Issued j name) (collect i (entries sc))\<rparr>)
         | Inl error \<Rightarrow>
             (case up_down sc (connectStrings sc ! i) (registry (world s)) of
                (Inr u, reg) \<Rightarrow>
                  Some (s\<lparr>world := (world s)\<lparr>registry := reg\<rparr>, pc := Suc i,
                          trace := trace s @ [Attempted i]\<rparr>)
              | (Inl thrown, reg) \<Rightarrow>
                  Some (s\<lparr>world := (world s)\<lparr>registry := reg\<rparr>, pc := Suc i, failed := Some thrown,
                          trace := trace s @ [Attempted i]\<rparr>)))
      else None)"
| "step sc (Complete i name) s =
     (if (i, name) \<in> set (inflight s) then
        (case map_of (entries sc) name of
           None \<Rightarrow> None
         | Some collector \<Rightarrow>
             (case measure_v2 \<lparr>config = connectStrings sc ! i\<rparr> collector name (query_result sc i name) (world s) of
                (resolved, w) \<Rightarrow>
                  Some (s\<lparr>world := w,
                          inflight := remove1 (i, name) (inflight s),
                          unresolved := (if resolved then remove1 (i, name) (unresolved s) else unresolved s),
                          trace := trace s @ [Settled i name]\<rparr>)))
      else None)"
| "step sc (Close i) s =
     (if i \<in> set (opened s) \<and> list_all (\<lambda>(j, name). j \<noteq> i) (unresolved s) then
        Some (s\<lparr>opened := remove1 i (opened s), trace := trace s @ [Closed i]\<rparr>)
      else None)"
| "step sc Send s =
     (if failed s = None \<and> response s = None \<and> pc s = length (connectStrings sc) \<and> opened s = [] then
        Some (s\<lparr>response := Some (render sc (registry (world s))), trace := trace s @ [Sent]\<rparr>)
      else None)"

fun exec :: "scrape \<Rightarrow> event list \<Rightarrow> state \<Rightarrow> state option" where
  "exec sc [] s = Some s"
| "exec sc (e # es) s = (case step sc e s of None \<Rightarrow> None | Some s' \<Rightarrow> exec sc es s')"

definition run :: "scrape \<Rightarrow> event list \<Rightarrow> world \<Rightarrow> state option" where
  "run sc es w = exec sc es (init w)"

text \<open>The exporter itself: the handler closed over the catalogue of \<open>getMetrics\<close>.\<close>

definition exporter ::
  "lib \<Rightarrow> target list \<Rightarrow> (nat \<Rightarrow> error option) \<Rightarrow> (nat \<Rightarrow> string \<Rightarrow> error + rows) \<Rightarrow> (metric_space \<Rightarrow> string) \<Rightarrow> scrape" where
  "exporter l ts cr qr rd =
     \<lparr>library = l, connectStrings = ts, entries = getMetrics l,
      connect_result = cr, query_result = qr, render = rd\<rparr>"

text \<open>One order of events that is always possible: every result is delivered as soon
  as its query was sent, in catalogue order, and the connection is closed at once.\<close>

definition in_order :: "scrape \<Rightarrow> event list" where
  "in_order sc =
     concat (map (\<lambda>i. Connect i #
                       (case connect_result sc i of
                          Some e \<Rightarrow> []
                        | None \<Rightarrow> map (\<lambda>(j, name). Complete j name) (collect i (entries sc)) @ [Close i]))
                 [0 ..< length (connectStrings sc)]) @ [Send]"

section \<open>Concrete inputs\<close>

text \<open>
  An instance of the library parameters, used where a statement is evaluated on concrete
  data: numbers print in decimal, digit strings convert to numbers, \<open>Gauge.set\<close> takes
  numeric strings (as the end-to-end test, which reads back \<open>mssql_product_version\<close>,
  expects) and the version parser returns the first two dot-separated fields.
\<close>

definition digit_char :: "nat \<Rightarrow> char" where
  "digit_char n = ''0123456789'' ! (n mod 10)"

function show_nat :: "nat \<Rightarrow> string" where
  "show_nat n = (if n < 10 then [digit_char n] else show_nat (n div 10) @ [digit_char n])"
  by pat_completeness auto
termination
  by (relation "measure id") auto

definition digit_val :: "char \<Rightarrow> nat" where
  "digit_val c = length (takeWhile (\<lambda>d. d \<noteq> c) ''0123456789'')"

definition is_digit :: "char \<Rightarrow> bool" where
  "is_digit c = (c \<in> set ''0123456789'')"

definition read_nat :: "string \<Rightarrow> nat" where
  "read_nat s = foldl (\<lambda>n c. 10 * n + digit_val c) 0 s"

definition numeric_string :: "string \<Rightarrow> bool" where
  "numeric_string s = (s \<noteq> [] \<and> is_digit (hd s) \<and> list_all (\<lambda>c. is_digit c \<or> c = CHR ''.'') s)"

definition version_fields :: "jsval \<Rightarrow> error + jsval" where
  "version_fields v =
     (case v of
        JStr s \<Rightarrow>
          (let major = takeWhile is_digit s;
               minor = takeWhile is_digit (drop (Suc (length major)) s)
           in Inr (JObj [(''major'', JNum (real (read_nat major))), (''minor'', JNum (real (read_nat minor)))]))
      | _ \<Rightarrow> Inl (TypeError ''version.split is not a function''))"

definition sample_lib :: lib where
  "sample_lib =
     \<lparr>productVersionParse = version_fields,
      number_to_string = (\<lambda>r. show_nat (nat \<lfloor>r\<rfloor>)),
      string_to_number = (\<lambda>s. if s \<noteq> [] \<and> list_all is_digit s then JNum (real (read_nat s)) else JNaN),
      accepts_string = numeric_string,
      accepts_nan = False\<rparr>"

text \<open>A renderer that lists the gauge name and the value of each sample.\<close>

definition sample_render :: "metric_space \<Rightarrow> string" where
  "sample_render m = concat (map (\<lambda>e. fst (fst e) @ '' '' @ to_string sample_lib (snd e) @ ''; '') m)"

definition target_a :: target where
  "target_a = \<lparr>server = ''a''\<rparr>"

definition target_b :: target where
  "target_b = \<lparr>server = ''b''\<rparr>"

definition empty_world :: world where
  "empty_world = \<lparr>registry = [], console = []\<rparr>"

text \<open>A state in which target 0 is connected and two of its queries are outstanding.\<close>

definition pending_state :: state where
  "pending_state =
     \<lparr>world = empty_world, pc = 1,
      inflight = [(0, ''mssql_up''), (0, ''mssql_most_exec_query'')],
      unresolved = [(0, ''mssql_up''), (0, ''mssql_most_exec_query'')],
      opened = [0], failed = None, response = None,
      trace = [Attempted 0, Issued 0 ''mssql_up'', Issued 0 ''mssql_most_exec_query'']\<rparr>"

text \<open>A scrape of one reachable target with a catalogue of two collectors: the query of
  the first fails, the second returns one row.\<close>

definition two_collectors :: scrape where
  "two_collectors =
     \<lparr>library = sample_lib, connectStrings = [target_a],
      entries = [(''mssql_up'', mssql_up sample_lib), (''mssql_buffer_manager'', mssql_buffer_manager sample_lib)],
      connect_result = (\<lambda>i. None),
      query_result = (\<lambda>i name. if name = ''mssql_up'' then Inl (QueryError ''timeout'')
                                 else Inr [[JNum 5, JNum 6, JNum 7, JNum 8, JNum 9]]),
      render = sample_render\<rparr>"

definition two_collectors_connected :: state where
  "two_collectors_connected =
     \<lparr>world = empty_world, pc = 1,
      inflight = [(0, ''mssql_up''), (0, ''mssql_buffer_manager'')],
      unresolved = [(0, ''mssql_up''), (0, ''mssql_buffer_manager'')],
      opened = [0], failed = None, response = None,
      trace = [Attempted 0, Issued 0 ''mssql_up'', Issued 0 ''mssql_buffer_manager'']\<rparr>"

text \<open>Scrapes of the exporter itself. \<open>sample_results\<close> answers \<open>SELECT 1\<close> with 1, the version query with a version
  text, and every other query with one row whose first cell depends on the target; in
  \<open>failing_results\<close> every query fails after the connection was opened.\<close>

definition sample_results :: "nat \<Rightarrow> string \<Rightarrow> error + rows" where
  "sample_results i name =
     (if name = ''mssql_up'' then Inr [[JNum 1]]
      else if name = ''mssql_product_version'' then Inr [[JStr ''15.0.2000.5'']]
      else Inr [[JNum (100 + real i), JNum 1, JNum 2, JNum 3, JNum 4, JNum 5, JNum 6, JNum 7]])"

definition failing_results :: "nat \<Rightarrow> string \<Rightarrow> error + rows" where
  "failing_results i name = Inl (QueryError ''connection lost'')"

definition one_up :: scrape where
  "one_up = exporter sample_lib [target_a] (\<lambda>i. None) failing_results sample_render"

definition one_down :: scrape where
  "one_down = exporter sample_lib [target_a] (\<lambda>i. Some (ConnectError ''refused'')) sample_results sample_render"

definition two_targets :: scrape where
  "two_targets = exporter sample_lib [target_a, target_b] (\<lambda>i. None) sample_results sample_render"

text \<open>A quiet server: \<open>SELECT 1\<close> is answered with 1, the deadlock counter with a number
  that depends on the target, and every other query returns no rows. \<open>one_quiet\<close> scrapes
  one such target, \<open>same_host\<close> two that are configured with the same host name (two
  instances on one machine).\<close>

definition quiet_results :: "nat \<Rightarrow> string \<Rightarrow> error + rows" where
  "quiet_results i name =
     (if name = ''mssql_up'' then Inr [[JNum 1]]
      else if name = ''mssql_deadlocks'' then Inr [[JNum (100 + real i)]]
      else Inr [])"

definition one_quiet :: scrape where
  "one_quiet = exporter sample_lib [target_a] (\<lambda>i. None) quiet_results sample_render"

definition same_host :: scrape where
  "same_host = exporter sample_lib [target_a, target_a] (\<lambda>i. None) quiet_results sample_render"

text \<open>The state in which the scrape of the one unreachable target ends.\<close>

definition one_down_final :: state where
  "one_down_final =
     \<lparr>world = \<lparr>registry = [((''mssql_up'', [(''host'', JStr ''a'')]), JNum 0)], console = []\<rparr>,
      pc = 1, inflight = [], unresolved = [], opened = [], failed = None,
      response = Some ''mssql_up 0; '', trace = [Attempted 0, Sent]\<rparr>"

text \<open>The state in which the scrape with two collectors ends when the result of the
  second collector is delivered first.\<close>

definition two_collectors_final :: state where
  "two_collectors_final =
     \<lparr>world =
        \<lparr>registry =
           [((''mssql_page_read_total'', [(''host'', JStr ''a'')]), JNum 5),
            ((''mssql_page_write_total'', [(''host'', JStr ''a'')]), JNum 6),
            ((''mssql_page_life_expectancy'', [(''host'', JStr ''a'')]), JNum 7),
            ((''mssql_page_checkpoint_total'', [(''host'', JStr ''a'')]), JNum 9),
            ((''mssql_lazy_write_total'', [(''host'', JStr ''a'')]), JNum 8)],
         console = [ErrorExecuting ''mssql_up'' mssql_up_query (QueryError ''timeout'')]\<rparr>,
      pc = 1, inflight = [], unresolved = [], opened = [], failed = None,
      response = Some (''mssql_page_read_total 5; mssql_page_write_total 6; mssql_page_life_expectancy 7; '' @
                       ''mssql_page_checkpoint_total 9; mssql_lazy_write_total 8; ''),
      trace = [Attempted 0, Issued 0 ''mssql_up'', Issued 0 ''mssql_buffer_manager'',
               Settled 0 ''mssql_buffer_manager'', Settled 0 ''mssql_up'', Closed 0, Sent]\<rparr>"

text \<open>One reachable target, every query answered.\<close>

definition one_target :: scrape where
  "one_target = exporter sample_lib [target_a] (\<lambda>i. None) sample_results sample_render"

text \<open>Two targets of which the first refuses the connection: on different hosts, and
  on the same host. \<open>stale_world\<close> is a metric space with samples of an earlier scrape
  for host \<open>a\<close>.\<close>

definition refused_first :: "nat \<Rightarrow> error option" where
  "refused_first i = (if i = 0 then Some (ConnectError ''refused'') else None)"

definition down_then_up :: scrape where
  "down_then_up = exporter sample_lib [target_a, target_b] refused_first quiet_results sample_render"

definition down_then_up_same_host :: scrape where
  "down_then_up_same_host = exporter sample_lib [target_a, target_a] refused_first quiet_results sample_render"

definition stale_world :: world where
  "stale_world =
     \<lparr>registry = [((''mssql_up'', [(''host'', JStr ''a'')]), JNum 1),
                  ((''mssql_deadlocks'', [(''host'', JStr ''a'')]), JNum 7)],
      console = []\<rparr>"

text \<open>A schedule for two targets in which the deadlock counter of the first target is
  the last result to be delivered.\<close>

definition first_deadlocks_last :: "scrape \<Rightarrow> event list" where
  "first_deadlocks_last sc =
     Connect 0 # map (\<lambda>(j, name). Complete j name) (remove1 (0, ''mssql_deadlocks'') (collect 0 (entries sc)))
     @ Connect 1 # map (\<lambda>(j, name). Complete j name) (collect 1 (entries sc))
     @ [Close 1, Complete 0 ''mssql_deadlocks'', Close 0, Send]"

section \<open>Notions used in the statements\<close>

text \<open>
  A mapping function never reads the metric space: what it does is a fixed sequence of
  writes, then a return or a throw. \<open>scripted m ws res\<close> says that \<open>m\<close> performs exactly
  the writes \<open>ws\<close>, in order, with result \<open>res\<close>; \<open>confined P m\<close> that it is scripted with
  writes that all satisfy \<open>P\<close>.
\<close>

type_synonym gwrite = "(string \<times> labels) \<times> jsval"

definition apply_writes :: "gwrite list \<Rightarrow> metric_space \<Rightarrow> metric_space" where
  "apply_writes ws r = foldl (\<lambda>r' w. AList.update (fst w) (snd w) r') r ws"

definition scripted :: "'a eff \<Rightarrow> gwrite list \<Rightarrow> error + 'a \<Rightarrow> bool" where
  "scripted m ws res = (\<forall>r. m r = (res, apply_writes ws r))"

definition confined :: "(gwrite \<Rightarrow> bool) \<Rightarrow> 'a eff \<Rightarrow> bool" where
  "confined P m = (\<exists>ws res. scripted m ws res \<and> list_all P ws)"

definition gauge_names :: "(string \<times> gauge) list \<Rightarrow> string list" where
  "gauge_names ms = map (\<lambda>p. gname (snd p)) ms"

text \<open>A write to one of the given gauges, labelled with the given host.\<close>

definition host_write :: "(string \<times> gauge) list \<Rightarrow> jsval \<Rightarrow> gwrite \<Rightarrow> bool" where
  "host_write ms host w = (fst (fst w) \<in> set (gauge_names ms) \<and> map_of (snd (fst w)) ''host'' = Some host)"


text \<open>The names of the catalogue, and what one target-collector pair does to the metric
  space in a scrape: the mapping function on the rows its query returned when the
  target connected (nothing when the query failed or returned no rows), and the catch
  block of the handler, which writes to the availability gauge, when it did not.\<close>

definition names :: "scrape \<Rightarrow> string list" where
  "names sc = map fst (entries sc)"

definition mapping :: "scrape \<Rightarrow> nat \<Rightarrow> string \<Rightarrow> unit eff" where
  "mapping sc i name =
     (case map_of (entries sc) name of
        None \<Rightarrow> return_eff ()
      | Some c \<Rightarrow>
          (case query_result sc i name of
             Inl e \<Rightarrow> return_eff ()
           | Inr [] \<Rightarrow> return_eff ()
           | Inr (r # rs) \<Rightarrow>
               c_collect c (r # rs) (c_metrics c) (JStr (server (connectStrings sc ! i))) JUndefined))"

definition slot_action :: "scrape \<Rightarrow> nat \<Rightarrow> string \<Rightarrow> unit eff" where
  "slot_action sc i name =
     (if connect_result sc i = None then mapping sc i name
      else if name = ''mssql_up'' then up_down sc (connectStrings sc ! i)
      else return_eff ())"

definition contrib :: "scrape \<Rightarrow> nat \<Rightarrow> string \<Rightarrow> (string \<times> labels) \<Rightarrow> jsval option" where
  "contrib sc i name = map_of (snd (slot_action sc i name []))"

text \<open>The pair's writes go to the gauges of its collector, labelled with its target's host.\<close>

definition slot_write :: "scrape \<Rightarrow> nat \<Rightarrow> string \<Rightarrow> gwrite \<Rightarrow> bool" where
  "slot_write sc i name w =
     (case map_of (entries sc) name of
        None \<Rightarrow> False
      | Some c \<Rightarrow> host_write (c_metrics c) (JStr (server (connectStrings sc ! i))) w)"

definition catalogue_ok :: "(string \<times> collector) list \<Rightarrow> bool" where
  "catalogue_ok es =
     (\<forall>p \<in> set es. \<forall>rs h. confined (host_write (c_metrics (snd p)) (JStr h))
                                   (c_collect (snd p) rs (c_metrics (snd p)) (JStr h) JUndefined))"

text \<open>Order in a trace: \<open>y\<close> is recorded, and \<open>x\<close> is recorded before the first \<open>y\<close>.\<close>

definition before :: "obs \<Rightarrow> obs \<Rightarrow> obs list \<Rightarrow> bool" where
  "before x y tr = (y \<in> set tr \<and> x \<in> set (takeWhile (\<lambda>z. z \<noteq> y) tr))"

fun attempts :: "obs list \<Rightarrow> nat list" where
  "attempts [] = []"
| "attempts (Attempted i # tr) = i # attempts tr"
| "attempts (x # tr) = attempts tr"

text \<open>Invariants of the states a scrape reaches.\<close>

definition inv :: "scrape \<Rightarrow> state \<Rightarrow> bool" where
  "inv sc s =
     (pc s \<le> length (connectStrings sc)
      \<and> unresolved s = inflight s
      \<and> (\<forall>i name. (i, name) \<in> set (inflight s) \<longrightarrow>
             i < pc s \<and> connect_result sc i = None \<and> i \<in> set (opened s) \<and> name \<in> set (names sc))
      \<and> (\<forall>i. i \<in> set (opened s) \<longrightarrow> i < pc s \<and> connect_result sc i = None)
      \<and> distinct (opened s)
      \<and> (response s \<noteq> None \<longrightarrow>
            pc s = length (connectStrings sc) \<and> opened s = [] \<and> failed s = None
            \<and> response s = Some (render sc (registry (world s)))))"





text \<open>Which collector each gauge of a catalogue belongs to.\<close>

definition gauge_owners :: "(string \<times> collector) list \<Rightarrow> (string \<times> string) list" where
  "gauge_owners es = concat (map (\<lambda>p. map (\<lambda>g. (g, fst p)) (gauge_names (c_metrics (snd p)))) es)"

text \<open>The sample of the availability gauge for a target.\<close>

definition up_key :: "target \<Rightarrow> string \<times> labels" where
  "up_key t = (''mssql_up'', [(''host'', JStr (server t))])"

text \<open>What the trace of a reachable state records, and in which order.\<close>

definition trace_members :: "scrape \<Rightarrow> state \<Rightarrow> bool" where
  "trace_members sc s =
     ((\<forall>i name. Issued i name \<in> set (trace s) \<longleftrightarrow>
                  i < pc s \<and> connect_result sc i = None \<and> name \<in> set (names sc))
      \<and> (\<forall>i name. Settled i name \<in> set (trace s) \<longrightarrow>
                  i < pc s \<and> connect_result sc i = None \<and> name \<in> set (names sc))
      \<and> (\<forall>i name. i < pc s \<and> connect_result sc i = None \<and> name \<in> set (names sc)
                  \<and> (i, name) \<notin> set (inflight s) \<longrightarrow> Settled i name \<in> set (trace s))
      \<and> (\<forall>i. Closed i \<in> set (trace s) \<longleftrightarrow> i < pc s \<and> connect_result sc i = None \<and> i \<notin> set (opened s))
      \<and> (\<forall>i. count_list (trace s) (Closed i) \<le> 1)
      \<and> attempts (trace s) = [0 ..< pc s])"

definition trace_order :: "scrape \<Rightarrow> state \<Rightarrow> bool" where
  "trace_order sc s =
     ((\<forall>i name name'. Settled i name' \<in> set (trace s) \<and> name \<in> set (names sc) \<longrightarrow>
                  before (Issued i name) (Settled i name') (trace s))
      \<and> (\<forall>i name. Closed i \<in> set (trace s) \<and> name \<in> set (names sc) \<longrightarrow>
                  before (Settled i name) (Closed i) (trace s))
      \<and> (\<forall>i name. \<not> before (Closed i) (Settled i name) (trace s)))"

text \<open>A way to finish a scrape from any state: deliver what is outstanding, close what
  is open, then take the remaining targets one after the other, and send.\<close>

definition target_block :: "scrape \<Rightarrow> nat \<Rightarrow> event list" where
  "target_block sc i =
     Connect i #
       (case connect_result sc i of
          Some e \<Rightarrow> []
        | None \<Rightarrow> map (\<lambda>(j, name). Complete j name) (collect i (entries sc)) @ [Close i])"

definition remaining :: "scrape \<Rightarrow> nat \<Rightarrow> event list" where
  "remaining sc p = concat (map (target_block sc) [p ..< length (connectStrings sc)])"

definition finish :: "scrape \<Rightarrow> state \<Rightarrow> event list" where
  "finish sc s =
     (if response s \<noteq> None then []
      else map (\<lambda>(j, name). Complete j name) (inflight s) @ map Close (opened s)
             @ remaining sc (pc s) @ [Send])"

section \<open>Basic facts\<close>

lemma bind_eff_throw [simp]: "bind_eff (throw e) f = throw e"
  by (simp add: bind_eff_def throw_def)

lemma bind_eff_return [simp]: "bind_eff (return_eff x) f = f x"
  by (simp add: bind_eff_def return_eff_def)

lemma lift_Inl [simp]: "lift (Inl e) = throw e"
  by (simp add: lift_def)

lemma lift_Inr [simp]: "lift (Inr x) = return_eff x"
  by (simp add: lift_def)

lemma throw_apply: "throw e r = (Inl e, r)"
  by (simp add: throw_def)

lemma return_eff_apply: "return_eff x r = (Inr x, r)"
  by (simp add: return_eff_def)

lemma cell_at_first [simp]: "cell_at (r # rs) 0 j = return_eff (cell r j)"
  by (simp add: cell_at_def)

lemma measure_catch_result:
  "measure_catch c name e w = (None, True, w\<lparr>console := console w @ [ErrorExecuting name (c_query c) e]\<rparr>)"
  by (simp add: measure_catch_def)

lemma measure_v2_resolves: "fst (measure_v2 connection c name outcome w) = True"
  by (cases outcome)
     (auto simp: measure_v2_def settle_def measure_catch_def measure_then_v2_def split: prod.splits sum.splits)

lemma measure_v2_rejected:
  "measure_v2 connection c name (Inl e) w =
     (True, w\<lparr>console := console w @ [ErrorExecuting name (c_query c) e]\<rparr>)"
  by (simp add: measure_v2_def settle_def measure_catch_def)

lemma measure_v2_no_rows:
  "measure_v2 connection c name (Inr []) w =
     (True, w\<lparr>console := console w @ [NoResults name (c_query c)]\<rparr>)"
  by (simp add: measure_v2_def settle_def measure_then_v2_def)

lemma measure_v2_rows:
  "measure_v2 connection c name (Inr (r # rs)) w =
     (case c_collect c (r # rs) (c_metrics c) (JStr (server (config connection))) JUndefined (registry w) of
        (Inr u, reg) \<Rightarrow> (True, w\<lparr>registry := reg\<rparr>)
      | (Inl e, reg) \<Rightarrow>
          (True, w\<lparr>registry := reg,
                   console := console w @ [ErrorProcessing name (c_query c) (r # rs) e]\<rparr>))"
  by (simp add: measure_v2_def settle_def measure_then_v2_def split: prod.splits sum.splits)

section \<open>Effects as sequences of writes\<close>

lemma apply_writes_Nil [simp]: "apply_writes [] r = r"
  by (simp add: apply_writes_def)

lemma apply_writes_Cons [simp]: "apply_writes (w # ws) r = apply_writes ws (AList.update (fst w) (snd w) r)"
  by (simp add: apply_writes_def)

lemma apply_writes_append [simp]: "apply_writes (ws @ ws') r = apply_writes ws' (apply_writes ws r)"
  by (simp add: apply_writes_def)

lemma map_of_apply_writes:
  "map_of (apply_writes ws r) k = (case map_of (rev ws) k of Some v \<Rightarrow> Some v | None \<Rightarrow> map_of r k)"
proof (induction ws arbitrary: r)
  case Nil
  then show ?case by simp
next
  case (Cons w ws)
  obtain k' v' where w: "w = (k', v')" by (cases w)
  show ?case
    by (simp add: Cons.IH w AList.update_conv' map_add_def split: option.splits)
qed

lemma keys_apply_writes_present:
  "fst ` set ws \<subseteq> fst ` set r \<Longrightarrow> map fst (apply_writes ws r) = map fst r"
proof (induction ws arbitrary: r)
  case Nil
  then show ?case by simp
next
  case (Cons w ws)
  have "fst w \<in> fst ` set r" using Cons.prems by simp
  then have k: "map fst (AList.update (fst w) (snd w) r) = map fst r"
    by (simp add: AList.update_keys)
  then have "fst ` set (AList.update (fst w) (snd w) r) = fst ` set r"
    by (metis list.set_map)
  then show ?case using Cons k by simp
qed

lemma update_commute_present:
  "k \<in> fst ` set r \<Longrightarrow> k \<noteq> k' \<Longrightarrow>
   AList.update k' v' (AList.update k v r) = AList.update k v (AList.update k' v' r)"
  by (induction r) auto

lemma apply_writes_absorb:
  "k \<in> fst ` set ws \<Longrightarrow> k \<in> fst ` set r \<Longrightarrow> apply_writes ws (AList.update k v r) = apply_writes ws r"
proof (induction ws arbitrary: r)
  case Nil
  then show ?case by simp
next
  case (Cons w ws)
  show ?case
  proof (cases "fst w = k")
    case True
    then show ?thesis by simp
  next
    case False
    then have in_ws: "k \<in> fst ` set ws" using Cons.prems(1) by auto
    have in_r: "k \<in> fst ` set (AList.update (fst w) (snd w) r)"
      using Cons.prems(2) by (simp add: AList.dom_update)
    have "AList.update (fst w) (snd w) (AList.update k v r) = AList.update k v (AList.update (fst w) (snd w) r)"
      using update_commute_present [OF Cons.prems(2), of "fst w"] False by auto
    then show ?thesis using Cons.IH [OF in_ws in_r] by simp
  qed
qed

lemma apply_writes_stable:
  "(\<And>k v. map_of (rev ws) k = Some v \<Longrightarrow> map_of r k = Some v) \<Longrightarrow> apply_writes ws r = r"
proof (induction ws arbitrary: r)
  case Nil
  then show ?case by simp
next
  case (Cons w ws)
  have prem_ws: "\<And>k v. map_of (rev ws) k = Some v \<Longrightarrow> map_of r k = Some v"
    using Cons.prems by (simp add: map_add_Some_iff)
  show ?case
  proof (cases "fst w \<in> fst ` set ws")
    case True
    then obtain v where "map_of (rev ws) (fst w) = Some v"
      by (metis (no_types, lifting) domD dom_map_of_conv_image_fst set_rev)
    then have "map_of r (fst w) = Some v" using prem_ws by simp
    then have "fst w \<in> fst ` set r"
      by (metis domI dom_map_of_conv_image_fst)
    then have "apply_writes ws (AList.update (fst w) (snd w) r) = apply_writes ws r"
      using apply_writes_absorb True by metis
    then show ?thesis using Cons.IH [of r] prem_ws by simp
  next
    case False
    then have "map_of (rev ws) (fst w) = None"
      by (metis dom_map_of_conv_image_fst domIff set_rev)
    then have "map_of (rev (w # ws)) (fst w) = Some (snd w)"
      by (simp add: map_add_def)
    then have "map_of r (fst w) = Some (snd w)" using Cons.prems by blast
    then have "AList.update (fst w) (snd w) r = r" by (rule AList.update_triv)
    then show ?thesis using Cons.IH [of r] prem_ws by simp
  qed
qed

lemma scriptedI: "(\<And>r. m r = (res, apply_writes ws r)) \<Longrightarrow> scripted m ws res"
  by (simp add: scripted_def)

lemma scriptedD: "scripted m ws res \<Longrightarrow> m r = (res, apply_writes ws r)"
  by (simp add: scripted_def)

lemma confinedI: "scripted m ws res \<Longrightarrow> list_all P ws \<Longrightarrow> confined P m"
  by (auto simp: confined_def)

lemma confined_return [intro!, simp]: "confined P (return_eff x)"
  by (rule confinedI [of _ "[]" "Inr x"]) (simp_all add: scripted_def return_eff_def)

lemma confined_throw [intro!, simp]: "confined P (throw e)"
  by (rule confinedI [of _ "[]" "Inl e"]) (simp_all add: scripted_def throw_def)

lemma confined_lift [intro!, simp]: "confined P (lift x)"
  by (cases x) simp_all

lemma confined_cell_at [intro!, simp]: "confined P (cell_at rs i j)"
  by (simp add: cell_at_def)

lemma confined_bind [intro!]:
  assumes "confined P m" and "\<And>x. fst (m []) = Inr x \<Longrightarrow> confined P (f x)"
  shows "confined P (bind_eff m f)"
proof -
  obtain ws res where m: "scripted m ws res" "list_all P ws"
    using assms(1) by (auto simp: confined_def)
  show ?thesis
  proof (cases res)
    case (Inl e)
    then have "scripted (bind_eff m f) ws (Inl e)"
      using m(1) by (simp add: scripted_def bind_eff_def)
    then show ?thesis using m(2) by (rule confinedI)
  next
    case (Inr x)
    then have "fst (m []) = Inr x"
      using scriptedD [OF m(1), of "[]"] by simp
    then obtain ws' res' where f: "scripted (f x) ws' res'" "list_all P ws'"
      using assms(2) [of x] by (auto simp: confined_def)
    have "scripted (bind_eff m f) (ws @ ws') res'"
      using m(1) f(1) Inr by (simp add: scripted_def bind_eff_def)
    then show ?thesis using m(2) f(2) by (auto intro: confinedI)
  qed
qed

lemma cell_at_result [simp]:
  "fst (cell_at rs i j r) = Inr x \<longleftrightarrow> i < length rs \<and> x = cell (rs ! i) j"
  by (auto simp: cell_at_def return_eff_def throw_def)

lemma lift_result [simp]: "fst (lift y r) = Inr x \<longleftrightarrow> y = Inr x"
  by (cases y) (auto simp: return_eff_def throw_def)

lemma confined_block [intro!]:
  "(\<And>m. m \<in> set ms \<Longrightarrow> confined P m) \<Longrightarrow> confined P (block ms)"
  by (induction ms) auto

lemma confined_for_rows [intro!]:
  "(\<And>row. row \<in> set rs \<Longrightarrow> confined P (body row)) \<Longrightarrow> confined P (for_rows rs body)"
  unfolding for_rows_def by (rule confined_block) auto

lemma confined_gauge_set:
  assumes "valid_value l v \<Longrightarrow> valid_labels g ls \<Longrightarrow> P ((gname g, ls), v)"
  shows "confined P (gauge_set l g ls v)"
proof (cases "valid_value l v \<and> valid_labels g ls")
  case True
  then have "scripted (gauge_set l g ls v) [((gname g, ls), v)] (Inr ())"
    by (simp add: scripted_def gauge_set_def)
  then show ?thesis using assms True by (auto intro: confinedI)
next
  case False
  then show ?thesis by (auto simp: gauge_set_def)
qed

lemma confined_metric_set [intro!]:
  assumes "\<And>g. map_of metrics key = Some g \<Longrightarrow> valid_value l v \<Longrightarrow> P ((gname g, ls), v)"
  shows "confined P (metric_set l metrics key ls v)"
  using assms by (auto simp: metric_set_def intro: confined_gauge_set split: option.splits)


text \<open>What confinement says about the metric space after the effect.\<close>

lemma confined_result_fixed: "confined P m \<Longrightarrow> fst (m r) = fst (m r')"
  by (auto simp: confined_def scripted_def)

lemma confined_provenance:
  assumes "confined P m" and "map_of (snd (m r)) k = Some v"
  shows "map_of r k = Some v \<or> P (k, v)"
proof -
  obtain ws res where m: "scripted m ws res" "list_all P ws"
    using assms(1) by (auto simp: confined_def)
  have "map_of (apply_writes ws r) k = Some v"
    using assms(2) scriptedD [OF m(1), of r] by simp
  then have "map_of r k = Some v \<or> map_of (rev ws) k = Some v"
    by (auto simp: map_of_apply_writes split: option.splits)
  moreover have "map_of (rev ws) k = Some v \<Longrightarrow> (k, v) \<in> set ws"
    by (metis map_of_SomeD set_rev)
  ultimately show ?thesis using m(2) by (auto simp: list_all_iff)
qed

lemma confined_frame:
  assumes "confined P m" and "\<And>v. \<not> P (k, v)"
  shows "map_of (snd (m r)) k = map_of r k"
proof (cases "map_of (snd (m r)) k")
  case None
  obtain ws res where m: "scripted m ws res"
    using assms(1) by (auto simp: confined_def)
  have "map_of (apply_writes ws r) k = None"
    using None scriptedD [OF m, of r] by simp
  then show ?thesis using None
    by (auto simp: map_of_apply_writes split: option.splits)
next
  case (Some v)
  then show ?thesis using confined_provenance [OF assms(1) Some] assms(2) by auto
qed

lemma confined_overwrite:
  assumes "confined P m"
  shows "map_of (snd (m r)) k = (case map_of (snd (m [])) k of Some v \<Rightarrow> Some v | None \<Rightarrow> map_of r k)"
proof -
  obtain ws res where m: "scripted m ws res"
    using assms(1) by (auto simp: confined_def)
  show ?thesis
    using scriptedD [OF m, of r] scriptedD [OF m, of "[]"]
    by (simp add: map_of_apply_writes split: option.splits)
qed

lemma confined_stable:
  assumes "confined P m" and "\<And>k v. map_of (snd (m [])) k = Some v \<Longrightarrow> map_of r k = Some v"
  shows "snd (m r) = r"
proof -
  obtain ws res where m: "scripted m ws res"
    using assms(1) by (auto simp: confined_def)
  have e: "map_of (snd (m [])) k = map_of (rev ws) k" for k
    using scriptedD [OF m, of "[]"] by (simp add: map_of_apply_writes split: option.splits)
  have "apply_writes ws r = r"
    by (rule apply_writes_stable) (use assms(2) e in auto)
  then show ?thesis using scriptedD [OF m, of r] by simp
qed

section \<open>What each mapping function writes\<close>

lemma map_of_gauge_names: "map_of ms key = Some g \<Longrightarrow> gname g \<in> set (gauge_names ms)"
  by (force simp: gauge_names_def dest: map_of_SomeD)



text \<open>Every write carries the host it was given and goes to a gauge of the collector.\<close>

lemma mssql_up_host:
  "confined (host_write metrics host) (mssql_up_collect l rows metrics host u)"
  unfolding mssql_up_collect_def Let_def
  by (auto simp: host_write_def dest: map_of_gauge_names)

lemma mssql_instance_local_time_host:
  "confined (host_write metrics host) (mssql_instance_local_time_collect l rows metrics host u)"
  unfolding mssql_instance_local_time_collect_def Let_def
  by (auto simp: host_write_def dest: map_of_gauge_names)

lemma mssql_deadlocks_host:
  "confined (host_write metrics host) (mssql_deadlocks_collect l rows metrics host u)"
  unfolding mssql_deadlocks_collect_def Let_def
  by (auto simp: host_write_def dest: map_of_gauge_names)

lemma mssql_user_errors_host:
  "confined (host_write metrics host) (mssql_user_errors_collect l rows metrics host u)"
  unfolding mssql_user_errors_collect_def Let_def
  by (auto simp: host_write_def dest: map_of_gauge_names)

lemma mssql_kill_connection_errors_host:
  "confined (host_write metrics host) (mssql_kill_connection_errors_collect l rows metrics host u)"
  unfolding mssql_kill_connection_errors_collect_def Let_def
  by (auto simp: host_write_def dest: map_of_gauge_names)

lemma mssql_buffer_manager_host:
  "confined (host_write metrics host) (mssql_buffer_manager_collect l rows metrics host u)"
  unfolding mssql_buffer_manager_collect_def Let_def
  by (auto simp: host_write_def dest: map_of_gauge_names)

lemma mssql_os_process_memory_host:
  "confined (host_write metrics host) (mssql_os_process_memory_collect l rows metrics host u)"
  unfolding mssql_os_process_memory_collect_def Let_def
  by (auto simp: host_write_def dest: map_of_gauge_names)

lemma mssql_os_sys_memory_host:
  "confined (host_write metrics host) (mssql_os_sys_memory_collect l rows metrics host u)"
  unfolding mssql_os_sys_memory_collect_def Let_def
  by (auto simp: host_write_def dest: map_of_gauge_names)

lemma mssql_connections_host:
  "confined (host_write metrics host) (mssql_connections_collect l rows metrics host u)"
  unfolding mssql_connections_collect_def Let_def
  by (auto simp: host_write_def dest: map_of_gauge_names)

lemma mssql_client_connections_host:
  "confined (host_write metrics host) (mssql_client_connections_collect l rows metrics host u)"
  unfolding mssql_client_connections_collect_def Let_def
  by (auto simp: host_write_def dest: map_of_gauge_names)

lemma mssql_database_state_host:
  "confined (host_write metrics host) (mssql_database_state_collect l rows metrics host u)"
  unfolding mssql_database_state_collect_def Let_def
  by (auto simp: host_write_def dest: map_of_gauge_names)

lemma mssql_log_growths_host:
  "confined (host_write metrics host) (mssql_log_growths_collect l rows metrics host u)"
  unfolding mssql_log_growths_collect_def Let_def
  by (auto simp: host_write_def dest: map_of_gauge_names)

lemma mssql_database_filesize_host:
  "confined (host_write metrics host) (mssql_database_filesize_collect l rows metrics host u)"
  unfolding mssql_database_filesize_collect_def Let_def
  by (auto simp: host_write_def dest: map_of_gauge_names)

lemma mssql_io_stall_host:
  "confined (host_write metrics host) (mssql_io_stall_collect l rows metrics host u)"
  unfolding mssql_io_stall_collect_def Let_def
  by (auto simp: host_write_def dest: map_of_gauge_names)

lemma mssql_batch_requests_host:
  "confined (host_write metrics host) (mssql_batch_requests_collect l rows metrics host u)"
  unfolding mssql_batch_requests_collect_def Let_def
  by (auto simp: host_write_def dest: map_of_gauge_names)

lemma mssql_transactions_host:
  "confined (host_write metrics host) (mssql_transactions_collect l rows metrics host u)"
  unfolding mssql_transactions_collect_def Let_def
  by (auto simp: host_write_def dest: map_of_gauge_names)

lemma mssql_db_memory_host:
  "confined (host_write metrics host) (mssql_db_memory_collect l rows metrics host u)"
  unfolding mssql_db_memory_collect_def Let_def
  by (auto simp: host_write_def dest: map_of_gauge_names)

lemma mssql_product_version_host:
  "confined (host_write metrics host) (mssql_product_version_collect l rows metrics host u)"
  unfolding mssql_product_version_collect_def Let_def
  by (auto simp: host_write_def dest: map_of_gauge_names)

lemma mssql_volume_stats_host:
  "confined (host_write metrics host) (mssql_volume_stats_collect l rows metrics host u)"
  unfolding mssql_volume_stats_collect_def Let_def
  by (auto simp: host_write_def dest: map_of_gauge_names)

lemma mssql_most_exec_query_host:
  "confined (host_write metrics (JStr h)) (mssql_most_exec_query_collect l rows metrics (JStr h) u)"
  unfolding mssql_most_exec_query_collect_def
  by simp

lemma mssql_most_avg_time_query_host:
  "confined (host_write metrics (JStr h)) (mssql_most_avg_time_query_collect l rows metrics (JStr h) u)"
  unfolding mssql_most_avg_time_query_collect_def
  by simp

lemma mssql_most_avg_io_query_host:
  "confined (host_write metrics (JStr h)) (mssql_most_avg_io_query_collect l rows metrics (JStr h) u)"
  unfolding mssql_most_avg_io_query_collect_def
  by simp




















section \<open>The catalogue as a whole\<close>

lemma mssql_up_slot:
  "confined (host_write (c_metrics (mssql_up l)) (JStr h))
     (c_collect (mssql_up l) rows (c_metrics (mssql_up l)) (JStr h) JUndefined)"
  using mssql_up_host [of mssql_up_metrics "JStr h" l rows JUndefined] by (simp add: mssql_up_def)

lemma mssql_product_version_slot:
  "confined (host_write (c_metrics (mssql_product_version l)) (JStr h))
     (c_collect (mssql_product_version l) rows (c_metrics (mssql_product_version l)) (JStr h) JUndefined)"
  using mssql_product_version_host [of mssql_product_version_metrics "JStr h" l rows JUndefined] by (simp add: mssql_product_version_def)

lemma mssql_instance_local_time_slot:
  "confined (host_write (c_metrics (mssql_instance_local_time l)) (JStr h))
     (c_collect (mssql_instance_local_time l) rows (c_metrics (mssql_instance_local_time l)) (JStr h) JUndefined)"
  using mssql_instance_local_time_host [of mssql_instance_local_time_metrics "JStr h" l rows JUndefined] by (simp add: mssql_instance_local_time_def)

lemma mssql_connections_slot:
  "confined (host_write (c_metrics (mssql_connections l)) (JStr h))
     (c_collect (mssql_connections l) rows (c_metrics (mssql_connections l)) (JStr h) JUndefined)"
  using mssql_connections_host [of mssql_connections_metrics "JStr h" l rows JUndefined] by (simp add: mssql_connections_def)

lemma mssql_client_connections_slot:
  "confined (host_write (c_metrics (mssql_client_connections l)) (JStr h))
     (c_collect (mssql_client_connections l) rows (c_metrics (mssql_client_connections l)) (JStr h) JUndefined)"
  using mssql_client_connections_host [of mssql_client_connections_metrics "JStr h" l rows JUndefined] by (simp add: mssql_client_connections_def)

lemma mssql_deadlocks_slot:
  "confined (host_write (c_metrics (mssql_deadlocks l)) (JStr h))
     (c_collect (mssql_deadlocks l) rows (c_metrics (mssql_deadlocks l)) (JStr h) JUndefined)"
  using mssql_deadlocks_host [of mssql_deadlocks_metrics "JStr h" l rows JUndefined] by (simp add: mssql_deadlocks_def)

lemma mssql_user_errors_slot:
  "confined (host_write (c_metrics (mssql_user_errors l)) (JStr h))
     (c_collect (mssql_user_errors l) rows (c_metrics (mssql_user_errors l)) (JStr h) JUndefined)"
  using mssql_user_errors_host [of mssql_user_errors_metrics "JStr h" l rows JUndefined] by (simp add: mssql_user_errors_def)

lemma mssql_kill_connection_errors_slot:
  "confined (host_write (c_metrics (mssql_kill_connection_errors l)) (JStr h))
     (c_collect (mssql_kill_connection_errors l) rows (c_metrics (mssql_kill_connection_errors l)) (JStr h) JUndefined)"
  using mssql_kill_connection_errors_host [of mssql_kill_connection_errors_metrics "JStr h" l rows JUndefined] by (simp add: mssql_kill_connection_errors_def)

lemma mssql_database_state_slot:
  "confined (host_write (c_metrics (mssql_database_state l)) (JStr h))
     (c_collect (mssql_database_state l) rows (c_metrics (mssql_database_state l)) (JStr h) JUndefined)"
  using mssql_database_state_host [of mssql_database_state_metrics "JStr h" l rows JUndefined] by (simp add: mssql_database_state_def)

lemma mssql_log_growths_slot:
  "confined (host_write (c_metrics (mssql_log_growths l)) (JStr h))
     (c_collect (mssql_log_growths l) rows (c_metrics (mssql_log_growths l)) (JStr h) JUndefined)"
  using mssql_log_growths_host [of mssql_log_growths_metrics "JStr h" l rows JUndefined] by (simp add: mssql_log_growths_def)

lemma mssql_database_filesize_slot:
  "confined (host_write (c_metrics (mssql_database_filesize l)) (JStr h))
     (c_collect (mssql_database_filesize l) rows (c_metrics (mssql_database_filesize l)) (JStr h) JUndefined)"
  using mssql_database_filesize_host [of mssql_database_filesize_metrics "JStr h" l rows JUndefined] by (simp add: mssql_database_filesize_def)

lemma mssql_buffer_manager_slot:
  "confined (host_write (c_metrics (mssql_buffer_manager l)) (JStr h))
     (c_collect (mssql_buffer_manager l) rows (c_metrics (mssql_buffer_manager l)) (JStr h) JUndefined)"
  using mssql_buffer_manager_host [of mssql_buffer_manager_metrics "JStr h" l rows JUndefined] by (simp add: mssql_buffer_manager_def)

lemma mssql_io_stall_slot:
  "confined (host_write (c_metrics (mssql_io_stall l)) (JStr h))
     (c_collect (mssql_io_stall l) rows (c_metrics (mssql_io_stall l)) (JStr h) JUndefined)"
  using mssql_io_stall_host [of mssql_io_stall_metrics "JStr h" l rows JUndefined] by (simp add: mssql_io_stall_def)

lemma mssql_batch_requests_slot:
  "confined (host_write (c_metrics (mssql_batch_requests l)) (JStr h))
     (c_collect (mssql_batch_requests l) rows (c_metrics (mssql_batch_requests l)) (JStr h) JUndefined)"
  using mssql_batch_requests_host [of mssql_batch_requests_metrics "JStr h" l rows JUndefined] by (simp add: mssql_batch_requests_def)

lemma mssql_transactions_slot:
  "confined (host_write (c_metrics (mssql_transactions l)) (JStr h))
     (c_collect (mssql_transactions l) rows (c_metrics (mssql_transactions l)) (JStr h) JUndefined)"
  using mssql_transactions_host [of mssql_transactions_metrics "JStr h" l rows JUndefined] by (simp add: mssql_transactions_def)

lemma mssql_os_process_memory_slot:
  "confined (host_write (c_metrics (mssql_os_process_memory l)) (JStr h))
     (c_collect (mssql_os_process_memory l) rows (c_metrics (mssql_os_process_memory l)) (JStr h) JUndefined)"
  using mssql_os_process_memory_host [of mssql_os_process_memory_metrics "JStr h" l rows JUndefined] by (simp add: mssql_os_process_memory_def)

lemma mssql_os_sys_memory_slot:
  "confined (host_write (c_metrics (mssql_os_sys_memory l)) (JStr h))
     (c_collect (mssql_os_sys_memory l) rows (c_metrics (mssql_os_sys_memory l)) (JStr h) JUndefined)"
  using mssql_os_sys_memory_host [of mssql_os_sys_memory_metrics "JStr h" l rows JUndefined] by (simp add: mssql_os_sys_memory_def)

lemma mssql_db_memory_slot:
  "confined (host_write (c_metrics (mssql_db_memory l)) (JStr h))
     (c_collect (mssql_db_memory l) rows (c_metrics (mssql_db_memory l)) (JStr h) JUndefined)"
  using mssql_db_memory_host [of mssql_db_memory_metrics "JStr h" l rows JUndefined] by (simp add: mssql_db_memory_def)

lemma mssql_volume_stats_slot:
  "confined (host_write (c_metrics (mssql_volume_stats l)) (JStr h))
     (c_collect (mssql_volume_stats l) rows (c_metrics (mssql_volume_stats l)) (JStr h) JUndefined)"
  using mssql_volume_stats_host [of mssql_volume_stats_metrics "JStr h" l rows JUndefined] by (simp add: mssql_volume_stats_def)

lemma mssql_most_exec_query_slot:
  "confined (host_write (c_metrics (mssql_most_exec_query l)) (JStr h))
     (c_collect (mssql_most_exec_query l) rows (c_metrics (mssql_most_exec_query l)) (JStr h) JUndefined)"
  using mssql_most_exec_query_host [of mssql_most_exec_query_metrics "h" l rows JUndefined] by (simp add: mssql_most_exec_query_def)

lemma mssql_most_avg_io_query_slot:
  "confined (host_write (c_metrics (mssql_most_avg_io_query l)) (JStr h))
     (c_collect (mssql_most_avg_io_query l) rows (c_metrics (mssql_most_avg_io_query l)) (JStr h) JUndefined)"
  using mssql_most_avg_io_query_host [of mssql_most_avg_io_query_metrics "h" l rows JUndefined] by (simp add: mssql_most_avg_io_query_def)

lemma mssql_most_avg_time_query_slot:
  "confined (host_write (c_metrics (mssql_most_avg_time_query l)) (JStr h))
     (c_collect (mssql_most_avg_time_query l) rows (c_metrics (mssql_most_avg_time_query l)) (JStr h) JUndefined)"
  using mssql_most_avg_time_query_host [of mssql_most_avg_time_query_metrics "h" l rows JUndefined] by (simp add: mssql_most_avg_time_query_def)

lemma getMetrics_slots:
  "list_all (\<lambda>p. \<forall>rows h. confined (host_write (c_metrics (snd p)) (JStr h))
                (c_collect (snd p) rows (c_metrics (snd p)) (JStr h) JUndefined)) (getMetrics l)"
  unfolding getMetrics_def
  by (simp only: list.pred_inject fst_conv snd_conv simp_thms
       mssql_up_slot
       mssql_product_version_slot
       mssql_instance_local_time_slot
       mssql_connections_slot
       mssql_client_connections_slot
       mssql_deadlocks_slot
       mssql_user_errors_slot
       mssql_kill_connection_errors_slot
       mssql_database_state_slot
       mssql_log_growths_slot
       mssql_database_filesize_slot
       mssql_buffer_manager_slot
       mssql_io_stall_slot
       mssql_batch_requests_slot
       mssql_transactions_slot
       mssql_os_process_memory_slot
       mssql_os_sys_memory_slot
       mssql_db_memory_slot
       mssql_volume_stats_slot
       mssql_most_exec_query_slot
       mssql_most_avg_io_query_slot
       mssql_most_avg_time_query_slot)

lemma catalogue_ok_getMetrics: "catalogue_ok (getMetrics l)"
  using getMetrics_slots [of l] by (auto simp: catalogue_ok_def list_all_iff)

section \<open>Steps and runs\<close>

lemma exec_append: "exec sc (es @ es') s = (case exec sc es s of None \<Rightarrow> None | Some s' \<Rightarrow> exec sc es' s')"
  by (induction es arbitrary: s) (auto split: option.splits)

lemma exec_snoc: "exec sc (es @ [e]) s = (case exec sc es s of None \<Rightarrow> None | Some s' \<Rightarrow> step sc e s')"
  by (simp add: exec_append split: option.splits)

lemma run_induct [consumes 1, case_names init step]:
  assumes "run sc es w = Some s"
    and "P (init w)"
    and "\<And>es' t e t'. run sc es' w = Some t \<Longrightarrow> P t \<Longrightarrow> step sc e t = Some t' \<Longrightarrow> P t'"
  shows "P s"
  using assms(1)
proof (induction es arbitrary: s rule: rev_induct)
  case Nil
  then show ?case using assms(2) by (simp add: run_def)
next
  case (snoc e es)
  then obtain t where t: "run sc es w = Some t" "step sc e t = Some s"
    by (auto simp: run_def exec_snoc split: option.splits)
  then show ?case using snoc.IH assms(3) by blast
qed

lemma step_cases [consumes 1, case_names connected down crashed complete close send]:
  assumes "step sc e s = Some s'"
  obtains
    (connected) i where "e = Connect i" "failed s = None" "response s = None" "i = pc s"
        "i < length (connectStrings sc)" "connect_result sc i = None"
        "s' = s\<lparr>pc := Suc i,
                inflight := inflight s @ collect i (entries sc),
                unresolved := unresolved s @ collect i (entries sc),
                opened := opened s @ [i],
                trace := trace s @ Attempted i # map (\<lambda>(j, name). Issued j name) (collect i (entries sc))\<rparr>"
  | (down) i err reg where "e = Connect i" "failed s = None" "response s = None" "i = pc s"
        "i < length (connectStrings sc)" "connect_result sc i = Some err"
        "up_down sc (connectStrings sc ! i) (registry (world s)) = (Inr (), reg)"
        "s' = s\<lparr>world := (world s)\<lparr>registry := reg\<rparr>, pc := Suc i, trace := trace s @ [Attempted i]\<rparr>"
  | (crashed) i err thrown reg where "e = Connect i" "failed s = None" "response s = None" "i = pc s"
        "i < length (connectStrings sc)" "connect_result sc i = Some err"
        "up_down sc (connectStrings sc ! i) (registry (world s)) = (Inl thrown, reg)"
        "s' = s\<lparr>world := (world s)\<lparr>registry := reg\<rparr>, pc := Suc i, failed := Some thrown,
                trace := trace s @ [Attempted i]\<rparr>"
  | (complete) i name c where "e = Complete i name" "(i, name) \<in> set (inflight s)"
        "map_of (entries sc) name = Some c"
        "s' = s\<lparr>world := snd (measure_v2 \<lparr>config = connectStrings sc ! i\<rparr> c name (query_result sc i name) (world s)),
                inflight := remove1 (i, name) (inflight s),
                unresolved := remove1 (i, name) (unresolved s),
                trace := trace s @ [Settled i name]\<rparr>"
  | (close) i where "e = Close i" "i \<in> set (opened s)" "list_all (\<lambda>(j, name). j \<noteq> i) (unresolved s)"
        "s' = s\<lparr>opened := remove1 i (opened s), trace := trace s @ [Closed i]\<rparr>"
  | (send) "e = Send" "failed s = None" "response s = None" "pc s = length (connectStrings sc)"
        "opened s = []"
        "s' = s\<lparr>response := Some (render sc (registry (world s))), trace := trace s @ [Sent]\<rparr>"
proof (cases e)
  case (Connect i)
  show ?thesis
  proof (cases "connect_result sc i")
    case None
    then show ?thesis
      using assms Connect connected [of i]
      by (auto simp: connect_def split: if_splits)
  next
    case (Some err)
    obtain res reg where u: "up_down sc (connectStrings sc ! i) (registry (world s)) = (res, reg)"
      by (cases "up_down sc (connectStrings sc ! i) (registry (world s))")
    show ?thesis
    proof (cases res)
      case (Inl thrown)
      then show ?thesis
        using assms Connect Some u crashed [of i err thrown reg]
        by (auto simp: connect_def split: if_splits)
    next
      case (Inr x)
      then show ?thesis
        using assms Connect Some u down [of i err reg]
        by (auto simp: connect_def split: if_splits)
    qed
  qed
next
  case (Complete i name)
  obtain resolved w' where m: "measure_v2 \<lparr>config = connectStrings sc ! i\<rparr> (the (map_of (entries sc) name)) name
                                 (query_result sc i name) (world s) = (resolved, w')"
    by (metis surj_pair)
  then have "resolved = True"
    using measure_v2_resolves [of "\<lparr>config = connectStrings sc ! i\<rparr>" "the (map_of (entries sc) name)" name
                                   "query_result sc i name" "world s"]
    by simp
  then show ?thesis
    using assms Complete m complete [of i name "the (map_of (entries sc) name)"]
    by (auto split: if_splits option.splits)
next
  case (Close i)
  then show ?thesis using assms close [of i] by (auto split: if_splits)
next
  case Send
  then show ?thesis using assms send by (auto split: if_splits)
qed

lemma registry_measure_v2:
  "registry (snd (measure_v2 \<lparr>config = connectStrings sc ! i\<rparr> c name (query_result sc i name) w)) =
     (case query_result sc i name of
        Inl e \<Rightarrow> registry w
      | Inr [] \<Rightarrow> registry w
      | Inr (r # rs) \<Rightarrow>
          snd (c_collect c (r # rs) (c_metrics c) (JStr (server (connectStrings sc ! i))) JUndefined (registry w)))"
  by (auto simp: measure_v2_rejected measure_v2_no_rows measure_v2_rows split: sum.splits list.splits prod.splits)

lemma registry_complete:
  "map_of (entries sc) name = Some c \<Longrightarrow>
   registry (snd (measure_v2 \<lparr>config = connectStrings sc ! i\<rparr> c name (query_result sc i name) w)) =
     snd (mapping sc i name (registry w))"
  by (auto simp: registry_measure_v2 mapping_def return_eff_def split: sum.splits list.splits)

lemma inv_init: "inv sc (init w)"
  by (simp add: inv_def init_def)

lemma inv_step:
  assumes "inv sc s" and "step sc e s = Some s'"
  shows "inv sc s'"
  using assms(2)
proof (cases rule: step_cases)
  case (connected i)
  then show ?thesis using assms(1)
    by (auto simp: inv_def collect_def names_def intro: less_SucI rev_image_eqI)
next
  case (down i err reg)
  then show ?thesis using assms(1) by (auto simp: inv_def intro: less_SucI)
next
  case (crashed i err thrown reg)
  then show ?thesis using assms(1) by (auto simp: inv_def intro: less_SucI)
next
  case (complete i name c)
  then show ?thesis using assms(1)
    by (auto simp: inv_def dest: notin_set_remove1)
next
  case (close i)
  have "\<And>j name. (j, name) \<in> set (inflight s) \<Longrightarrow> j \<noteq> i"
    using close(3) assms(1) by (auto simp: inv_def list_all_iff)
  then show ?thesis using close assms(1)
    by (auto simp: inv_def dest: notin_set_remove1)
next
  case send
  have "inflight s = []"
    using send(5) assms(1) by (cases "inflight s") (auto simp: inv_def)
  then show ?thesis using send assms(1) by (auto simp: inv_def)
qed

lemma inv_run: "run sc es w = Some s \<Longrightarrow> inv sc s"
  by (induction rule: run_induct) (auto intro: inv_init inv_step)

lemma inflight_known:
  assumes "run sc es w = Some s" and "(i, name) \<in> set (inflight s)"
  shows "\<exists>c. map_of (entries sc) name = Some c"
proof -
  have "name \<in> set (names sc)"
    using inv_run [OF assms(1)] assms(2) by (auto simp: inv_def)
  then show ?thesis
    by (metis names_def domIff dom_map_of_conv_image_fst list.set_map not_Some_eq)
qed

lemma step_Complete_enabled:
  "(i, name) \<in> set (inflight s) \<Longrightarrow> map_of (entries sc) name = Some c \<Longrightarrow>
   step sc (Complete i name) s =
     Some (s\<lparr>world := snd (measure_v2 \<lparr>config = connectStrings sc ! i\<rparr> c name (query_result sc i name) (world s)),
             inflight := remove1 (i, name) (inflight s),
             unresolved := remove1 (i, name) (unresolved s),
             trace := trace s @ [Settled i name]\<rparr>)"
  using measure_v2_resolves [of "\<lparr>config = connectStrings sc ! i\<rparr>" c name "query_result sc i name" "world s"]
  by (auto split: prod.splits)

section \<open>What a scrape leaves in the metric space\<close>

lemma mapping_confined:
  assumes "catalogue_ok (entries sc)"
  shows "confined (slot_write sc i name) (mapping sc i name)"
proof (cases "map_of (entries sc) name")
  case None
  then show ?thesis by (simp add: mapping_def)
next
  case (Some c)
  then have "(name, c) \<in> set (entries sc)" by (rule map_of_SomeD)
  then have "confined (host_write (c_metrics c) (JStr h)) (c_collect c rs (c_metrics c) (JStr h) JUndefined)" for rs h
    using assms by (force simp: catalogue_ok_def)
  moreover have "slot_write sc i name = host_write (c_metrics c) (JStr (server (connectStrings sc ! i)))"
    using Some by (simp add: slot_write_def [abs_def])
  ultimately show ?thesis
    using Some by (auto simp: mapping_def split: sum.splits list.splits)
qed

lemma up_down_confined: "confined (slot_write sc i ''mssql_up'') (up_down sc (connectStrings sc ! i))"
proof (cases "map_of (entries sc) ''mssql_up''")
  case None
  then show ?thesis by (simp add: up_down_def)
next
  case (Some c)
  then show ?thesis
    by (auto simp: up_down_def slot_write_def host_write_def dest: map_of_gauge_names)
qed

lemma slot_confined:
  "catalogue_ok (entries sc) \<Longrightarrow> confined (slot_write sc i name) (slot_action sc i name)"
  by (simp add: slot_action_def mapping_confined up_down_confined)

lemma slot_overwrite:
  assumes "catalogue_ok (entries sc)"
  shows "map_of (snd (slot_action sc i name r)) k =
           (case contrib sc i name k of Some v \<Rightarrow> Some v | None \<Rightarrow> map_of r k)"
  unfolding contrib_def by (rule confined_overwrite [OF slot_confined [OF assms]])

lemma contrib_slot_write:
  assumes "catalogue_ok (entries sc)" and "contrib sc i name k = Some v"
  shows "slot_write sc i name (k, v)"
  using confined_provenance [OF slot_confined [OF assms(1)], of i name "[]" k v] assms(2)
  by (simp add: contrib_def)

lemma contrib_unknown_name:
  "map_of (entries sc) name = None \<Longrightarrow> name \<noteq> ''mssql_up'' \<or> connect_result sc i = None \<Longrightarrow>
   contrib sc i name k = None"
  by (auto simp: contrib_def slot_action_def mapping_def return_eff_def)

lemma contrib_down_other:
  "connect_result sc i \<noteq> None \<Longrightarrow> name \<noteq> ''mssql_up'' \<Longrightarrow> contrib sc i name k = None"
  by (auto simp: contrib_def slot_action_def return_eff_def)

text \<open>How each step changes the metric space.\<close>

lemma step_registry_cases [consumes 2, case_names same slot]:
  assumes "inv sc s" and "step sc e s = Some s'"
  obtains
    (same) "registry (world s') = registry (world s)"
      "\<And>i name. i < pc s' \<Longrightarrow> (i, name) \<notin> set (inflight s') \<Longrightarrow>
                 (i < pc s \<and> (i, name) \<notin> set (inflight s)) \<or> contrib sc i name = Map.empty"
      "pc s \<le> pc s'"
  | (slot) j m where "j < length (connectStrings sc)"
      "registry (world s') = snd (slot_action sc j m (registry (world s)))"
      "\<And>i name. i < pc s' \<Longrightarrow> (i, name) \<notin> set (inflight s') \<Longrightarrow>
                 (i < pc s \<and> (i, name) \<notin> set (inflight s)) \<or> (i, name) = (j, m) \<or> contrib sc i name = Map.empty"
      "pc s \<le> pc s'" "j < pc s'"
  using assms(2)
proof (cases rule: step_cases)
  case (connected i)
  have "contrib sc i name = Map.empty" if "(i, name) \<notin> set (collect i (entries sc))" for name
  proof -
    have "name \<notin> fst ` set (entries sc)"
      using that by (force simp: collect_def)
    then have "map_of (entries sc) name = None"
      by (simp add: map_of_eq_None_iff)
    then show ?thesis
      using connected(6) contrib_unknown_name [of sc name i] by auto
  qed
  then show ?thesis
    using connected same by (auto simp: less_Suc_eq)
next
  case (down i err reg)
  have r: "registry (world s') = snd (slot_action sc i ''mssql_up'' (registry (world s)))"
    using down by (simp add: slot_action_def)
  have "contrib sc i name = Map.empty" if "name \<noteq> ''mssql_up''" for name
    using that down(6) contrib_down_other [of sc i name] by auto
  then show ?thesis
    using down slot [of i "''mssql_up''"] r by (auto simp: less_Suc_eq)
next
  case (crashed i err thrown reg)
  have r: "registry (world s') = snd (slot_action sc i ''mssql_up'' (registry (world s)))"
    using crashed by (simp add: slot_action_def)
  have "contrib sc i name = Map.empty" if "name \<noteq> ''mssql_up''" for name
    using that crashed(6) contrib_down_other [of sc i name] by auto
  then show ?thesis
    using crashed slot [of i "''mssql_up''"] r by (auto simp: less_Suc_eq)
next
  case (complete i name c)
  have i: "i < pc s" "connect_result sc i = None"
    using assms(1) complete(2) by (auto simp: inv_def)
  then have len: "i < length (connectStrings sc)"
    using assms(1) by (auto simp: inv_def)
  have r: "registry (world s') = snd (slot_action sc i name (registry (world s)))"
    using complete i by (simp add: slot_action_def registry_complete)
  have rm: "\<And>j m. (j, m) \<notin> set (remove1 (i, name) (inflight s)) \<Longrightarrow> (j, m) \<noteq> (i, name) \<Longrightarrow>
              (j, m) \<notin> set (inflight s)"
    by (metis in_set_remove1)
  show ?thesis
  proof (rule slot [of i name])
    show "i < length (connectStrings sc)" by (rule len)
    show "registry (world s') = snd (slot_action sc i name (registry (world s)))" by (rule r)
    fix j m
    assume "j < pc s'" and "(j, m) \<notin> set (inflight s')"
    then have "j < pc s" and "(j, m) \<notin> set (remove1 (i, name) (inflight s))"
      using complete(4) by simp_all
    then show "j < pc s \<and> (j, m) \<notin> set (inflight s) \<or> (j, m) = (i, name) \<or> contrib sc j m = Map.empty"
      using rm by blast
  next
    show "pc s \<le> pc s'" "i < pc s'"
      using complete(4) i(1) by simp_all
  qed
next
  case (close i)
  then show ?thesis using same by auto
next
  case send
  then show ?thesis using same by auto
qed

lemma slot_value_kept:
  assumes ok: "catalogue_ok (entries sc)"
    and run: "run sc es w = Some s"
    and iso: "\<And>j m. j < length (connectStrings sc) \<Longrightarrow> (j, m) \<noteq> (i, name) \<Longrightarrow> contrib sc j m k = None"
    and c: "contrib sc i name k = Some v"
    and d: "i < pc s" "(i, name) \<notin> set (inflight s)"
  shows "map_of (registry (world s)) k = Some v"
  using run d
proof (induction rule: run_induct)
  case init
  then show ?case by (simp add: init_def)
next
  case (step es' t e t')
  have inv: "inv sc t" using step.hyps(1) by (rule inv_run)
  from inv step.hyps(2) show ?case
  proof (cases rule: step_registry_cases)
    case same
    have "i < pc t \<and> (i, name) \<notin> set (inflight t)"
      using same(2) [OF step.prems] c by auto
    then show ?thesis using step.IH same(1) by simp
  next
    case (slot j m)
    show ?thesis
    proof (cases "(i, name) = (j, m)")
      case True
      then show ?thesis
        using slot(2) slot_overwrite [OF ok, of i name "registry (world t)" k] c by simp
    next
      case False
      then have "i < pc t \<and> (i, name) \<notin> set (inflight t)"
        using slot(3) [OF step.prems] c by auto
      then have "map_of (registry (world t)) k = Some v" using step.IH by simp
      moreover have "contrib sc j m k = None"
        using iso [OF slot(1)] False by auto
      ultimately show ?thesis
        using slot(2) slot_overwrite [OF ok, of j m "registry (world t)" k] by simp
    qed
  qed
qed

lemma untouched_key:
  assumes ok: "catalogue_ok (entries sc)"
    and run: "run sc es w = Some s"
    and none: "\<And>j m. j < length (connectStrings sc) \<Longrightarrow> contrib sc j m k = None"
  shows "map_of (registry (world s)) k = map_of (registry w) k"
  using run
proof (induction rule: run_induct)
  case init
  then show ?case by (simp add: init_def)
next
  case (step es' t e t')
  have inv: "inv sc t" using step.hyps(1) by (rule inv_run)
  from inv step.hyps(2) show ?case
  proof (cases rule: step_registry_cases)
    case same
    then show ?thesis using step.IH by simp
  next
    case (slot j m)
    then show ?thesis
      using step.IH slot_overwrite [OF ok, of j m "registry (world t)" k] none [OF slot(1), of m] by simp
  qed
qed

text \<open>A sample that no pair of a target the loop has reached writes is as it was.\<close>

lemma untouched_before:
  assumes ok: "catalogue_ok (entries sc)"
    and run: "run sc es w = Some s"
    and none: "\<And>j m. j < pc s \<Longrightarrow> contrib sc j m k = None"
  shows "map_of (registry (world s)) k = map_of (registry w) k"
  using run none
proof (induction rule: run_induct)
  case init
  then show ?case by (simp add: init_def)
next
  case (step es' t e t')
  have inv: "inv sc t" using step.hyps(1) by (rule inv_run)
  from inv step.hyps(2) show ?case
  proof (cases rule: step_registry_cases)
    case same
    then show ?thesis using step.IH step.prems by simp
  next
    case (slot j m)
    have "map_of (registry (world t)) k = map_of (registry w) k"
      using step.IH step.prems slot(4) by simp
    then show ?thesis
      using slot_overwrite [OF ok, of j m "registry (world t)" k] step.prems [OF slot(5), of m] slot(2)
      by simp
  qed
qed

lemma finished_run:
  assumes "run sc es w = Some s" and "response s \<noteq> None"
  shows "pc s = length (connectStrings sc)" "inflight s = []" "opened s = []" "failed s = None"
    "response s = Some (render sc (registry (world s)))"
proof -
  have inv: "inv sc s" using assms(1) by (rule inv_run)
  show "pc s = length (connectStrings sc)" "opened s = []" "failed s = None"
    "response s = Some (render sc (registry (world s)))"
    using inv assms(2) by (auto simp: inv_def)
  then show "inflight s = []"
    using inv by (cases "inflight s") (auto simp: inv_def)
qed

section \<open>Facts about the exporter's catalogue\<close>

lemma exporter_simps [simp]:
  "library (exporter l ts cr qr rd) = l"
  "connectStrings (exporter l ts cr qr rd) = ts"
  "entries (exporter l ts cr qr rd) = getMetrics l"
  "connect_result (exporter l ts cr qr rd) = cr"
  "query_result (exporter l ts cr qr rd) = qr"
  "render (exporter l ts cr qr rd) = rd"
  by (simp_all add: exporter_def)

lemma getMetrics_up: "map_of (getMetrics l) ''mssql_up'' = Some (mssql_up l)"
  by (simp add: getMetrics_def)

lemma up_down_exporter:
  "up_down (exporter l ts cr qr rd) t r = (Inr (), AList.update (up_key t) (JNum 0) r)"
  by (simp add: up_down_def getMetrics_up mssql_up_def mssql_up_metrics_def metric_set_def gauge_set_def
      valid_labels_def up_key_def)

lemma gauge_owners_getMetrics:
  "gauge_owners (getMetrics l) =
    [(''mssql_up'', ''mssql_up''),
     (''mssql_product_version'', ''mssql_product_version''),
     (''mssql_instance_local_time'', ''mssql_instance_local_time''),
     (''mssql_connections'', ''mssql_connections''),
     (''mssql_client_connections'', ''mssql_client_connections''),
     (''mssql_deadlocks'', ''mssql_deadlocks''),
     (''mssql_user_errors'', ''mssql_user_errors''),
     (''mssql_kill_connection_errors'', ''mssql_kill_connection_errors''),
     (''mssql_database_state'', ''mssql_database_state''),
     (''mssql_log_growths'', ''mssql_log_growths''),
     (''mssql_database_filesize'', ''mssql_database_filesize''),
     (''mssql_page_read_total'', ''mssql_buffer_manager''),
     (''mssql_page_write_total'', ''mssql_buffer_manager''),
     (''mssql_page_life_expectancy'', ''mssql_buffer_manager''),
     (''mssql_lazy_write_total'', ''mssql_buffer_manager''),
     (''mssql_page_checkpoint_total'', ''mssql_buffer_manager''),
     (''mssql_io_stall'', ''mssql_io_stall''),
     (''mssql_io_stall_total'', ''mssql_io_stall''),
     (''mssql_batch_requests'', ''mssql_batch_requests''),
     (''mssql_transactions'', ''mssql_transactions''),
     (''mssql_page_fault_count'', ''mssql_os_process_memory''),
     (''mssql_memory_utilization_percentage'', ''mssql_os_process_memory''),
     (''mssql_total_physical_memory_kb'', ''mssql_os_sys_memory''),
     (''mssql_available_physical_memory_kb'', ''mssql_os_sys_memory''),
     (''mssql_total_page_file_kb'', ''mssql_os_sys_memory''),
     (''mssql_available_page_file_kb'', ''mssql_os_sys_memory''),
     (''mssql_db_memory'', ''mssql_db_memory''),
     (''mssql_volume_total_bytes'', ''mssql_volume_stats''),
     (''mssql_volume_available_bytes'', ''mssql_volume_stats''),
     (''mssql_volume_available_percentage'', ''mssql_volume_stats''),
     (''mssql_total_execution_count'', ''mssql_most_exec_query''),
     (''mssql_avg_physical_io_reads'', ''mssql_most_avg_io_query''),
     (''mssql_avg_rowcount'', ''mssql_most_avg_io_query''),
     (''mssql_count_executions'', ''mssql_most_avg_io_query''),
     (''mssql_avg_duration_us'', ''mssql_most_avg_time_query'')]"
  by (simp add: gauge_owners_def getMetrics_def gauge_names_def
      mssql_up_def mssql_up_metrics_def
      mssql_product_version_def mssql_product_version_metrics_def
      mssql_instance_local_time_def mssql_instance_local_time_metrics_def
      mssql_connections_def mssql_connections_metrics_def
      mssql_client_connections_def mssql_client_connections_metrics_def
      mssql_deadlocks_def mssql_deadlocks_metrics_def
      mssql_user_errors_def mssql_user_errors_metrics_def
      mssql_kill_connection_errors_def mssql_kill_connection_errors_metrics_def
      mssql_database_state_def mssql_database_state_metrics_def
      mssql_log_growths_def mssql_log_growths_metrics_def
      mssql_database_filesize_def mssql_database_filesize_metrics_def
      mssql_buffer_manager_def mssql_buffer_manager_metrics_def
      mssql_io_stall_def mssql_io_stall_metrics_def
      mssql_batch_requests_def mssql_batch_requests_metrics_def
      mssql_transactions_def mssql_transactions_metrics_def
      mssql_os_process_memory_def mssql_os_process_memory_metrics_def
      mssql_os_sys_memory_def mssql_os_sys_memory_metrics_def
      mssql_db_memory_def mssql_db_memory_metrics_def
      mssql_volume_stats_def mssql_volume_stats_metrics_def
      mssql_most_exec_query_def mssql_most_exec_query_metrics_def
      mssql_most_avg_io_query_def mssql_most_avg_io_query_metrics_def
      mssql_most_avg_time_query_def mssql_most_avg_time_query_metrics_def)

lemma gauge_owners_distinct: "distinct (map fst (gauge_owners (getMetrics l)))"
  unfolding gauge_owners_getMetrics by simp

lemma gauge_ownerI:
  "(name, c) \<in> set es \<Longrightarrow> g \<in> set (gauge_names (c_metrics c)) \<Longrightarrow> (g, name) \<in> set (gauge_owners es)"
  by (force simp: gauge_owners_def)

lemma gauge_owner_unique:
  assumes "(name, c) \<in> set (getMetrics l)" and "g \<in> set (gauge_names (c_metrics c))"
    and "(name', c') \<in> set (getMetrics l)" and "g \<in> set (gauge_names (c_metrics c'))"
  shows "name = name'"
proof -
  have "(g, name) \<in> set (gauge_owners (getMetrics l))" "(g, name') \<in> set (gauge_owners (getMetrics l))"
    using assms by (auto intro: gauge_ownerI)
  then show ?thesis
    using gauge_owners_distinct [of l] by (meson eq_key_imp_eq_value)
qed

lemma up_gauge_owner:
  assumes "(name, c) \<in> set (getMetrics l)" and "''mssql_up'' \<in> set (gauge_names (c_metrics c))"
  shows "name = ''mssql_up''"
proof -
  have "(''mssql_up'', mssql_up l) \<in> set (getMetrics l)"
    using getMetrics_up [of l] by (rule map_of_SomeD)
  moreover have "''mssql_up'' \<in> set (gauge_names (c_metrics (mssql_up l)))"
    by (simp add: gauge_names_def mssql_up_def mssql_up_metrics_def)
  ultimately show ?thesis
    using gauge_owner_unique [OF assms] by blast
qed

lemma collect_getMetrics:
  "collect i (getMetrics l) =
     [(i, ''mssql_up''), (i, ''mssql_product_version''), (i, ''mssql_instance_local_time''),
      (i, ''mssql_connections''), (i, ''mssql_client_connections''), (i, ''mssql_deadlocks''),
      (i, ''mssql_user_errors''), (i, ''mssql_kill_connection_errors''), (i, ''mssql_database_state''),
      (i, ''mssql_log_growths''), (i, ''mssql_database_filesize''), (i, ''mssql_buffer_manager''),
      (i, ''mssql_io_stall''), (i, ''mssql_batch_requests''), (i, ''mssql_transactions''),
      (i, ''mssql_os_process_memory''), (i, ''mssql_os_sys_memory''), (i, ''mssql_db_memory''),
      (i, ''mssql_volume_stats''), (i, ''mssql_most_exec_query''), (i, ''mssql_most_avg_io_query''),
      (i, ''mssql_most_avg_time_query'')]"
  by (simp add: collect_def getMetrics_def)

lemma getMetrics_lookup:
  "map_of (getMetrics l) ''mssql_up'' = Some (mssql_up l)"
  "map_of (getMetrics l) ''mssql_product_version'' = Some (mssql_product_version l)"
  "map_of (getMetrics l) ''mssql_instance_local_time'' = Some (mssql_instance_local_time l)"
  "map_of (getMetrics l) ''mssql_connections'' = Some (mssql_connections l)"
  "map_of (getMetrics l) ''mssql_client_connections'' = Some (mssql_client_connections l)"
  "map_of (getMetrics l) ''mssql_deadlocks'' = Some (mssql_deadlocks l)"
  "map_of (getMetrics l) ''mssql_user_errors'' = Some (mssql_user_errors l)"
  "map_of (getMetrics l) ''mssql_kill_connection_errors'' = Some (mssql_kill_connection_errors l)"
  "map_of (getMetrics l) ''mssql_database_state'' = Some (mssql_database_state l)"
  "map_of (getMetrics l) ''mssql_log_growths'' = Some (mssql_log_growths l)"
  "map_of (getMetrics l) ''mssql_database_filesize'' = Some (mssql_database_filesize l)"
  "map_of (getMetrics l) ''mssql_buffer_manager'' = Some (mssql_buffer_manager l)"
  "map_of (getMetrics l) ''mssql_io_stall'' = Some (mssql_io_stall l)"
  "map_of (getMetrics l) ''mssql_batch_requests'' = Some (mssql_batch_requests l)"
  "map_of (getMetrics l) ''mssql_transactions'' = Some (mssql_transactions l)"
  "map_of (getMetrics l) ''mssql_os_process_memory'' = Some (mssql_os_process_memory l)"
  "map_of (getMetrics l) ''mssql_os_sys_memory'' = Some (mssql_os_sys_memory l)"
  "map_of (getMetrics l) ''mssql_db_memory'' = Some (mssql_db_memory l)"
  "map_of (getMetrics l) ''mssql_volume_stats'' = Some (mssql_volume_stats l)"
  "map_of (getMetrics l) ''mssql_most_exec_query'' = Some (mssql_most_exec_query l)"
  "map_of (getMetrics l) ''mssql_most_avg_io_query'' = Some (mssql_most_avg_io_query l)"
  "map_of (getMetrics l) ''mssql_most_avg_time_query'' = Some (mssql_most_avg_time_query l)"
  by (simp_all add: getMetrics_def)

lemma one_down_simps:
  "library one_down = sample_lib" "connectStrings one_down = [target_a]" "entries one_down = getMetrics sample_lib"
  "connect_result one_down i = Some (ConnectError ''refused'')" "render one_down = sample_render"
  by (simp_all add: one_down_def)

lemma one_up_simps:
  "library one_up = sample_lib" "connectStrings one_up = [target_a]" "entries one_up = getMetrics sample_lib"
  "connect_result one_up i = None" "query_result one_up i name = Inl (QueryError ''connection lost'')"
  "render one_up = sample_render"
  by (simp_all add: one_up_def failing_results_def)

lemma two_targets_simps:
  "library two_targets = sample_lib" "connectStrings two_targets = [target_a, target_b]"
  "entries two_targets = getMetrics sample_lib"
  "connect_result two_targets i = None" "query_result two_targets = sample_results"
  "render two_targets = sample_render"
  by (simp_all add: two_targets_def)

lemma up_down_one_down: "up_down one_down t r = (Inr (), AList.update (up_key t) (JNum 0) r)"
  by (simp add: one_down_def up_down_exporter)

lemma one_down_run: "run one_down [Connect 0, Send] empty_world = Some one_down_final"
  by (simp add: run_def init_def connect_def one_down_simps up_down_one_down
      empty_world_def one_down_final_def up_key_def target_a_def sample_render_def sample_lib_def digit_char_def)

lemma one_target_simps:
  "library one_target = sample_lib" "connectStrings one_target = [target_a]" "entries one_target = getMetrics sample_lib"
  "connect_result one_target i = None" "query_result one_target = sample_results"
  "render one_target = sample_render"
  by (simp_all add: one_target_def)

lemma two_collectors_simps:
  "library two_collectors = sample_lib" "connectStrings two_collectors = [target_a]"
  "entries two_collectors = [(''mssql_up'', mssql_up sample_lib), (''mssql_buffer_manager'', mssql_buffer_manager sample_lib)]"
  "connect_result two_collectors i = None"
  "query_result two_collectors i ''mssql_up'' = Inl (QueryError ''timeout'')"
  "query_result two_collectors i ''mssql_buffer_manager'' = Inr [[JNum 5, JNum 6, JNum 7, JNum 8, JNum 9]]"
  "render two_collectors = sample_render"
  by (simp_all add: two_collectors_def)

lemma show_digits [simp]:
  "show_nat 0 = ''0''" "show_nat 1 = ''1''" "show_nat 5 = ''5''" "show_nat 6 = ''6''" "show_nat 7 = ''7''"
  "show_nat 8 = ''8''" "show_nat 9 = ''9''"
  by (simp_all add: digit_char_def)

lemma buffer_manager_sample:
  "mssql_buffer_manager_collect sample_lib [[JNum 5, JNum 6, JNum 7, JNum 8, JNum 9]] mssql_buffer_manager_metrics
      (JStr ''a'') JUndefined [] =
   (Inr (),
    [((''mssql_page_read_total'', [(''host'', JStr ''a'')]), JNum 5),
     ((''mssql_page_write_total'', [(''host'', JStr ''a'')]), JNum 6),
     ((''mssql_page_life_expectancy'', [(''host'', JStr ''a'')]), JNum 7),
     ((''mssql_page_checkpoint_total'', [(''host'', JStr ''a'')]), JNum 9),
     ((''mssql_lazy_write_total'', [(''host'', JStr ''a'')]), JNum 8)])"
  by (simp add: mssql_buffer_manager_collect_def mssql_buffer_manager_metrics_def metric_set_def gauge_set_def
      valid_labels_def cell_def bind_eff_def return_eff_def)

lemma buffer_manager_rendered:
  "sample_render
     [((''mssql_page_read_total'', [(''host'', JStr ''a'')]), JNum 5),
      ((''mssql_page_write_total'', [(''host'', JStr ''a'')]), JNum 6),
      ((''mssql_page_life_expectancy'', [(''host'', JStr ''a'')]), JNum 7),
      ((''mssql_page_checkpoint_total'', [(''host'', JStr ''a'')]), JNum 9),
      ((''mssql_lazy_write_total'', [(''host'', JStr ''a'')]), JNum 8)] =
   ''mssql_page_read_total 5; mssql_page_write_total 6; mssql_page_life_expectancy 7; '' @
   ''mssql_page_checkpoint_total 9; mssql_lazy_write_total 8; ''"
  by (simp add: sample_render_def sample_lib_def digit_char_def)

lemma two_collectors_full_run:
  "run two_collectors [Connect 0, Complete 0 ''mssql_buffer_manager'', Complete 0 ''mssql_up'', Close 0, Send]
     empty_world = Some two_collectors_final"
  by (simp add: run_def init_def connect_def collect_def two_collectors_simps empty_world_def
      measure_v2_rejected measure_v2_rows mssql_buffer_manager_def mssql_up_def buffer_manager_sample target_a_def
      two_collectors_final_def buffer_manager_rendered)

lemma same_host_simps:
  "library same_host = sample_lib" "connectStrings same_host = [target_a, target_a]"
  "entries same_host = getMetrics sample_lib"
  "connect_result same_host i = None" "query_result same_host = quiet_results"
  "render same_host = sample_render"
  by (simp_all add: same_host_def)

lemma one_quiet_simps:
  "library one_quiet = sample_lib" "connectStrings one_quiet = [target_a]"
  "entries one_quiet = getMetrics sample_lib"
  "connect_result one_quiet i = None" "query_result one_quiet = quiet_results"
  "render one_quiet = sample_render"
  by (simp_all add: one_quiet_def)

text \<open>The two collectors that find rows on a quiet server.\<close>

lemma up_sample:
  "mssql_up_collect l [[JNum 1]] mssql_up_metrics (JStr h) JUndefined r =
     (Inr (), AList.update (''mssql_up'', [(''host'', JStr h)]) (JNum 1) r)"
  by (simp add: mssql_up_collect_def mssql_up_metrics_def metric_set_def gauge_set_def valid_labels_def cell_def)

lemma deadlocks_sample:
  "mssql_deadlocks_collect l [[JNum n]] mssql_deadlocks_metrics (JStr h) JUndefined r =
     (Inr (), AList.update (''mssql_deadlocks'', [(''host'', JStr h)]) (JNum n) r)"
  by (simp add: mssql_deadlocks_collect_def mssql_deadlocks_metrics_def metric_set_def gauge_set_def
      valid_labels_def cell_def)

lemma up_down_sample:
  "up_down (exporter sample_lib ts cr qr rd) t r =
     (Inr (), AList.update (''mssql_up'', [(''host'', JStr (server t))]) (JNum 0) r)"
  by (simp add: up_down_exporter up_key_def)

lemmas quiet_eval = in_order_def run_def init_def connect_def collect_getMetrics
  getMetrics_lookup empty_world_def quiet_results_def measure_v2_rows measure_v2_no_rows target_a_def
  target_b_def mssql_up_def mssql_deadlocks_def up_sample deadlocks_sample sample_render_def


lemma two_collectors_run: "run two_collectors [Connect 0] empty_world = Some two_collectors_connected"
  by (simp add: run_def init_def two_collectors_simps two_collectors_connected_def connect_def collect_def)

lemma catalogue_ok_two_collectors: "catalogue_ok (entries two_collectors)"
  using mssql_up_slot [of sample_lib] mssql_buffer_manager_slot [of sample_lib]
  by (simp add: catalogue_ok_def two_collectors_simps)

lemma down_then_up_simps:
  "library down_then_up = sample_lib" "connectStrings down_then_up = [target_a, target_b]"
  "entries down_then_up = getMetrics sample_lib"
  "connect_result down_then_up = refused_first" "query_result down_then_up = quiet_results"
  "render down_then_up = sample_render"
  by (simp_all add: down_then_up_def)

lemma down_then_up_same_host_simps:
  "library down_then_up_same_host = sample_lib" "connectStrings down_then_up_same_host = [target_a, target_a]"
  "entries down_then_up_same_host = getMetrics sample_lib"
  "connect_result down_then_up_same_host = refused_first" "query_result down_then_up_same_host = quiet_results"
  "render down_then_up_same_host = sample_render"
  by (simp_all add: down_then_up_same_host_def)

lemma show_hundreds [simp]: "show_nat 100 = ''100''" "show_nat 101 = ''101''"
  by (simp_all add: digit_char_def)

lemma up_down_refused:
  "up_down down_then_up t r = (Inr (), AList.update (''mssql_up'', [(''host'', JStr (server t))]) (JNum 0) r)"
  "up_down down_then_up_same_host t r =
     (Inr (), AList.update (''mssql_up'', [(''host'', JStr (server t))]) (JNum 0) r)"
  by (simp_all add: down_then_up_def down_then_up_same_host_def up_down_sample)

section \<open>Which target-collector pair owns a sample\<close>

lemma contrib_owner:
  assumes "contrib (exporter l ts cr qr rd) j m k = Some v"
  shows "\<exists>c. (m, c) \<in> set (getMetrics l) \<and> fst k \<in> set (gauge_names (c_metrics c))
             \<and> map_of (snd k) ''host'' = Some (JStr (server (ts ! j)))"
proof -
  have "slot_write (exporter l ts cr qr rd) j m (k, v)"
    using assms by (intro contrib_slot_write) (simp_all add: catalogue_ok_getMetrics)
  then show ?thesis
    by (auto simp: slot_write_def host_write_def split: option.splits dest: map_of_SomeD)
qed

lemma contrib_same_owner:
  assumes "contrib (exporter l ts cr qr rd) j m k = Some v"
    and "contrib (exporter l ts cr qr rd) j' m' k = Some v'"
  shows "m' = m \<and> server (ts ! j') = server (ts ! j)"
proof -
  obtain c where c: "(m, c) \<in> set (getMetrics l)" "fst k \<in> set (gauge_names (c_metrics c))"
    "map_of (snd k) ''host'' = Some (JStr (server (ts ! j)))"
    using contrib_owner [OF assms(1)] by blast
  obtain c' where c': "(m', c') \<in> set (getMetrics l)" "fst k \<in> set (gauge_names (c_metrics c'))"
    "map_of (snd k) ''host'' = Some (JStr (server (ts ! j')))"
    using contrib_owner [OF assms(2)] by blast
  have "m' = m" using gauge_owner_unique [OF c'(1,2) c(1,2)] .
  then show ?thesis using c(3) c'(3) by simp
qed

lemma contrib_up_owner:
  assumes "contrib (exporter l ts cr qr rd) j m (up_key t) = Some v"
  shows "m = ''mssql_up'' \<and> server (ts ! j) = server t"
proof -
  obtain c where c: "(m, c) \<in> set (getMetrics l)" "fst (up_key t) \<in> set (gauge_names (c_metrics c))"
    "map_of (snd (up_key t)) ''host'' = Some (JStr (server (ts ! j)))"
    using contrib_owner [OF assms] by blast
  have "m = ''mssql_up''" using up_gauge_owner [OF c(1)] c(2) by (simp add: up_key_def)
  then show ?thesis using c(3) by (simp add: up_key_def)
qed

text \<open>What a target's availability collector contributes to the target's sample.\<close>

lemma contrib_up:
  "contrib (exporter l ts cr qr rd) i ''mssql_up'' (up_key (ts ! i)) =
     (case cr i of
        Some e \<Rightarrow> Some (JNum 0)
      | None \<Rightarrow>
          (case qr i ''mssql_up'' of
             Inl e \<Rightarrow> None
           | Inr [] \<Rightarrow> None
           | Inr (r # rs) \<Rightarrow> if valid_value l (cell r 0) then Some (cell r 0) else None))"
  by (auto simp: contrib_def slot_action_def mapping_def getMetrics_up up_down_exporter return_eff_apply
      throw_apply mssql_up_def mssql_up_collect_def mssql_up_metrics_def metric_set_def gauge_set_def
      valid_labels_def up_key_def
      split: option.splits sum.splits list.splits)

lemma contrib_down:
  "cr i = Some err \<Longrightarrow>
   contrib (exporter l ts cr qr rd) i m k =
     (if m = ''mssql_up'' \<and> k = up_key (ts ! i) then Some (JNum 0) else None)"
  by (simp add: contrib_def slot_action_def up_down_exporter return_eff_apply)

section \<open>The order of events in a scrape\<close>

lemma before_append_old: "y \<in> set tr \<Longrightarrow> before x y (tr @ tr') = before x y tr"
  by (simp add: before_def takeWhile_append1)

lemma before_append_notin: "y \<notin> set tr' \<Longrightarrow> before x y (tr @ tr') = before x y tr"
  by (cases "y \<in> set tr") (simp_all add: before_def takeWhile_append1)

lemma takeWhile_all: "y \<notin> set tr \<Longrightarrow> takeWhile (\<lambda>z. z \<noteq> y) tr = tr"
  by (induction tr) auto

lemma before_snoc:
  "before x y (tr @ [z]) = (if y \<in> set tr then before x y tr else z = y \<and> x \<in> set tr)"
proof (cases "y \<in> set tr")
  case True
  then show ?thesis by (simp add: before_append_old)
next
  case False
  have "takeWhile (\<lambda>z. z \<noteq> y) (tr @ [z]) = tr @ takeWhile (\<lambda>z. z \<noteq> y) [z]"
    using False by (intro takeWhile_append2) auto
  then show ?thesis using False by (auto simp: before_def)
qed

lemma before_imp_mem: "before x y tr \<Longrightarrow> x \<in> set tr \<and> y \<in> set tr"
  by (auto simp: before_def dest: set_takeWhileD)

lemma attempts_append [simp]: "attempts (tr @ tr') = attempts tr @ attempts tr'"
  by (induction tr rule: attempts.induct) auto

lemma attempts_Issued [simp]: "attempts (map (\<lambda>(j, name). Issued j name) ps) = []"
  by (induction ps) auto

lemma count_list_Issued [simp]: "count_list (map (\<lambda>(j, name). Issued j name) ps) (Closed i) = 0"
  by (induction ps) auto

lemma Issued_in_collect [simp]:
  "Issued j name \<in> (\<lambda>(j, name). Issued j name) ` set (collect i es) \<longleftrightarrow> j = i \<and> name \<in> fst ` set es"
  by (force simp: collect_def)

lemma not_Issued_in_collect [simp]:
  "Settled j name \<notin> (\<lambda>(j, name). Issued j name) ` A"
  "Closed j \<notin> (\<lambda>(j, name). Issued j name) ` A"
  "Attempted j \<notin> (\<lambda>(j, name). Issued j name) ` A"
  "Sent \<notin> (\<lambda>(j, name). Issued j name) ` A"
  by auto

lemma in_collect [simp]: "(j, name) \<in> set (collect i es) \<longleftrightarrow> j = i \<and> name \<in> fst ` set es"
  by (force simp: collect_def)

lemma issued_iff:
  assumes "run sc es w = Some s"
  shows "Issued i name \<in> set (trace s) \<longleftrightarrow>
           i < pc s \<and> connect_result sc i = None \<and> name \<in> set (names sc)"
  using assms
proof (induction rule: run_induct)
  case init
  then show ?case by (simp add: init_def)
next
  case (step es' t e t')
  from step.hyps(2) show ?case
  proof (cases rule: step_cases)
    case (connected j)
    then show ?thesis
      using step.IH by (cases "i = j") (auto simp: names_def)
  next
    case (down j err reg)
    then show ?thesis using step.IH by (cases "i = j") auto
  next
    case (crashed j err thrown reg)
    then show ?thesis using step.IH by (cases "i = j") auto
  qed (use step.IH in auto)
qed

lemma settled_imp:
  assumes "run sc es w = Some s" and "Settled i name \<in> set (trace s)"
  shows "i < pc s \<and> connect_result sc i = None \<and> name \<in> set (names sc)"
  using assms
proof (induction rule: run_induct)
  case init
  then show ?case by (simp add: init_def)
next
  case (step es' t e t')
  have inv: "inv sc t" using step.hyps(1) by (rule inv_run)
  from step.hyps(2) show ?case
  proof (cases rule: step_cases)
    case (complete j m c)
    have "j < pc t" "connect_result sc j = None" "m \<in> set (names sc)"
      using inv complete(2) by (auto simp: inv_def)
    then show ?thesis using step.IH step.prems complete by auto
  qed (use step.IH step.prems in \<open>auto simp: less_Suc_eq\<close>)
qed

lemma done_settled:
  assumes "run sc es w = Some s"
    and "i < pc s" "connect_result sc i = None" "name \<in> set (names sc)" "(i, name) \<notin> set (inflight s)"
  shows "Settled i name \<in> set (trace s)"
  using assms
proof (induction rule: run_induct)
  case init
  then show ?case by (simp add: init_def)
next
  case (step es' t e t')
  from step.hyps(2) show ?case
  proof (cases rule: step_cases)
    case (connected j)
    then show ?thesis
      using step.IH step.prems by (cases "i = j") (auto simp: names_def)
  next
    case (down j err reg)
    then show ?thesis using step.IH step.prems by (cases "i = j") auto
  next
    case (crashed j err thrown reg)
    then show ?thesis using step.IH step.prems by (cases "i = j") auto
  next
    case (complete j m c)
    show ?thesis
    proof (cases "(i, name) = (j, m)")
      case True
      then show ?thesis using complete by simp
    next
      case False
      then have "(i, name) \<notin> set (inflight t)"
        using step.prems(4) complete(4) by (metis in_set_remove1 select_convs(3) surjective update_convs(1,3,4,8))
      then show ?thesis using step.IH step.prems complete by simp
    qed
  qed (use step.IH step.prems in auto)
qed

lemma closed_iff:
  assumes "run sc es w = Some s"
  shows "Closed i \<in> set (trace s) \<longleftrightarrow> i < pc s \<and> connect_result sc i = None \<and> i \<notin> set (opened s)"
  using assms
proof (induction rule: run_induct)
  case init
  then show ?case by (simp add: init_def)
next
  case (step es' t e t')
  have inv: "inv sc t" using step.hyps(1) by (rule inv_run)
  from step.hyps(2) show ?case
  proof (cases rule: step_cases)
    case (connected j)
    have "j \<notin> set (opened t)" using inv connected(4) by (auto simp: inv_def)
    then show ?thesis
      using step.IH connected by (cases "i = j") auto
  next
    case (down j err reg)
    have "j \<notin> set (opened t)" using inv down(4) by (auto simp: inv_def)
    then show ?thesis using step.IH down by (cases "i = j") auto
  next
    case (crashed j err thrown reg)
    have "j \<notin> set (opened t)" using inv crashed(4) by (auto simp: inv_def)
    then show ?thesis using step.IH crashed by (cases "i = j") auto
  next
    case (close j)
    have j: "j < pc t" "connect_result sc j = None" "distinct (opened t)"
      using inv close(2) by (auto simp: inv_def)
    then show ?thesis using step.IH close by (cases "i = j") auto
  qed (use step.IH in auto)
qed

lemma closed_once:
  assumes "run sc es w = Some s"
  shows "count_list (trace s) (Closed i) \<le> 1"
  using assms
proof (induction rule: run_induct)
  case init
  then show ?case by (simp add: init_def)
next
  case (step es' t e t')
  from step.hyps(2) show ?case
  proof (cases rule: step_cases)
    case (close j)
    have "Closed j \<notin> set (trace t)"
      using closed_iff [OF step.hyps(1), of j] close(2) by simp
    then have "count_list (trace t) (Closed j) = 0" by (simp add: count_list_0_iff)
    then show ?thesis using step.IH close by (cases "i = j") auto
  qed (use step.IH in auto)
qed

lemma attempts_in_order:
  assumes "run sc es w = Some s"
  shows "attempts (trace s) = [0 ..< pc s]"
  using assms
proof (induction rule: run_induct)
  case init
  then show ?case by (simp add: init_def)
next
  case (step es' t e t')
  from step.hyps(2) show ?case
    by (cases rule: step_cases) (use step.IH in auto)
qed

lemma trace_members_run: "run sc es w = Some s \<Longrightarrow> trace_members sc s"
  unfolding trace_members_def
  using issued_iff settled_imp done_settled closed_iff closed_once attempts_in_order
  by (intro conjI allI impI) (blast | metis)+

lemma trace_order_init: "trace_order sc (init w)"
  by (simp add: trace_order_def init_def before_def)

lemma trace_orderI:
  assumes "\<And>i name name'. Settled i name' \<in> set (trace s) \<Longrightarrow> name \<in> set (names sc) \<Longrightarrow>
             before (Issued i name) (Settled i name') (trace s)"
    and "\<And>i name. Closed i \<in> set (trace s) \<Longrightarrow> name \<in> set (names sc) \<Longrightarrow>
             before (Settled i name) (Closed i) (trace s)"
    and "\<And>i name. \<not> before (Closed i) (Settled i name) (trace s)"
  shows "trace_order sc s"
  using assms unfolding trace_order_def by blast

lemma trace_order_step:
  assumes "inv sc s" and "trace_members sc s" and "trace_order sc s" and "step sc e s = Some s'"
  shows "trace_order sc s'"
proof -
  have o1: "\<And>j n m. Settled j m \<in> set (trace s) \<Longrightarrow> n \<in> set (names sc) \<Longrightarrow>
             before (Issued j n) (Settled j m) (trace s)"
    and o2: "\<And>j n. Closed j \<in> set (trace s) \<Longrightarrow> n \<in> set (names sc) \<Longrightarrow>
             before (Settled j n) (Closed j) (trace s)"
    and o3: "\<And>j m. \<not> before (Closed j) (Settled j m) (trace s)"
    using assms(3) unfolding trace_order_def by blast+
  have keep: "trace_order sc s'" if tr: "trace s' = trace s @ new"
    and n1: "\<And>j m. Settled j m \<notin> set new" and n2: "\<And>j. Closed j \<notin> set new" for new
  proof (rule trace_orderI)
    fix j n m
    assume "Settled j m \<in> set (trace s')" "n \<in> set (names sc)"
    then show "before (Issued j n) (Settled j m) (trace s')"
      using o1 [of j m n] n1 [of j m] by (simp add: tr before_append_notin)
  next
    fix j n
    assume "Closed j \<in> set (trace s')" "n \<in> set (names sc)"
    then show "before (Settled j n) (Closed j) (trace s')"
      using o2 [of j n] n2 [of j] by (simp add: tr before_append_notin)
  next
    fix j m
    show "\<not> before (Closed j) (Settled j m) (trace s')"
      using o3 [of j m] n1 [of j m] by (simp add: tr before_append_notin)
  qed
  from assms(4) show ?thesis
  proof (cases rule: step_cases)
    case (connected i)
    have "trace s' = trace s @ Attempted i # map (\<lambda>(j, name). Issued j name) (collect i (entries sc))"
      using connected by simp
    then show ?thesis by (rule keep) auto
  next
    case (down i err reg)
    have "trace s' = trace s @ [Attempted i]" using down by simp
    then show ?thesis by (rule keep) auto
  next
    case (crashed i err thrown reg)
    have "trace s' = trace s @ [Attempted i]" using crashed by simp
    then show ?thesis by (rule keep) auto
  next
    case send
    have "trace s' = trace s @ [Sent]" using send by simp
    then show ?thesis by (rule keep) auto
  next
    case (complete i name c)
    have i: "i < pc s" "connect_result sc i = None" "i \<in> set (opened s)"
      using assms(1) complete(2) by (auto simp: inv_def)
    have tr: "trace s' = trace s @ [Settled i name]" using complete by simp
    have issued: "n \<in> set (names sc) \<Longrightarrow> Issued i n \<in> set (trace s)" for n
      using assms(2) i unfolding trace_members_def by blast
    have notclosed: "Closed i \<notin> set (trace s)"
      using assms(2) i unfolding trace_members_def by blast
    show ?thesis
    proof (rule trace_orderI)
      fix j n m
      assume a: "Settled j m \<in> set (trace s')" "n \<in> set (names sc)"
      show "before (Issued j n) (Settled j m) (trace s')"
      proof (cases "Settled j m \<in> set (trace s)")
        case True
        then show ?thesis using o1 [OF True a(2)] by (simp add: tr before_append_old)
      next
        case False
        then have "j = i" "m = name" using a(1) by (auto simp: tr)
        then show ?thesis using False issued [OF a(2)] by (simp add: tr before_snoc)
      qed
    next
      fix j n
      assume a: "Closed j \<in> set (trace s')" "n \<in> set (names sc)"
      then have "Closed j \<in> set (trace s)" by (simp add: tr)
      then show "before (Settled j n) (Closed j) (trace s')"
        using o2 [of j n] a(2) by (simp add: tr before_append_old)
    next
      fix j m
      show "\<not> before (Closed j) (Settled j m) (trace s')"
      proof (cases "Settled j m \<in> set (trace s)")
        case True
        then show ?thesis using o3 [of j m] by (simp add: tr before_append_old)
      next
        case False
        show ?thesis
        proof (cases "j = i")
          case True
          then show ?thesis using False notclosed by (simp add: tr before_snoc)
        next
          case False
          then show ?thesis using \<open>Settled j m \<notin> set (trace s)\<close> by (simp add: tr before_snoc)
        qed
      qed
    qed
  next
    case (close i)
    have i: "i < pc s" "connect_result sc i = None"
      using assms(1) close(2) by (auto simp: inv_def)
    have tr: "trace s' = trace s @ [Closed i]" using close by simp
    have none: "(i, n) \<notin> set (inflight s)" for n
      using close(3) assms(1) by (auto simp: inv_def list_all_iff)
    have settled: "n \<in> set (names sc) \<Longrightarrow> Settled i n \<in> set (trace s)" for n
      using assms(2) i none unfolding trace_members_def by blast
    show ?thesis
    proof (rule trace_orderI)
      fix j n m
      assume a: "Settled j m \<in> set (trace s')" "n \<in> set (names sc)"
      then have "Settled j m \<in> set (trace s)" by (simp add: tr)
      then show "before (Issued j n) (Settled j m) (trace s')"
        using o1 [of j m n] a(2) by (simp add: tr before_append_old)
    next
      fix j n
      assume a: "Closed j \<in> set (trace s')" "n \<in> set (names sc)"
      show "before (Settled j n) (Closed j) (trace s')"
      proof (cases "Closed j \<in> set (trace s)")
        case True
        then show ?thesis using o2 [OF True a(2)] by (simp add: tr before_append_old)
      next
        case False
        then have "j = i" using a(1) by (auto simp: tr)
        then show ?thesis using False settled [OF a(2)] by (simp add: tr before_snoc)
      qed
    next
      fix j m
      show "\<not> before (Closed j) (Settled j m) (trace s')"
        using o3 [of j m] by (simp add: tr before_append_notin)
    qed
  qed
qed

lemma trace_order_run: "run sc es w = Some s \<Longrightarrow> trace_order sc s"
proof (induction rule: run_induct)
  case init
  then show ?case by (rule trace_order_init)
next
  case (step es' t e t')
  then show ?case using trace_order_step trace_members_run inv_run by blast
qed

section \<open>Every scrape can be finished\<close>

lemma drain_inflight:
  assumes "inv sc s" and "inflight s = ps"
  shows "\<exists>s1. exec sc (map (\<lambda>(j, name). Complete j name) ps) s = Some s1 \<and> inv sc s1
           \<and> inflight s1 = [] \<and> opened s1 = opened s \<and> pc s1 = pc s
           \<and> failed s1 = failed s \<and> response s1 = response s"
  using assms
proof (induction ps arbitrary: s)
  case Nil
  then show ?case by simp
next
  case (Cons p ps)
  obtain i name where p: "p = (i, name)" by (cases p)
  have mem: "(i, name) \<in> set (inflight s)" using Cons.prems(2) p by simp
  then have "name \<in> set (names sc)" using Cons.prems(1) by (auto simp: inv_def)
  then obtain c where c: "map_of (entries sc) name = Some c"
    by (metis names_def domIff dom_map_of_conv_image_fst list.set_map not_Some_eq)
  define s' where "s' = s\<lparr>world := snd (measure_v2 \<lparr>config = connectStrings sc ! i\<rparr> c name (query_result sc i name) (world s)),
             inflight := remove1 (i, name) (inflight s),
             unresolved := remove1 (i, name) (unresolved s),
             trace := trace s @ [Settled i name]\<rparr>"
  have st: "step sc (Complete i name) s = Some s'"
    unfolding s'_def by (rule step_Complete_enabled [OF mem c])
  have inv': "inv sc s'" using Cons.prems(1) st by (rule inv_step)
  have fl: "inflight s' = ps" using Cons.prems(2) p by (simp add: s'_def)
  obtain s1 where "exec sc (map (\<lambda>(j, name). Complete j name) ps) s' = Some s1" "inv sc s1"
    "inflight s1 = []" "opened s1 = opened s'" "pc s1 = pc s'" "failed s1 = failed s'" "response s1 = response s'"
    using Cons.IH [OF inv' fl] by blast
  then show ?case using st p by (auto simp: s'_def)
qed

lemma drain_opened:
  assumes "inv sc s" and "inflight s = []" and "opened s = os"
  shows "\<exists>s2. exec sc (map Close os) s = Some s2 \<and> inv sc s2
           \<and> inflight s2 = [] \<and> opened s2 = [] \<and> pc s2 = pc s
           \<and> failed s2 = failed s \<and> response s2 = response s
           \<and> world s2 = world s"
  using assms
proof (induction os arbitrary: s)
  case Nil
  then show ?case by simp
next
  case (Cons i os)
  have u: "unresolved s = []" using Cons.prems(1,2) by (simp add: inv_def)
  define s' where "s' = s\<lparr>opened := remove1 i (opened s), trace := trace s @ [Closed i]\<rparr>"
  have st: "step sc (Close i) s = Some s'"
    using Cons.prems(3) u by (simp add: s'_def)
  have inv': "inv sc s'" using Cons.prems(1) st by (rule inv_step)
  have "inflight s' = []" "opened s' = os"
    using Cons.prems(2,3) by (simp_all add: s'_def)
  then obtain s2 where "exec sc (map Close os) s' = Some s2" "inv sc s2"
    "inflight s2 = []" "opened s2 = []" "pc s2 = pc s'" "failed s2 = failed s'" "response s2 = response s'"
    "world s2 = world s'"
    using Cons.IH [OF inv'] by blast
  then show ?case using st by (auto simp: s'_def)
qed

lemma run_target_block:
  assumes "inv sc s" and "inflight s = []" and "opened s = []" and "failed s = None" and "response s = None"
    and "pc s < length (connectStrings sc)"
    and up: "\<And>t r. fst (up_down sc t r) = Inr ()"
  shows "\<exists>s3. exec sc (target_block sc (pc s)) s = Some s3 \<and> inv sc s3
           \<and> inflight s3 = [] \<and> opened s3 = [] \<and> pc s3 = Suc (pc s)
           \<and> failed s3 = None \<and> response s3 = None"
proof (cases "connect_result sc (pc s)")
  case None
  define s' where "s' = s\<lparr>pc := Suc (pc s),
                inflight := inflight s @ collect (pc s) (entries sc),
                unresolved := unresolved s @ collect (pc s) (entries sc),
                opened := opened s @ [pc s],
                trace := trace s @ Attempted (pc s) # map (\<lambda>(j, name). Issued j name) (collect (pc s) (entries sc))\<rparr>"
  have st: "step sc (Connect (pc s)) s = Some s'"
    using assms(4,5,6) None by (simp add: s'_def connect_def)
  have inv': "inv sc s'" using assms(1) st by (rule inv_step)
  have fl: "inflight s' = collect (pc s) (entries sc)" using assms(2) by (simp add: s'_def)
  obtain s1 where s1: "exec sc (map (\<lambda>(j, name). Complete j name) (collect (pc s) (entries sc))) s' = Some s1"
    "inv sc s1" "inflight s1 = []" "opened s1 = opened s'" "pc s1 = pc s'" "failed s1 = failed s'"
    "response s1 = response s'"
    using drain_inflight [OF inv' fl] by blast
  have op: "opened s1 = [pc s]" using s1(4) assms(3) by (simp add: s'_def)
  obtain s2 where s2: "exec sc (map Close [pc s]) s1 = Some s2" "inv sc s2"
    "inflight s2 = []" "opened s2 = []" "pc s2 = pc s1" "failed s2 = failed s1" "response s2 = response s1"
    using drain_opened [OF s1(2) s1(3) op] by blast
  have "exec sc (target_block sc (pc s)) s = Some s2"
    using st s1(1) s2(1) None by (simp add: target_block_def exec_append)
  then show ?thesis
    using s2 s1 assms(4,5) by (auto simp: s'_def)
next
  case (Some err)
  obtain reg where u: "up_down sc (connectStrings sc ! pc s) (registry (world s)) = (Inr (), reg)"
    using up [of "connectStrings sc ! pc s" "registry (world s)"]
    by (cases "up_down sc (connectStrings sc ! pc s) (registry (world s))") auto
  define s' where "s' = s\<lparr>world := (world s)\<lparr>registry := reg\<rparr>, pc := Suc (pc s),
                            trace := trace s @ [Attempted (pc s)]\<rparr>"
  have st: "step sc (Connect (pc s)) s = Some s'"
    using assms(4,5,6) Some u by (simp add: s'_def connect_def)
  have inv': "inv sc s'" using assms(1) st by (rule inv_step)
  have "exec sc (target_block sc (pc s)) s = Some s'"
    using st Some by (simp add: target_block_def)
  then show ?thesis
    using inv' assms(2,3,4,5) by (auto simp: s'_def)
qed

lemma run_remaining:
  assumes "inv sc s" and "inflight s = []" and "opened s = []" and "failed s = None" and "response s = None"
    and "length (connectStrings sc) - pc s = k"
    and up: "\<And>t r. fst (up_down sc t r) = Inr ()"
  shows "\<exists>s4. exec sc (remaining sc (pc s)) s = Some s4 \<and> inv sc s4
           \<and> inflight s4 = [] \<and> opened s4 = [] \<and> pc s4 = length (connectStrings sc)
           \<and> failed s4 = None \<and> response s4 = None"
  using assms(1-6)
proof (induction k arbitrary: s)
  case 0
  then have "pc s = length (connectStrings sc)" by (simp add: inv_def)
  then show ?case using 0 by (simp add: remaining_def)
next
  case (Suc k)
  then have lt: "pc s < length (connectStrings sc)" by simp
  obtain s3 where s3: "exec sc (target_block sc (pc s)) s = Some s3" "inv sc s3"
    "inflight s3 = []" "opened s3 = []" "pc s3 = Suc (pc s)" "failed s3 = None" "response s3 = None"
    using run_target_block [OF Suc.prems(1-5) lt up] by blast
  have k: "length (connectStrings sc) - pc s3 = k" using Suc.prems(6) s3(5) by simp
  obtain s4 where s4: "exec sc (remaining sc (pc s3)) s3 = Some s4" "inv sc s4"
    "inflight s4 = []" "opened s4 = []" "pc s4 = length (connectStrings sc)" "failed s4 = None"
    "response s4 = None"
    using Suc.IH [OF s3(2,3,4,6,7) k] by blast
  have "remaining sc (pc s) = target_block sc (pc s) @ remaining sc (Suc (pc s))"
    using lt by (simp add: remaining_def upt_conv_Cons)
  then have "exec sc (remaining sc (pc s)) s = Some s4"
    using s3(1,5) s4(1) by (simp add: exec_append)
  then show ?case using s4 by blast
qed

lemma finish_completes:
  assumes "inv sc s" and "failed s = None"
    and up: "\<And>t r. fst (up_down sc t r) = Inr ()"
  shows "\<exists>s'. exec sc (finish sc s) s = Some s' \<and> response s' = Some (render sc (registry (world s')))"
proof (cases "response s")
  case (Some x)
  then show ?thesis using assms(1) by (simp add: finish_def inv_def)
next
  case None
  obtain s1 where s1: "exec sc (map (\<lambda>(j, name). Complete j name) (inflight s)) s = Some s1" "inv sc s1"
    "inflight s1 = []" "opened s1 = opened s" "pc s1 = pc s" "failed s1 = failed s" "response s1 = response s"
    using drain_inflight [OF assms(1) refl] by blast
  obtain s2 where s2: "exec sc (map Close (opened s)) s1 = Some s2" "inv sc s2"
    "inflight s2 = []" "opened s2 = []" "pc s2 = pc s1" "failed s2 = failed s1" "response s2 = response s1"
    using drain_opened [OF s1(2) s1(3) s1(4)] by blast
  have f2: "failed s2 = None" "response s2 = None"
    using s2(6,7) s1(6,7) assms(2) None by simp_all
  obtain s4 where s4: "exec sc (remaining sc (pc s2)) s2 = Some s4" "inv sc s4"
    "inflight s4 = []" "opened s4 = []" "pc s4 = length (connectStrings sc)" "failed s4 = None"
    "response s4 = None"
    using run_remaining [OF s2(2,3,4) f2 refl up] by blast
  define s5 where "s5 = s4\<lparr>response := Some (render sc (registry (world s4))), trace := trace s4 @ [Sent]\<rparr>"
  have "step sc Send s4 = Some s5"
    using s4 by (simp add: s5_def)
  then have "exec sc (finish sc s) s = Some s5"
    using None s1(1) s2(1) s4(1) s1(5) s2(5) by (simp add: finish_def exec_append)
  then show ?thesis by (auto simp: s5_def)
qed

lemma exporter_never_fails:
  assumes "run (exporter l ts cr qr rd) es w = Some s"
  shows "failed s = None"
  using assms
proof (induction rule: run_induct)
  case init
  then show ?case by (simp add: init_def)
next
  case (step es' t e t')
  from step.hyps(2) show ?case
  proof (cases rule: step_cases)
    case (crashed i err thrown reg)
    then show ?thesis by (simp add: up_down_exporter)
  qed (use step.IH in auto)
qed

section \<open>The query-store collectors\<close>

lemma most_exec_query_throws:
  "mssql_most_exec_query_collect l rows metrics (JStr h) u =
     throw (TypeError ''Cannot read properties of undefined (reading options)'')"
  by (simp add: mssql_most_exec_query_collect_def)

lemma most_avg_time_query_throws:
  "mssql_most_avg_time_query_collect l rows metrics (JStr h) u =
     throw (TypeError ''Cannot read properties of undefined (reading options)'')"
  by (simp add: mssql_most_avg_time_query_collect_def)

lemma most_avg_io_query_throws:
  "mssql_most_avg_io_query_collect l rows metrics (JStr h) u =
     throw (TypeError ''Cannot read properties of undefined (reading options)'')"
  by (simp add: mssql_most_avg_io_query_collect_def)

lemma getMetrics_most_exec_query:
  "map_of (getMetrics l) ''mssql_most_exec_query'' = Some (mssql_most_exec_query l)"
  by (simp add: getMetrics_def)

lemma getMetrics_most_avg_time_query:
  "map_of (getMetrics l) ''mssql_most_avg_time_query'' = Some (mssql_most_avg_time_query l)"
  by (simp add: getMetrics_def)

lemma getMetrics_most_avg_io_query:
  "map_of (getMetrics l) ''mssql_most_avg_io_query'' = Some (mssql_most_avg_io_query l)"
  by (simp add: getMetrics_def)

lemma step_Complete_throwing:
  assumes "(i, name) \<in> set (inflight s)"
    and "map_of (entries sc) name = Some c"
    and "query_result sc i name = Inr (r # rs)"
    and "c_collect c (r # rs) (c_metrics c) (JStr (server (connectStrings sc ! i))) JUndefined = throw e"
  shows "step sc (Complete i name) s =
           Some (s\<lparr>world := (world s)\<lparr>console := console (world s) @ [ErrorProcessing name (c_query c) (r # rs) e]\<rparr>,
                   inflight := remove1 (i, name) (inflight s),
                   unresolved := remove1 (i, name) (unresolved s),
                   trace := trace s @ [Settled i name]\<rparr>)"
  using assms by (simp add: measure_v2_rows throw_apply)

text \<open>
  C9. On a reachable target the three query-store collectors never set a value when
  their query returns rows. \<open>measure\<close> passes the host string where they expect
  \<open>config\<close>, so \<open>config.connect\<close> is undefined and reading \<open>.options\<close> of it throws a
  TypeError before the first \<open>set\<close>, whatever the metric space holds. The error is caught
  and logged by \<open>measure\<close>: delivering the result changes the console only, takes this
  one query off the outstanding ones and leaves every other collector as it was.
\<close>

theorem query_store_collectors_never_set:
  assumes "name \<in> {''mssql_most_exec_query'', ''mssql_most_avg_time_query'', ''mssql_most_avg_io_query''}"
    and "qr i name = Inr (r # rs)"
    and "(i, name) \<in> set (inflight s)"
  shows "\<exists>c. map_of (getMetrics l) name = Some c
           \<and> c_collect c (r # rs) (c_metrics c) (JStr (server (ts ! i))) JUndefined
               = throw (TypeError ''Cannot read properties of undefined (reading options)'')
           \<and> step (exporter l ts cr qr rd) (Complete i name) s =
               Some (s\<lparr>world := (world s)\<lparr>console := console (world s) @
                                 [ErrorProcessing name (c_query c) (r # rs)
                                    (TypeError ''Cannot read properties of undefined (reading options)'')]\<rparr>,
                       inflight := remove1 (i, name) (inflight s),
                       unresolved := remove1 (i, name) (unresolved s),
                       trace := trace s @ [Settled i name]\<rparr>)"
proof -
  let ?sc = "exporter l ts cr qr rd"
  let ?e = "TypeError ''Cannot read properties of undefined (reading options)''"
  have sc: "entries ?sc = getMetrics l" "query_result ?sc i name = Inr (r # rs)" "connectStrings ?sc = ts"
    using assms(2) by (simp_all add: exporter_def)
  consider (a) "name = ''mssql_most_exec_query''" | (b) "name = ''mssql_most_avg_time_query''"
    | (c) "name = ''mssql_most_avg_io_query''"
    using assms(1) by blast
  then show ?thesis
  proof cases
    case a
    have m: "map_of (getMetrics l) name = Some (mssql_most_exec_query l)"
      using a getMetrics_most_exec_query by simp
    have t: "c_collect (mssql_most_exec_query l) (r # rs) (c_metrics (mssql_most_exec_query l))
               (JStr (server (ts ! i))) JUndefined = throw ?e"
      by (simp add: mssql_most_exec_query_def most_exec_query_throws)
    show ?thesis
      using m t step_Complete_throwing [OF assms(3), of ?sc "mssql_most_exec_query l" r rs ?e] sc
      by simp
  next
    case b
    have m: "map_of (getMetrics l) name = Some (mssql_most_avg_time_query l)"
      using b getMetrics_most_avg_time_query by simp
    have t: "c_collect (mssql_most_avg_time_query l) (r # rs) (c_metrics (mssql_most_avg_time_query l))
               (JStr (server (ts ! i))) JUndefined = throw ?e"
      by (simp add: mssql_most_avg_time_query_def most_avg_time_query_throws)
    show ?thesis
      using m t step_Complete_throwing [OF assms(3), of ?sc "mssql_most_avg_time_query l" r rs ?e] sc
      by simp
  next
    case c
    have m: "map_of (getMetrics l) name = Some (mssql_most_avg_io_query l)"
      using c getMetrics_most_avg_io_query by simp
    have t: "c_collect (mssql_most_avg_io_query l) (r # rs) (c_metrics (mssql_most_avg_io_query l))
               (JStr (server (ts ! i))) JUndefined = throw ?e"
      by (simp add: mssql_most_avg_io_query_def most_avg_io_query_throws)
    show ?thesis
      using m t step_Complete_throwing [OF assms(3), of ?sc "mssql_most_avg_io_query l" r rs ?e] sc
      by simp
  qed
qed

theorem query_store_collectors_never_set_witness:
  "''mssql_most_exec_query'' \<in> {''mssql_most_exec_query'', ''mssql_most_avg_time_query'', ''mssql_most_avg_io_query''}
   \<and> (\<lambda>i name. Inr [[JNum 7, JNum 3, JStr ''select'', JNum 12]]) (0::nat) ''mssql_most_exec_query''
        = (Inr ([JNum 7, JNum 3, JStr ''select'', JNum 12] # []) :: error + rows)
   \<and> (0, ''mssql_most_exec_query'') \<in> set (inflight (pending_state))
   \<and> (\<exists>s'. step (exporter sample_lib [target_a] (\<lambda>i. None)
                    (\<lambda>i name. Inr [[JNum 7, JNum 3, JStr ''select'', JNum 12]]) (\<lambda>m. []))
               (Complete 0 ''mssql_most_exec_query'') pending_state = Some s'
            \<and> registry (world s') = registry (world pending_state)
            \<and> inflight s' = [(0, ''mssql_up'')])"
proof -
  have h1: "''mssql_most_exec_query'' \<in> {''mssql_most_exec_query'', ''mssql_most_avg_time_query'', ''mssql_most_avg_io_query''}"
    by simp
  have h2: "(\<lambda>i name. Inr [[JNum 7, JNum 3, JStr ''select'', JNum 12]]) (0::nat) ''mssql_most_exec_query''
        = (Inr ([JNum 7, JNum 3, JStr ''select'', JNum 12] # []) :: error + rows)"
    by simp
  have h3: "(0, ''mssql_most_exec_query'') \<in> set (inflight pending_state)"
    by (simp add: pending_state_def)
  have r: "remove1 (0::nat, ''mssql_most_exec_query'') (inflight pending_state) = [(0, ''mssql_up'')]"
    by (simp add: pending_state_def)
  show ?thesis
    using query_store_collectors_never_set [OF h1 h2 h3, of sample_lib "[target_a]" "\<lambda>i. None" "\<lambda>m. []"]
      h1 h2 h3 r
    by (elim exE conjE) simp
qed

section \<open>The earlier revision of \<open>measure\<close>\<close>

text \<open>
  C10. In the sequential revision, when a query returns zero rows the callback throws a
  ReferenceError on the undefined variable \<open>error\<close> before it logs or resolves; the catch
  handler takes that error, logs it and resolves. So \<open>measure\<close> resolves, the console gets
  the catch handler's entry carrying the ReferenceError, and the metric space is
  unchanged.
\<close>

theorem measure_v1_no_rows_reference_error:
  "measure_then_v1 connection c name [] w = (Some (ReferenceError ''error is not defined''), False, w)
   \<and> measure_v1 connection c name (Inr []) w =
       (True, w\<lparr>console := console w @ [ErrorExecuting name (c_query c) (ReferenceError ''error is not defined'')]\<rparr>)
   \<and> registry (snd (measure_v1 connection c name (Inr []) w)) = registry w"
  by (simp add: measure_v1_def settle_def measure_then_v1_def measure_catch_def)

section \<open>Containment of collector failures\<close>

text \<open>
  C2, as the code has it. When the result of an outstanding query is delivered in a
  state the scrape can reach:
  \<^item> the promise of \<open>measure\<close> resolves, whatever the result was: the query leaves both
    the outstanding queries and the promises \<open>collect\<close> waits for, and once no query of
    that target is outstanding its connection can be closed;
  \<^item> a failed query is logged and leaves the metric space as it was;
  \<^item> an empty result is logged and leaves the metric space as it was;
  \<^item> a mapping function that throws is logged, and the metric space is left as the
    function left it at the throw: what it had set before stays set;
  \<^item> only this query leaves the outstanding ones, and each of the others can still be
    delivered afterwards;
  \<^item> with a catalogue whose mapping functions set only their own gauges under the host
    they are given (as the exporter's do), a sample that differs afterwards belongs to a
    gauge of this collector and carries the host of this target.
\<close>

theorem collector_failures_contained:
  assumes "run sc es w = Some s" and "(i, name) \<in> set (inflight s)"
  shows "\<exists>c s'. map_of (entries sc) name = Some c
           \<and> step sc (Complete i name) s = Some s'
           \<and> fst (measure_v2 \<lparr>config = connectStrings sc ! i\<rparr> c name (query_result sc i name) (world s)) = True
           \<and> inflight s' = remove1 (i, name) (inflight s)
           \<and> unresolved s' = remove1 (i, name) (unresolved s)
           \<and> unresolved s' = inflight s'
           \<and> (list_all (\<lambda>(j, m). j \<noteq> i) (inflight s') \<longrightarrow> step sc (Close i) s' \<noteq> None)
           \<and> (\<forall>p \<in> set (inflight s'). step sc (Complete (fst p) (snd p)) s' \<noteq> None)
           \<and> world s' =
               (case query_result sc i name of
                  Inl e \<Rightarrow> (world s)\<lparr>console := console (world s) @ [ErrorExecuting name (c_query c) e]\<rparr>
                | Inr [] \<Rightarrow> (world s)\<lparr>console := console (world s) @ [NoResults name (c_query c)]\<rparr>
                | Inr (r # rs) \<Rightarrow>
                    (case c_collect c (r # rs) (c_metrics c) (JStr (server (connectStrings sc ! i))) JUndefined
                            (registry (world s)) of
                       (Inr u, reg) \<Rightarrow> (world s)\<lparr>registry := reg\<rparr>
                     | (Inl e, reg) \<Rightarrow>
                         (world s)\<lparr>registry := reg,
                                   console := console (world s) @ [ErrorProcessing name (c_query c) (r # rs) e]\<rparr>))
           \<and> (catalogue_ok (entries sc) \<longrightarrow>
                (\<forall>k. map_of (registry (world s')) k \<noteq> map_of (registry (world s)) k \<longrightarrow>
                   fst k \<in> set (gauge_names (c_metrics c))
                   \<and> map_of (snd k) ''host'' = Some (JStr (server (connectStrings sc ! i)))))"
proof -
  obtain c where c: "map_of (entries sc) name = Some c"
    using inflight_known [OF assms] by blast
  define s' where "s' = s\<lparr>world := snd (measure_v2 \<lparr>config = connectStrings sc ! i\<rparr> c name (query_result sc i name) (world s)),
             inflight := remove1 (i, name) (inflight s),
             unresolved := remove1 (i, name) (unresolved s),
             trace := trace s @ [Settled i name]\<rparr>"
  have st: "step sc (Complete i name) s = Some s'"
    unfolding s'_def by (rule step_Complete_enabled [OF assms(2) c])
  have res: "fst (measure_v2 \<lparr>config = connectStrings sc ! i\<rparr> c name (query_result sc i name) (world s)) = True"
    by (rule measure_v2_resolves)
  have fl: "inflight s' = remove1 (i, name) (inflight s)"
    by (simp add: s'_def)
  have un: "unresolved s' = remove1 (i, name) (unresolved s)"
    by (simp add: s'_def)
  have run': "run sc (es @ [Complete i name]) w = Some s'"
    using assms(1) st by (simp add: run_def exec_snoc)
  have inv: "inv sc s" using assms(1) by (rule inv_run)
  have inv': "inv sc s'" using run' by (rule inv_run)
  have eq: "unresolved s' = inflight s'"
    using inv' by (simp add: inv_def)
  have op: "i \<in> set (opened s')"
    using inv assms(2) by (auto simp: inv_def s'_def)
  have cl: "list_all (\<lambda>(j, m). j \<noteq> i) (inflight s') \<longrightarrow> step sc (Close i) s' \<noteq> None"
    using op eq by simp
  have sib: "\<forall>p \<in> set (inflight s'). step sc (Complete (fst p) (snd p)) s' \<noteq> None"
  proof
    fix p assume p: "p \<in> set (inflight s')"
    then have "(fst p, snd p) \<in> set (inflight s')" by simp
    then obtain c' where "map_of (entries sc) (snd p) = Some c'"
      using inflight_known [OF run'] by blast
    then show "step sc (Complete (fst p) (snd p)) s' \<noteq> None"
      using step_Complete_enabled [of "fst p" "snd p" s' sc c'] p by simp
  qed
  have w': "world s' = snd (measure_v2 \<lparr>config = connectStrings sc ! i\<rparr> c name (query_result sc i name) (world s))"
    by (simp add: s'_def)
  have wd: "world s' =
               (case query_result sc i name of
                  Inl e \<Rightarrow> (world s)\<lparr>console := console (world s) @ [ErrorExecuting name (c_query c) e]\<rparr>
                | Inr [] \<Rightarrow> (world s)\<lparr>console := console (world s) @ [NoResults name (c_query c)]\<rparr>
                | Inr (r # rs) \<Rightarrow>
                    (case c_collect c (r # rs) (c_metrics c) (JStr (server (connectStrings sc ! i))) JUndefined
                            (registry (world s)) of
                       (Inr u, reg) \<Rightarrow> (world s)\<lparr>registry := reg\<rparr>
                     | (Inl e, reg) \<Rightarrow>
                         (world s)\<lparr>registry := reg,
                                   console := console (world s) @ [ErrorProcessing name (c_query c) (r # rs) e]\<rparr>))"
    unfolding w'
    by (auto simp: measure_v2_rejected measure_v2_no_rows measure_v2_rows
             split: sum.splits list.splits prod.splits)
  have fr: "fst k \<in> set (gauge_names (c_metrics c))
            \<and> map_of (snd k) ''host'' = Some (JStr (server (connectStrings sc ! i)))"
    if ok: "catalogue_ok (entries sc)" and ch: "map_of (registry (world s')) k \<noteq> map_of (registry (world s)) k" for k
  proof (rule ccontr)
    assume n: "\<not> (fst k \<in> set (gauge_names (c_metrics c))
            \<and> map_of (snd k) ''host'' = Some (JStr (server (connectStrings sc ! i))))"
    have "\<not> slot_write sc i name (k, v)" for v
      using n c by (simp add: slot_write_def host_write_def)
    then have "map_of (snd (mapping sc i name (registry (world s)))) k = map_of (registry (world s)) k"
      by (rule confined_frame [OF mapping_confined [OF ok]])
    then show False
      using ch by (simp add: w' registry_complete [OF c])
  qed
  show ?thesis
    using c st res fl un eq cl sib wd fr by blast
qed

theorem collector_failures_contained_witness:
  "run two_collectors [Connect 0] empty_world = Some two_collectors_connected
   \<and> (0, ''mssql_up'') \<in> set (inflight two_collectors_connected)
   \<and> catalogue_ok (entries two_collectors)
   \<and> (\<exists>s'. step two_collectors (Complete 0 ''mssql_up'') two_collectors_connected = Some s'
         \<and> registry (world s') = []
         \<and> console (world s') = [ErrorExecuting ''mssql_up'' mssql_up_query (QueryError ''timeout'')]
         \<and> inflight s' = [(0, ''mssql_buffer_manager'')]
         \<and> unresolved s' = [(0, ''mssql_buffer_manager'')]
         \<and> step two_collectors (Complete 0 ''mssql_buffer_manager'') s' \<noteq> None)"
proof -
  have h2: "(0, ''mssql_up'') \<in> set (inflight two_collectors_connected)"
    by (simp add: two_collectors_connected_def)
  have e: "map_of (entries two_collectors) ''mssql_up'' = Some (mssql_up sample_lib)"
    "query_result two_collectors 0 ''mssql_up'' = Inl (QueryError ''timeout'')"
    "remove1 (0, ''mssql_up'') (inflight two_collectors_connected) = [(0, ''mssql_buffer_manager'')]"
    "remove1 (0, ''mssql_up'') (unresolved two_collectors_connected) = [(0, ''mssql_buffer_manager'')]"
    "world two_collectors_connected = empty_world"
    by (simp_all add: two_collectors_simps two_collectors_connected_def)
  show ?thesis
    using collector_failures_contained [OF two_collectors_run h2] two_collectors_run h2 e
      catalogue_ok_two_collectors
    by (elim exE conjE) (simp add: empty_world_def mssql_up_def)
qed

text \<open>
  C2 as stated fails where it says that the instruments of a collector whose mapping
  function throws keep their previous values. The buffer-manager collector sets five
  gauges from one row; with a NULL in the second column the first gauge is set, then
  \<open>Gauge.set\<close> rejects the NULL and throws. \<open>measure\<close> logs the error, and
  \<open>mssql_page_read_total\<close>, unset before, now holds 5.
\<close>

theorem partial_write_survives_throw:
  "measure_v2 \<lparr>config = target_a\<rparr> (mssql_buffer_manager sample_lib) ''mssql_buffer_manager''
      (Inr [[JNum 5, JNull, JNum 1, JNum 1, JNum 1]]) empty_world =
   (True,
    \<lparr>registry = [((''mssql_page_read_total'', [(''host'', JStr ''a'')]), JNum 5)],
     console = [ErrorProcessing ''mssql_buffer_manager'' mssql_buffer_manager_query
                  [[JNum 5, JNull, JNum 1, JNum 1, JNum 1]] (TypeError ''Value is not a valid number'')]\<rparr>)"
  by (simp add: measure_v2_rows mssql_buffer_manager_def mssql_buffer_manager_collect_def
      mssql_buffer_manager_metrics_def metric_set_def gauge_set_def valid_labels_def cell_def
      bind_eff_def throw_def return_eff_def target_a_def empty_world_def)

section \<open>The values the collectors record\<close>






























subsection \<open>Cells passed on\<close>





















subsection \<open>The two collectors that convert\<close>




section \<open>What the collectors pass to the gauges\<close>




section \<open>Unreachable targets\<close>

lemma total_loss:
  assumes "run (exporter l ts cr qr rd) es w = Some s" and "\<And>i. i < length ts \<Longrightarrow> cr i \<noteq> None"
  shows "inflight s = [] \<and> opened s = []
         \<and> (\<forall>i < pc s. map_of (registry (world s)) (up_key (ts ! i)) = Some (JNum 0))
         \<and> (\<forall>k. fst k \<noteq> ''mssql_up'' \<longrightarrow> map_of (registry (world s)) k = map_of (registry w) k)"
  using assms(1)
proof (induction rule: run_induct)
  case init
  then show ?case by (simp add: init_def)
next
  case (step es' t e t')
  from step.hyps(2) show ?case
  proof (cases rule: step_cases)
    case (connected i)
    then show ?thesis using assms(2) [of i] by simp
  next
    case (down i err reg)
    have reg: "reg = AList.update (up_key (ts ! i)) (JNum 0) (registry (world t))"
      using down(7) by (simp add: up_down_exporter)
    show ?thesis
      using step.IH down(4,8)
      by (auto simp: reg AList.update_conv' less_Suc_eq up_key_def)
  next
    case (crashed i err thrown reg)
    then show ?thesis by (simp add: up_down_exporter)
  next
    case (complete i name c)
    then show ?thesis using step.IH by simp
  next
    case (close i)
    then show ?thesis using step.IH by simp
  next
    case send
    then show ?thesis using step.IH by simp
  qed
qed

text \<open>
  C3. The handler of the exporter never fails: in no state a scrape can reach has it
  thrown. From every such state the scrape can be brought to its end, where the response
  is the rendering of the metric space. And when every target's connection fails, a
  finished scrape has set the availability gauge to 0 for every target and has left every
  sample of every other gauge as it was.
\<close>

theorem handler_always_completes:
  assumes "run (exporter l ts cr qr rd) es w = Some s"
  shows "failed s = None
     \<and> (\<exists>s'. exec (exporter l ts cr qr rd) (finish (exporter l ts cr qr rd) s) s = Some s'
              \<and> response s' = Some (rd (registry (world s'))))
     \<and> ((\<forall>i < length ts. cr i \<noteq> None) \<and> response s \<noteq> None \<longrightarrow>
           (\<forall>i < length ts. map_of (registry (world s)) (up_key (ts ! i)) = Some (JNum 0))
         \<and> (\<forall>k. fst k \<noteq> ''mssql_up'' \<longrightarrow> map_of (registry (world s)) k = map_of (registry w) k))"
proof -
  let ?sc = "exporter l ts cr qr rd"
  have f: "failed s = None" using assms by (rule exporter_never_fails)
  have up: "\<And>t r. fst (up_down ?sc t r) = Inr ()" by (simp add: up_down_exporter)
  have "\<exists>s'. exec ?sc (finish ?sc s) s = Some s' \<and> response s' = Some (render ?sc (registry (world s')))"
    using finish_completes [OF inv_run [OF assms] f up] .
  then have p: "\<exists>s'. exec ?sc (finish ?sc s) s = Some s' \<and> response s' = Some (rd (registry (world s')))"
    by simp
  have "(\<forall>i < length ts. map_of (registry (world s)) (up_key (ts ! i)) = Some (JNum 0))
         \<and> (\<forall>k. fst k \<noteq> ''mssql_up'' \<longrightarrow> map_of (registry (world s)) k = map_of (registry w) k)"
    if "\<forall>i < length ts. cr i \<noteq> None" "response s \<noteq> None"
  proof -
    have "pc s = length ts" using finished_run(1) [OF assms that(2)] by simp
    then show ?thesis using total_loss [OF assms] that(1) by simp
  qed
  then show ?thesis using f p by blast
qed

theorem handler_always_completes_witness:
  "run (exporter sample_lib [target_a] (\<lambda>i. Some (ConnectError ''refused'')) sample_results sample_render)
       [Connect 0, Send] empty_world = Some one_down_final
   \<and> failed one_down_final = None
   \<and> response one_down_final = Some (sample_render (registry (world one_down_final)))
   \<and> map_of (registry (world one_down_final)) (up_key target_a) = Some (JNum 0)
   \<and> map_of (registry (world one_down_final)) (''mssql_connections'', []) = map_of (registry empty_world) (''mssql_connections'', [])"
proof -
  have r: "run (exporter sample_lib [target_a] (\<lambda>i. Some (ConnectError ''refused'')) sample_results sample_render)
       [Connect 0, Send] empty_world = Some one_down_final"
    using one_down_run by (simp add: one_down_def)
  have c: "\<forall>i < length [target_a]. (\<lambda>i. Some (ConnectError ''refused'')) i \<noteq> None" by simp
  have d: "response one_down_final \<noteq> None" by (simp add: one_down_final_def)
  have e: "response one_down_final = Some (sample_render (registry (world one_down_final)))"
    by (simp add: one_down_final_def sample_render_def sample_lib_def digit_char_def)
  have "failed one_down_final = None
     \<and> (\<forall>i < length [target_a]. map_of (registry (world one_down_final)) (up_key ([target_a] ! i)) = Some (JNum 0))
     \<and> (\<forall>k. fst k \<noteq> ''mssql_up'' \<longrightarrow>
            map_of (registry (world one_down_final)) k = map_of (registry empty_world) k)"
    using handler_always_completes [OF r] c d by blast
  then show ?thesis using r e by simp
qed

section \<open>A target whose connection fails\<close>

text \<open>
  C4, as the code has it. When the connection of target \<open>i\<close> fails, the only thing the
  handler does for that target is the catch block: in a state the scrape can reach, the
  connect step (possible only when the loop is at \<open>i\<close>) sets the availability gauge to 0
  under the label set \<open>{host: server}\<close>, moves the loop on, and changes nothing else. At
  no point of the scrape is a query of that target sent, outstanding or settled, none of
  its collectors can be delivered, and no connection of it is open or closed. And when no
  other configured target has the same host name, then in every state of the scrape
  \<^item> every sample that carries the host of \<open>i\<close>, other than its availability sample, is
    as it was when the scrape began;
  \<^item> the availability sample of \<open>i\<close> is as it was until the loop has passed \<open>i\<close>, and 0
    from then on.
\<close>

theorem connect_failure_only_marks_target_down:
  assumes "run (exporter l ts cr qr rd) es w = Some s" and "cr i = Some err"
  shows "step (exporter l ts cr qr rd) (Connect i) s =
           (if failed s = None \<and> response s = None \<and> i = pc s \<and> i < length ts
            then Some (s\<lparr>world := (world s)\<lparr>registry := AList.update (up_key (ts ! i)) (JNum 0) (registry (world s))\<rparr>,
                         pc := Suc i, trace := trace s @ [Attempted i]\<rparr>)
            else None)
     \<and> (\<forall>name. (i, name) \<notin> set (inflight s) \<and> Issued i name \<notin> set (trace s)
                \<and> Settled i name \<notin> set (trace s)
                \<and> step (exporter l ts cr qr rd) (Complete i name) s = None)
     \<and> i \<notin> set (opened s) \<and> Closed i \<notin> set (trace s)
     \<and> (i < length ts \<and> (\<forall>j < length ts. server (ts ! j) = server (ts ! i) \<longrightarrow> j = i) \<longrightarrow>
          (\<forall>k. map_of (snd k) ''host'' = Some (JStr (server (ts ! i))) \<and> k \<noteq> up_key (ts ! i) \<longrightarrow>
                map_of (registry (world s)) k = map_of (registry w) k)
          \<and> map_of (registry (world s)) (up_key (ts ! i)) =
              (if i < pc s then Some (JNum 0) else map_of (registry w) (up_key (ts ! i))))"
proof -
  let ?sc = "exporter l ts cr qr rd"
  have inv: "inv ?sc s" using assms(1) by (rule inv_run)
  have ok: "catalogue_ok (entries ?sc)" by (simp add: catalogue_ok_getMetrics)
  have cr: "connect_result ?sc i \<noteq> None" using assms(2) by simp
  have 1: "step ?sc (Connect i) s =
           (if failed s = None \<and> response s = None \<and> i = pc s \<and> i < length ts
            then Some (s\<lparr>world := (world s)\<lparr>registry := AList.update (up_key (ts ! i)) (JNum 0) (registry (world s))\<rparr>,
                         pc := Suc i, trace := trace s @ [Attempted i]\<rparr>)
            else None)"
  proof (cases "failed s = None \<and> response s = None \<and> i = pc s \<and> i < length ts")
    case True
    have "connect ?sc i = Inl err" using assms(2) by (simp add: connect_def)
    then show ?thesis using True by (simp add: up_down_exporter)
  next
    case False
    then show ?thesis by auto
  qed
  have fl: "(i, name) \<notin> set (inflight s)" for name
    using inv cr by (auto simp: inv_def)
  have 3: "Issued i name \<notin> set (trace s)" for name
    using issued_iff [OF assms(1), of i name] cr by simp
  have 4: "Settled i name \<notin> set (trace s)" for name
    using settled_imp [OF assms(1), of i name] cr by blast
  have 5: "step ?sc (Complete i name) s = None" for name
    using fl [of name] by simp
  have 6: "i \<notin> set (opened s)"
    using inv cr by (auto simp: inv_def)
  have 7: "Closed i \<notin> set (trace s)"
    using closed_iff [OF assms(1), of i] cr by simp
  have 8: "map_of (registry (world s)) k = map_of (registry w) k"
    if len: "i < length ts" and uniq: "\<forall>j < length ts. server (ts ! j) = server (ts ! i) \<longrightarrow> j = i"
      and host: "map_of (snd k) ''host'' = Some (JStr (server (ts ! i)))" and ne: "k \<noteq> up_key (ts ! i)" for k
  proof (rule untouched_key [OF ok assms(1)])
    fix j m
    assume j: "j < length (connectStrings ?sc)"
    show "contrib ?sc j m k = None"
    proof (rule ccontr)
      assume "contrib ?sc j m k \<noteq> None"
      then obtain v where v: "contrib ?sc j m k = Some v" by blast
      then have "map_of (snd k) ''host'' = Some (JStr (server (ts ! j)))"
        using contrib_owner by blast
      then have "j = i" using host uniq j by simp
      then show False
        using v ne assms(2) contrib_down [of cr i err l ts qr rd m k] by (simp split: if_splits)
    qed
  qed
  have other: "contrib ?sc j m (up_key (ts ! i)) = None"
    if "\<forall>j < length ts. server (ts ! j) = server (ts ! i) \<longrightarrow> j = i" "j < length ts"
       "(j, m) \<noteq> (i, ''mssql_up'')" for j m
  proof (rule ccontr)
    assume "contrib ?sc j m (up_key (ts ! i)) \<noteq> None"
    then obtain v where "contrib ?sc j m (up_key (ts ! i)) = Some v" by blast
    then have "m = ''mssql_up''" "server (ts ! j) = server (ts ! i)"
      using contrib_up_owner by blast+
    then show False using that by simp
  qed
  have 9: "map_of (registry (world s)) (up_key (ts ! i)) =
             (if i < pc s then Some (JNum 0) else map_of (registry w) (up_key (ts ! i)))"
    if len: "i < length ts" and uniq: "\<forall>j < length ts. server (ts ! j) = server (ts ! i) \<longrightarrow> j = i"
  proof (cases "i < pc s")
    case True
    have "map_of (registry (world s)) (up_key (ts ! i)) = Some (JNum 0)"
    proof (rule slot_value_kept [OF ok assms(1)])
      show "contrib ?sc i ''mssql_up'' (up_key (ts ! i)) = Some (JNum 0)"
        using assms(2) contrib_down [of cr i err l ts qr rd "''mssql_up''" "up_key (ts ! i)"] by simp
      show "i < pc s" by (rule True)
      show "(i, ''mssql_up'') \<notin> set (inflight s)" by (rule fl)
    qed (use other [OF uniq] in simp)
    then show ?thesis using True by simp
  next
    case False
    have le: "pc s \<le> length ts" using inv by (simp add: inv_def)
    have "map_of (registry (world s)) (up_key (ts ! i)) = map_of (registry w) (up_key (ts ! i))"
    proof (rule untouched_before [OF ok assms(1)])
      fix j m
      assume "j < pc s"
      then show "contrib ?sc j m (up_key (ts ! i)) = None"
        using other [OF uniq, of j m] False le by auto
    qed
    then show ?thesis using False by simp
  qed
  show ?thesis using 1 fl 3 4 5 6 7 8 9 by blast
qed

text \<open>Target \<open>a\<close> refuses the connection and target \<open>b\<close> answers; the metric space holds
  samples of an earlier scrape of \<open>a\<close>. At the end of the scrape the availability sample
  of \<open>a\<close> is 0 and its deadlock sample is the old one.\<close>

theorem connect_failure_only_marks_target_down_witness:
  "(case run down_then_up (in_order down_then_up) stale_world of
      None \<Rightarrow> False
    | Some s \<Rightarrow>
        connect_result down_then_up 0 = Some (ConnectError ''refused'')
        \<and> response s = Some ''mssql_up 0; mssql_deadlocks 7; mssql_up 1; mssql_deadlocks 101; ''
        \<and> pc s = 2
        \<and> map_of (registry (world s)) (up_key target_a) = Some (JNum 0)
        \<and> map_of (registry (world s)) (''mssql_deadlocks'', [(''host'', JStr ''a'')]) = Some (JNum 7)
        \<and> (0, ''mssql_up'') \<notin> set (inflight s) \<and> Issued 0 ''mssql_up'' \<notin> set (trace s))"
proof -
  have "\<exists>s. run down_then_up (in_order down_then_up) stale_world = Some s
           \<and> response s = Some ''mssql_up 0; mssql_deadlocks 7; mssql_up 1; mssql_deadlocks 101; ''
           \<and> pc s = 2"
    by (simp add: quiet_eval down_then_up_simps refused_first_def up_down_refused stale_world_def sample_lib_def digit_char_def)
  then obtain s where r: "run down_then_up (in_order down_then_up) stale_world = Some s"
    and s: "response s = Some ''mssql_up 0; mssql_deadlocks 7; mssql_up 1; mssql_deadlocks 101; ''" "pc s = 2"
    by blast
  have r': "run (exporter sample_lib [target_a, target_b] refused_first quiet_results sample_render)
              (in_order down_then_up) stale_world = Some s"
    using r by (simp add: down_then_up_def)
  have c: "refused_first 0 = Some (ConnectError ''refused'')"
    by (simp add: refused_first_def)
  have u: "0 < length [target_a, target_b]
           \<and> (\<forall>j < length [target_a, target_b].
                 server ([target_a, target_b] ! j) = server ([target_a, target_b] ! 0) \<longrightarrow> j = 0)"
    by (simp add: target_a_def target_b_def less_Suc_eq)
  have k: "map_of (snd (''mssql_deadlocks'', [(''host'', JStr ''a'')])) ''host''
             = Some (JStr (server ([target_a, target_b] ! 0)))
           \<and> (''mssql_deadlocks'', [(''host'', JStr ''a'')]) \<noteq> up_key ([target_a, target_b] ! 0)"
    by (simp add: target_a_def up_key_def)
  have "map_of (registry (world s)) (''mssql_deadlocks'', [(''host'', JStr ''a'')])
          = map_of (registry stale_world) (''mssql_deadlocks'', [(''host'', JStr ''a'')])
        \<and> map_of (registry (world s)) (up_key ([target_a, target_b] ! 0)) =
            (if 0 < pc s then Some (JNum 0) else map_of (registry stale_world) (up_key ([target_a, target_b] ! 0)))
        \<and> (0, ''mssql_up'') \<notin> set (inflight s) \<and> Issued 0 ''mssql_up'' \<notin> set (trace s)"
    using connect_failure_only_marks_target_down [OF r' c] u k by blast
  then show ?thesis
    using r s c by (simp add: down_then_up_simps stale_world_def)
qed

text \<open>
  C4 as stated fails when another configured target has the same host name (two
  instances on one machine). Here the first target refuses the connection and the second,
  on the same host, answers: the scrape ends with the availability sample of that host at
  1, not 0, and with its deadlock sample changed from 7 to 101.
\<close>

theorem shared_host_samples_change_after_failed_connect:
  "(case run down_then_up_same_host (in_order down_then_up_same_host) stale_world of
      None \<Rightarrow> False
    | Some s \<Rightarrow>
        connect_result down_then_up_same_host 0 = Some (ConnectError ''refused'')
        \<and> server (connectStrings down_then_up_same_host ! 0) = ''a''
        \<and> map_of (registry stale_world) (''mssql_deadlocks'', [(''host'', JStr ''a'')]) = Some (JNum 7)
        \<and> response s = Some ''mssql_up 1; mssql_deadlocks 101; ''
        \<and> map_of (registry (world s)) (''mssql_up'', [(''host'', JStr ''a'')]) = Some (JNum 1)
        \<and> map_of (registry (world s)) (''mssql_deadlocks'', [(''host'', JStr ''a'')]) = Some (JNum 101))"
  by (simp add: quiet_eval down_then_up_same_host_simps refused_first_def up_down_refused stale_world_def
      sample_lib_def digit_char_def)

section \<open>Ordering within a scrape\<close>

text \<open>
  C5, as the code has it. In every state a scrape can reach, for every target \<open>i\<close> and
  every collector of the catalogue:
  \<^item> the connection of \<open>i\<close> is closed at most once, and exactly once by the time the
    response has been sent if it was opened;
  \<^item> when it is closed, the collector has settled before, and no collector of \<open>i\<close>
    settles after the close;
  \<^item> when any collector of \<open>i\<close> settles (the availability collector included), the
    query of every collector of \<open>i\<close> has already been sent: the collectors run
    concurrently and none waits for the availability observation.
\<close>

theorem close_once_after_collectors_settled:
  assumes "run sc es w = Some s" and "name \<in> set (names sc)"
  shows "count_list (trace s) (Closed i) \<le> 1
     \<and> (response s \<noteq> None \<and> i < length (connectStrings sc) \<and> connect_result sc i = None \<longrightarrow>
          count_list (trace s) (Closed i) = 1)
     \<and> (Closed i \<in> set (trace s) \<longrightarrow> before (Settled i name) (Closed i) (trace s))
     \<and> \<not> before (Closed i) (Settled i name') (trace s)
     \<and> (Settled i name' \<in> set (trace s) \<longrightarrow> before (Issued i name) (Settled i name') (trace s))"
proof -
  have ord: "trace_order sc s" using assms(1) by (rule trace_order_run)
  have 1: "count_list (trace s) (Closed i) \<le> 1" using assms(1) by (rule closed_once)
  have 2: "count_list (trace s) (Closed i) = 1"
    if "response s \<noteq> None" "i < length (connectStrings sc)" "connect_result sc i = None"
  proof -
    have "pc s = length (connectStrings sc)" "opened s = []"
      using finished_run [OF assms(1) that(1)] by simp_all
    then have "Closed i \<in> set (trace s)"
      using closed_iff [OF assms(1), of i] that by simp
    then have "count_list (trace s) (Closed i) \<noteq> 0" by (simp add: count_list_0_iff)
    then show ?thesis using 1 by simp
  qed
  have 3: "Closed i \<in> set (trace s) \<longrightarrow> before (Settled i name) (Closed i) (trace s)"
    using ord assms(2) unfolding trace_order_def by blast
  have 4: "\<not> before (Closed i) (Settled i name') (trace s)"
    using ord unfolding trace_order_def by blast
  have 5: "Settled i name' \<in> set (trace s) \<longrightarrow> before (Issued i name) (Settled i name') (trace s)"
    using ord assms(2) unfolding trace_order_def by blast
  show ?thesis using 1 2 3 4 5 by blast
qed

theorem close_once_after_collectors_settled_witness:
  "run two_collectors [Connect 0, Complete 0 ''mssql_buffer_manager'', Complete 0 ''mssql_up'', Close 0, Send]
     empty_world = Some two_collectors_final
   \<and> ''mssql_up'' \<in> set (names two_collectors)
   \<and> count_list (trace two_collectors_final) (Closed 0) = 1
   \<and> before (Settled 0 ''mssql_up'') (Closed 0) (trace two_collectors_final)
   \<and> \<not> before (Closed 0) (Settled 0 ''mssql_buffer_manager'') (trace two_collectors_final)
   \<and> before (Issued 0 ''mssql_up'') (Settled 0 ''mssql_buffer_manager'') (trace two_collectors_final)"
proof -
  have n: "''mssql_up'' \<in> set (names two_collectors)"
    by (simp add: names_def two_collectors_simps)
  have f: "response two_collectors_final \<noteq> None" "0 < length (connectStrings two_collectors)"
    "connect_result two_collectors 0 = None" "Closed 0 \<in> set (trace two_collectors_final)"
    "Settled 0 ''mssql_buffer_manager'' \<in> set (trace two_collectors_final)"
    by (simp_all add: two_collectors_final_def two_collectors_simps)
  show ?thesis
    using close_once_after_collectors_settled [OF two_collectors_full_run n, of 0 "''mssql_buffer_manager''"]
      two_collectors_full_run n f
    by simp
qed

text \<open>
  C5 as stated fails in its first part. In this scrape of one reachable target the
  result of the version query is delivered before the result of \<open>SELECT 1\<close>: the version
  gauge is set first and the availability gauge after it, and the queries of the other
  collectors had all been sent before either.
\<close>

theorem other_collector_runs_before_up_is_recorded:
  "(case run one_target [Connect 0, Complete 0 ''mssql_product_version'', Complete 0 ''mssql_up''] empty_world of
      None \<Rightarrow> False
    | Some s \<Rightarrow>
        registry (world s) =
          [((''mssql_product_version'', [(''host'', JStr ''a'')]), JStr ''15.0''),
           ((''mssql_up'', [(''host'', JStr ''a'')]), JNum 1)]
        \<and> before (Settled 0 ''mssql_product_version'') (Settled 0 ''mssql_up'') (trace s)
        \<and> before (Issued 0 ''mssql_connections'') (Settled 0 ''mssql_up'') (trace s))"
proof -
  have pv: "mssql_product_version_collect sample_lib [[JStr ''15.0.2000.5'']] mssql_product_version_metrics
              (JStr ''a'') JUndefined [] =
            (Inr (), [((''mssql_product_version'', [(''host'', JStr ''a'')]), JStr ''15.0'')])"
    by (simp add: mssql_product_version_collect_def mssql_product_version_metrics_def sample_lib_def
        version_fields_def Let_def is_digit_def read_nat_def digit_val_def digit_char_def numeric_string_def
        js_plus_def cell_def metric_set_def gauge_set_def valid_labels_def)
  have up: "mssql_up_collect sample_lib [[JNum 1]] mssql_up_metrics (JStr ''a'') JUndefined
              [((''mssql_product_version'', [(''host'', JStr ''a'')]), JStr ''15.0'')] =
            (Inr (), [((''mssql_product_version'', [(''host'', JStr ''a'')]), JStr ''15.0''),
                      ((''mssql_up'', [(''host'', JStr ''a'')]), JNum 1)])"
    by (simp add: mssql_up_collect_def mssql_up_metrics_def cell_def metric_set_def gauge_set_def valid_labels_def)
  show ?thesis
    by (simp add: run_def init_def connect_def one_target_simps collect_getMetrics getMetrics_lookup
        empty_world_def sample_results_def measure_v2_rows mssql_product_version_def mssql_up_def
        pv up target_a_def before_def)
qed

text \<open>
  C8, as the code has it. The connection attempts are made one at a time, in the order
  of the configuration: the trace of every reachable state lists the attempts as
  \<open>0, 1, ...\<close> up to the loop position, and the only attempt that can come next is the one
  for the target at the loop position, which outstanding queries of earlier targets do
  not hold up. The results of the queries are not ordered: any two outstanding results,
  of the same target or of different ones, can be delivered in either order.
\<close>

theorem connects_in_turn_results_in_any_order:
  assumes "run sc es w = Some s"
  shows "attempts (trace s) = [0 ..< pc s]
     \<and> (\<forall>j. step sc (Connect j) s \<noteq> None \<longrightarrow> j = pc s)
     \<and> (failed s = None \<and> pc s < length (connectStrings sc) \<longrightarrow> step sc (Connect (pc s)) s \<noteq> None)
     \<and> (\<forall>p q. p \<in> set (inflight s) \<and> q \<in> set (inflight s) \<and> p \<noteq> q \<longrightarrow>
            exec sc [Complete (fst p) (snd p), Complete (fst q) (snd q)] s \<noteq> None
          \<and> exec sc [Complete (fst q) (snd q), Complete (fst p) (snd p)] s \<noteq> None)"
proof -
  have inv: "inv sc s" using assms by (rule inv_run)
  have 1: "attempts (trace s) = [0 ..< pc s]" using assms by (rule attempts_in_order)
  have 2: "\<forall>j. step sc (Connect j) s \<noteq> None \<longrightarrow> j = pc s"
    by (auto split: if_splits)
  have 3: "step sc (Connect (pc s)) s \<noteq> None" if "failed s = None" "pc s < length (connectStrings sc)"
  proof -
    have "response s = None" using inv that(2) by (auto simp: inv_def)
    then show ?thesis using that by (auto split: sum.splits prod.splits)
  qed
  have 4: "exec sc [Complete (fst p) (snd p), Complete (fst q) (snd q)] s \<noteq> None"
    if pin: "p \<in> set (inflight s)" and qin: "q \<in> set (inflight s)" and ne: "p \<noteq> q" for p q
  proof -
    have pm: "(fst p, snd p) \<in> set (inflight s)" using pin by simp
    obtain c where c: "map_of (entries sc) (snd p) = Some c"
      using inflight_known [OF assms pm] by blast
    obtain c' where c': "map_of (entries sc) (snd q) = Some c'"
      using inflight_known [OF assms, of "fst q" "snd q"] qin by auto
    define s' where "s' = s\<lparr>world := snd (measure_v2 \<lparr>config = connectStrings sc ! fst p\<rparr> c (snd p)
                                           (query_result sc (fst p) (snd p)) (world s)),
             inflight := remove1 (fst p, snd p) (inflight s),
             unresolved := remove1 (fst p, snd p) (unresolved s),
             trace := trace s @ [Settled (fst p) (snd p)]\<rparr>"
    have st: "step sc (Complete (fst p) (snd p)) s = Some s'"
      unfolding s'_def by (rule step_Complete_enabled [OF pm c])
    have "q \<in> set (remove1 p (inflight s))" using qin ne by simp
    then have qm: "(fst q, snd q) \<in> set (inflight s')" by (simp add: s'_def)
    obtain s'' where st': "step sc (Complete (fst q) (snd q)) s' = Some s''"
      using step_Complete_enabled [OF qm c'] by blast
    show ?thesis by (simp add: st st' del: step.simps)
  qed
  show ?thesis using 1 2 3 4 by (metis (no_types, lifting))
qed

theorem connects_in_turn_results_in_any_order_witness:
  "run two_collectors [Connect 0] empty_world = Some two_collectors_connected
   \<and> attempts (trace two_collectors_connected) = [0]
   \<and> exec two_collectors [Complete 0 ''mssql_up'', Complete 0 ''mssql_buffer_manager''] two_collectors_connected \<noteq> None
   \<and> exec two_collectors [Complete 0 ''mssql_buffer_manager'', Complete 0 ''mssql_up''] two_collectors_connected \<noteq> None"
proof -
  have m: "(0, ''mssql_up'') \<in> set (inflight two_collectors_connected)"
    "(0, ''mssql_buffer_manager'') \<in> set (inflight two_collectors_connected)"
    "(0::nat, ''mssql_up'') \<noteq> (0, ''mssql_buffer_manager'')"
    by (simp_all add: two_collectors_connected_def)
  have "\<forall>p q. p \<in> set (inflight two_collectors_connected) \<and> q \<in> set (inflight two_collectors_connected) \<and> p \<noteq> q \<longrightarrow>
            exec two_collectors [Complete (fst p) (snd p), Complete (fst q) (snd q)] two_collectors_connected \<noteq> None
          \<and> exec two_collectors [Complete (fst q) (snd q), Complete (fst p) (snd p)] two_collectors_connected \<noteq> None"
    and a: "attempts (trace two_collectors_connected) = [0 ..< pc two_collectors_connected]"
    using connects_in_turn_results_in_any_order [OF two_collectors_run] by blast+
  then have "exec two_collectors [Complete (fst (0::nat, ''mssql_up'')) (snd (0::nat, ''mssql_up'')),
                                  Complete (fst (0::nat, ''mssql_buffer_manager'')) (snd (0::nat, ''mssql_buffer_manager''))]
                two_collectors_connected \<noteq> None
          \<and> exec two_collectors [Complete (fst (0::nat, ''mssql_buffer_manager'')) (snd (0::nat, ''mssql_buffer_manager'')),
                                  Complete (fst (0::nat, ''mssql_up'')) (snd (0::nat, ''mssql_up''))]
                two_collectors_connected \<noteq> None"
    using m by blast
  moreover have "attempts (trace two_collectors_connected) = [0]"
    using a by (simp add: two_collectors_connected_def)
  ultimately show ?thesis using two_collectors_run by simp
qed

text \<open>
  C8 as stated fails for the connection attempts. With two targets configured, the
  attempt for the second cannot be the first event of a scrape: the loop awaits the first
  target's \<open>connect\<close> before it reaches the second. In the order the loop imposes both
  attempts are made.
\<close>

theorem second_target_waits_for_first_connect:
  "run two_targets [Connect 1] empty_world = None
   \<and> (case run two_targets [Connect 0, Connect 1] empty_world of
        None \<Rightarrow> False
      | Some s \<Rightarrow> attempts (trace s) = [0, 1])"
  by (simp add: run_def init_def connect_def two_targets_simps)

section \<open>A second scrape\<close>

text \<open>A pair that has been delivered in a finished scrape, and owns its samples alone,
  finds its writes in the metric space and would not change it.\<close>

lemma slot_action_stable:
  assumes d: "distinct (map server ts)"
    and run: "run (exporter l ts cr qr rd) es w = Some s" and fin: "response s \<noteq> None"
    and j: "j < length ts"
  shows "snd (slot_action (exporter l ts cr qr rd) j m (registry (world s))) = registry (world s)"
proof (rule confined_stable [OF slot_confined])
  show "catalogue_ok (entries (exporter l ts cr qr rd))"
    by (simp add: catalogue_ok_getMetrics)
next
  fix k v
  assume "map_of (snd (slot_action (exporter l ts cr qr rd) j m [])) k = Some v"
  then have c: "contrib (exporter l ts cr qr rd) j m k = Some v"
    by (simp add: contrib_def)
  have f: "pc s = length ts" "inflight s = []"
    using finished_run [OF run fin] by simp_all
  show "map_of (registry (world s)) k = Some v"
  proof (rule slot_value_kept [OF _ run _ c])
    show "catalogue_ok (entries (exporter l ts cr qr rd))"
      by (simp add: catalogue_ok_getMetrics)
    show "j < pc s" "(j, m) \<notin> set (inflight s)"
      using f j by simp_all
  next
    fix j' m'
    assume j': "j' < length (connectStrings (exporter l ts cr qr rd))" and ne: "(j', m') \<noteq> (j, m)"
    show "contrib (exporter l ts cr qr rd) j' m' k = None"
    proof (rule ccontr)
      assume "contrib (exporter l ts cr qr rd) j' m' k \<noteq> None"
      then obtain v' where "contrib (exporter l ts cr qr rd) j' m' k = Some v'" by blast
      then have "m' = m" "server (ts ! j') = server (ts ! j)"
        using contrib_same_owner [OF c] by blast+
      moreover have "j' = j"
        using d j j' \<open>server (ts ! j') = server (ts ! j)\<close>
        by (auto simp: distinct_conv_nth)
      ultimately show False using ne by simp
    qed
  qed
qed

lemma second_scrape_keeps_registry:
  assumes d: "distinct (map server ts)"
    and run: "run (exporter l ts cr qr rd) es w = Some s" and fin: "response s \<noteq> None"
    and again: "run (exporter l ts cr qr rd) es' (world s) = Some s'"
  shows "registry (world s') = registry (world s)"
  using again
proof (induction rule: run_induct)
  case init
  then show ?case by (simp add: init_def)
next
  case (step es'' t e t')
  have inv: "inv (exporter l ts cr qr rd) t" using step.hyps(1) by (rule inv_run)
  from inv step.hyps(2) show ?case
  proof (cases rule: step_registry_cases)
    case same
    then show ?thesis using step.IH by simp
  next
    case (slot j m)
    then show ?thesis
      using step.IH slot_action_stable [OF d run fin, of j m] by simp
  qed
qed

section \<open>The availability gauge after a scrape\<close>

text \<open>
  C1, as the code has it. When a scrape of the exporter has sent its response, the
  sample of \<open>mssql_up\<close> for a target whose host no other configured target has is:
  \<^item> 0 when the connection could not be opened;
  \<^item> the first cell of the first row that \<open>SELECT 1\<close> returned when it was opened and
    the library accepts that cell as a value (1 from a server that answers the query);
  \<^item> what it was before the scrape, absent on a first scrape, when the connection was
    opened and the query failed, returned no rows, or returned a cell that the library
    rejects.
\<close>

theorem up_after_scrape:
  assumes "run (exporter l ts cr qr rd) es w = Some s" and "response s \<noteq> None"
    and "i < length ts" and "\<forall>j < length ts. server (ts ! j) = server (ts ! i) \<longrightarrow> j = i"
  shows "map_of (registry (world s)) (up_key (ts ! i)) =
     (case cr i of
        Some e \<Rightarrow> Some (JNum 0)
      | None \<Rightarrow>
          (case qr i ''mssql_up'' of
             Inl e \<Rightarrow> map_of (registry w) (up_key (ts ! i))
           | Inr [] \<Rightarrow> map_of (registry w) (up_key (ts ! i))
           | Inr (r # rs) \<Rightarrow>
               if valid_value l (cell r 0) then Some (cell r 0) else map_of (registry w) (up_key (ts ! i))))"
proof -
  let ?sc = "exporter l ts cr qr rd"
  let ?k = "up_key (ts ! i)"
  have ok: "catalogue_ok (entries ?sc)" by (simp add: catalogue_ok_getMetrics)
  have f: "pc s = length ts" "inflight s = []"
    using finished_run [OF assms(1,2)] by simp_all
  have other: "contrib ?sc j m ?k = None" if "j < length ts" "(j, m) \<noteq> (i, ''mssql_up'')" for j m
  proof (rule ccontr)
    assume "contrib ?sc j m ?k \<noteq> None"
    then obtain v where "contrib ?sc j m ?k = Some v" by blast
    then have "m = ''mssql_up''" "server (ts ! j) = server (ts ! i)"
      using contrib_up_owner by blast+
    then show False using that assms(4) by simp
  qed
  show ?thesis
  proof (cases "contrib ?sc i ''mssql_up'' ?k")
    case None
    have "contrib ?sc j m ?k = None" if "j < length (connectStrings ?sc)" for j m
      using other [of j m] that None by (cases "(j, m) = (i, ''mssql_up'')") simp_all
    then have "map_of (registry (world s)) ?k = map_of (registry w) ?k"
      by (rule untouched_key [OF ok assms(1)])
    then show ?thesis
      using None by (simp add: contrib_up split: option.splits sum.splits list.splits if_splits)
  next
    case (Some v)
    have "map_of (registry (world s)) ?k = Some v"
    proof (rule slot_value_kept [OF ok assms(1) _ Some])
      show "i < pc s" "(i, ''mssql_up'') \<notin> set (inflight s)"
        using f assms(3) by simp_all
    qed (use other in simp)
    then show ?thesis
      using Some by (auto simp: contrib_up split: option.splits sum.splits list.splits if_splits)
  qed
qed

text \<open>One quiet target, scraped into an empty metric space: the scrape ends with the
  availability sample at 1.\<close>

theorem up_after_scrape_witness:
  "(case run one_quiet (in_order one_quiet) empty_world of
      None \<Rightarrow> False
    | Some s \<Rightarrow>
        response s = Some ''mssql_up 1; mssql_deadlocks 100; ''
        \<and> connect_result one_quiet 0 = None
        \<and> query_result one_quiet 0 ''mssql_up'' = Inr [[JNum 1]]
        \<and> map_of (registry (world s)) (up_key target_a) = Some (JNum 1))"
proof -
  have "\<exists>s. run one_quiet (in_order one_quiet) empty_world = Some s
           \<and> response s = Some ''mssql_up 1; mssql_deadlocks 100; ''"
    by (simp add: quiet_eval one_quiet_simps sample_lib_def digit_char_def)
  then obtain s where r: "run one_quiet (in_order one_quiet) empty_world = Some s"
    and s: "response s = Some ''mssql_up 1; mssql_deadlocks 100; ''"
    by blast
  have r': "run (exporter sample_lib [target_a] (\<lambda>i. None) quiet_results sample_render)
              (in_order one_quiet) empty_world = Some s"
    using r by (simp add: one_quiet_def)
  have f: "response s \<noteq> None" using s by simp
  have u: "0 < length [target_a]"
    "\<forall>j < length [target_a]. server ([target_a] ! j) = server ([target_a] ! 0) \<longrightarrow> j = 0"
    by simp_all
  have q: "quiet_results 0 ''mssql_up'' = Inr [[JNum 1]]"
    by (simp add: quiet_results_def)
  have "map_of (registry (world s)) (up_key target_a) = Some (JNum 1)"
    using up_after_scrape [OF r' f u] by (simp add: q cell_def)
  then show ?thesis
    using r s q by (simp add: one_quiet_simps)
qed

text \<open>
  C1 as stated fails when the connection opens and \<open>SELECT 1\<close> then fails: nothing
  sets the availability gauge. Here the connection to the one target opens, every query
  fails, and the scrape ends with no sample of \<open>mssql_up\<close> for the target at all.
\<close>

theorem up_absent_when_select_fails:
  "(case run one_up (in_order one_up) empty_world of
      None \<Rightarrow> False
    | Some s \<Rightarrow>
        connect_result one_up 0 = None
        \<and> response s = Some []
        \<and> registry (world s) = []
        \<and> map_of (registry (world s)) (up_key target_a) = None)"
  by (simp add: in_order_def run_def init_def connect_def one_up_simps collect_getMetrics getMetrics_lookup
        empty_world_def measure_v2_rejected target_a_def up_key_def sample_render_def)

section \<open>Scraping twice\<close>

text \<open>
  C6, as the code has it. When no two configured targets have the same host name, a
  scrape that follows a finished scrape with the same connection and query results
  leaves the metric space, in every state it reaches and whatever the order in which its
  results are delivered, as the first scrape left it; so the response it sends is the
  response of the first scrape.
\<close>

theorem second_scrape_changes_nothing:
  assumes "distinct (map server ts)"
    and "run (exporter l ts cr qr rd) es w = Some s" and "response s \<noteq> None"
    and "run (exporter l ts cr qr rd) es' (world s) = Some s'"
  shows "registry (world s') = registry (world s)
         \<and> (response s' \<noteq> None \<longrightarrow> response s' = response s)"
proof -
  have r: "registry (world s') = registry (world s)"
    using assms by (rule second_scrape_keeps_registry)
  have "response s' = response s" if "response s' \<noteq> None"
    using finished_run(5) [OF assms(2,3)] finished_run(5) [OF assms(4) that] r by simp
  then show ?thesis using r by blast
qed

theorem second_scrape_changes_nothing_witness:
  "(case run one_quiet (in_order one_quiet) empty_world of
      None \<Rightarrow> False
    | Some s \<Rightarrow>
        (case run one_quiet (in_order one_quiet) (world s) of
           None \<Rightarrow> False
         | Some s' \<Rightarrow>
             distinct (map server (connectStrings one_quiet))
             \<and> response s = Some ''mssql_up 1; mssql_deadlocks 100; ''
             \<and> response s' = Some ''mssql_up 1; mssql_deadlocks 100; ''
             \<and> registry (world s') = registry (world s)))"
proof -
  have "\<exists>s. run one_quiet (in_order one_quiet) empty_world = Some s
           \<and> response s = Some ''mssql_up 1; mssql_deadlocks 100; ''
           \<and> (\<exists>s'. run one_quiet (in_order one_quiet) (world s) = Some s'
                  \<and> response s' = Some ''mssql_up 1; mssql_deadlocks 100; '')"
    by (simp add: quiet_eval one_quiet_simps sample_lib_def digit_char_def)
  then obtain s s' where r: "run one_quiet (in_order one_quiet) empty_world = Some s"
    and s: "response s = Some ''mssql_up 1; mssql_deadlocks 100; ''"
    and r2: "run one_quiet (in_order one_quiet) (world s) = Some s'"
    and s2: "response s' = Some ''mssql_up 1; mssql_deadlocks 100; ''"
    by blast
  have d: "distinct (map server [target_a])" by simp
  have f: "response s \<noteq> None" using s by simp
  have "registry (world s') = registry (world s)"
    using second_scrape_changes_nothing [OF d r [unfolded one_quiet_def] f r2 [unfolded one_quiet_def]]
    by blast
  then show ?thesis
    using r s r2 s2 by (simp add: one_quiet_simps)
qed

text \<open>
  C6 as stated fails when two configured targets have the same host name: both write
  the same samples, and the one whose result is delivered last wins. Here the first
  scrape delivers the results target by target and ends with the deadlock sample of the
  host at 101, the value of the second target; a second scrape, with the same results,
  delivers the deadlock counter of the first target last and ends with 100. The two
  responses differ.
\<close>

theorem shared_host_second_scrape_differs:
  "(case run same_host (in_order same_host) empty_world of
      None \<Rightarrow> False
    | Some s \<Rightarrow>
        (case run same_host (first_deadlocks_last same_host) (world s) of
           None \<Rightarrow> False
         | Some s' \<Rightarrow>
             response s = Some ''mssql_up 1; mssql_deadlocks 101; ''
             \<and> response s' = Some ''mssql_up 1; mssql_deadlocks 100; ''))"
  by (simp add: quiet_eval first_deadlocks_last_def same_host_simps sample_lib_def digit_char_def)

end
